(* ===== verification/Prelude.thy ===== *)
theory Prelude
  imports Main "HOL-Library.Sublist"
begin

text \<open>
  What every other theory of the development shares: the outcome of a Go call (a value or a
  panic), Go errors as values, the collections of simplification rules the component theories
  fill, and generic lemmas on lists.

  A Go function that returns a value and may panic is a function into \<open>'a go\<close>.
  A Go function with the single result \<open>error\<close> is a function into \<open>error option\<close>
  (\<open>None\<close> is \<open>nil\<close>), and one with results \<open>(T, error)\<close> where the value is
  meaningful only when the error is \<open>nil\<close> is a function into \<open>error + T\<close>.
  Errors keep the structure of the \<open>fmt.Errorf\<close> call that made them.
\<close>

section \<open>Collections\<close>

named_theorems go_string "equations of the string operations on the strings the code builds"
named_theorems outcome_simps "equations of the outcome monad and of the error values"

section \<open>Outcomes\<close>

datatype 'a go = Ret 'a | Panic string

fun go_bind :: "'a go \<Rightarrow> ('a \<Rightarrow> 'b go) \<Rightarrow> 'b go" where
  "go_bind (Ret x) f = f x"
| "go_bind (Panic m) f = Panic m"

fun returns :: "'a go \<Rightarrow> bool" where
  "returns (Ret x) = True"
| "returns (Panic m) = False"

lemma go_bind_Ret_iff [outcome_simps]:
  "go_bind m f = Ret y \<longleftrightarrow> (\<exists>x. m = Ret x \<and> f x = Ret y)"
  by (cases m) auto

lemma go_bind_assoc [outcome_simps]:
  "go_bind (go_bind m f) g = go_bind m (\<lambda>x. go_bind (f x) g)"
  by (cases m) auto

lemma returns_bind [outcome_simps]:
  "returns (go_bind m f) \<longleftrightarrow> (\<exists>x. m = Ret x \<and> returns (f x))"
  by (cases m) auto

lemma returns_iff [outcome_simps]: "returns m \<longleftrightarrow> (\<exists>x. m = Ret x)"
  by (cases m) auto

section \<open>Errors\<close>

text \<open>The gRPC status codes the code names.\<close>

datatype grpc_code =
    InvalidArgument | PermissionDenied | Unauthenticated | Internal | Unimplemented

text \<open>
  \<open>Msg t\<close> is \<open>fmt.Errorf(t)\<close>; \<open>MsgQ t v u\<close> is a message with one quoted argument;
  \<open>MsgS t v u\<close> one with a plain argument; \<open>Wrap t e\<close> is \<open>fmt.Errorf("t: %w", e)\<close>;
  \<open>WrapOut t e o\<close> is \<open>fmt.Errorf("t: %w: %s", e, o)\<close>; \<open>Status c t\<close> and
  \<open>StatusOf c t e\<close> are \<open>status.Error\<close> and \<open>status.Errorf\<close> with a \<open>%v\<close> of an
  error; \<open>Ext t\<close> is an error made by the operating system or a library, with its text.
\<close>

datatype error =
    Msg string
  | MsgQ string string string
  | MsgS string string string
  | Wrap string error
  | WrapOut string error string
  | Status grpc_code string
  | StatusOf grpc_code string error
  | Ext string

text \<open>The gRPC status code of an error (plain errors are sent as \<open>codes.Unknown\<close>: \<open>None\<close>).\<close>

fun status_code :: "error \<Rightarrow> grpc_code option" where
  "status_code (Status c t) = Some c"
| "status_code (StatusOf c t e) = Some c"
| "status_code _ = None"

text \<open>Go's idiom \<open>if err != nil { return zero, wrap(err) }\<close> on both shapes of result.\<close>

definition wrap_err :: "string \<Rightarrow> error + 'a \<Rightarrow> error + 'a" where
  "wrap_err t r = (case r of Inl e \<Rightarrow> Inl (Wrap t e) | Inr x \<Rightarrow> Inr x)"

definition res_bind :: "error + 'a \<Rightarrow> ('a \<Rightarrow> error + 'b) \<Rightarrow> error + 'b" where
  "res_bind r f = (case r of Inl e \<Rightarrow> Inl e | Inr x \<Rightarrow> f x)"

lemma wrap_err_simps [simp, outcome_simps]:
  "wrap_err t (Inl e) = Inl (Wrap t e)" "wrap_err t (Inr x) = Inr x"
  by (simp_all add: wrap_err_def)

lemma res_bind_simps [simp, outcome_simps]:
  "res_bind (Inl e) f = Inl e" "res_bind (Inr x) f = f x"
  by (simp_all add: res_bind_def)

lemma wrap_err_Inr_iff [outcome_simps]: "wrap_err t r = Inr x \<longleftrightarrow> r = Inr x"
  by (cases r) auto

lemma res_bind_Inr_iff [outcome_simps]:
  "res_bind r f = Inr y \<longleftrightarrow> (\<exists>x. r = Inr x \<and> f x = Inr y)"
  by (cases r) auto

text \<open>The first error of a list of checks: a \<open>for\<close> loop that returns on the first error.\<close>

fun first_error :: "('a \<Rightarrow> error option) \<Rightarrow> 'a list \<Rightarrow> error option" where
  "first_error f [] = None"
| "first_error f (x # xs) = (case f x of None \<Rightarrow> first_error f xs | Some e \<Rightarrow> Some e)"

lemma first_error_None_iff [outcome_simps]:
  "first_error f xs = None \<longleftrightarrow> (\<forall>x\<in>set xs. f x = None)"
  by (induction xs) (auto split: option.splits)

section \<open>Lists\<close>

lemma drop_shorter: "w \<noteq> [] \<Longrightarrow> prefix w s \<Longrightarrow> length s - length w < length s"
  by (cases s) (auto simp: prefix_def)

lemma take_shorter: "w \<noteq> [] \<Longrightarrow> suffix w s \<Longrightarrow> length s - length w < length s"
  by (cases s) (auto simp: suffix_def)

lemma find_SomeD: "find P xs = Some x \<Longrightarrow> P x \<and> x \<in> set xs"
  by (auto simp: find_Some_iff)

lemma takeWhile_append_stop:
  "\<forall>x\<in>set xs. P x \<Longrightarrow> \<not> P y \<Longrightarrow> takeWhile P (xs @ y # ys) = xs"
  by (induction xs) auto

lemma dropWhile_append_stop:
  "\<forall>x\<in>set xs. P x \<Longrightarrow> \<not> P y \<Longrightarrow> dropWhile P (xs @ y # ys) = y # ys"
  by (induction xs) auto

lemma suffix_append_cases:
  assumes "suffix w (p @ f)"
  shows "suffix w f \<or> (\<exists>q. q \<noteq> [] \<and> suffix q p \<and> w = q @ f)"
proof -
  from assms obtain z where z: "p @ f = z @ w" by (auto simp: suffix_def)
  then consider us where "p = z @ us" "w = us @ f" | us where "p @ us = z" "f = us @ w"
    by (auto simp: append_eq_append_conv2)
  then show ?thesis
  proof cases
    case 1
    then show ?thesis by (cases us) (auto simp: suffix_def)
  next
    case 2
    then show ?thesis by (auto simp: suffix_def)
  qed
qed

end
