(* ===== verification/Go_Strings.thy ===== *)
theory Go_Strings
  imports Prelude
begin

text \<open>
  The part of Go's \<open>strings\<close>, \<open>strconv\<close>, \<open>unicode/utf8\<close> and \<open>encoding/hex\<close> packages that
  the program uses, on Go strings: byte strings, modelled as HOL's \<open>string\<close> (a \<open>char\<close> is a
  byte). Trimming knows the UTF-8 encodings of every code point that \<open>unicode.IsSpace\<close> accepts.
  The two Unicode tables the program reaches outside ASCII (\<open>strconv.IsPrint\<close> through \<open>%q\<close>
  and \<open>unicode.ToLower\<close> through \<open>strings.ToLower\<close>) are the fields of a \<open>unicode\<close> record,
  consulted only for code points from 128 on.
\<close>

section \<open>Bytes\<close>

definition byte :: "char \<Rightarrow> nat" where
  "byte c = of_char c"

definition is_lower :: "char \<Rightarrow> bool" where
  "is_lower c \<longleftrightarrow> 97 \<le> byte c \<and> byte c \<le> 122"

definition is_upper :: "char \<Rightarrow> bool" where
  "is_upper c \<longleftrightarrow> 65 \<le> byte c \<and> byte c \<le> 90"

definition is_digit :: "char \<Rightarrow> bool" where
  "is_digit c \<longleftrightarrow> 48 \<le> byte c \<and> byte c \<le> 57"

definition is_alpha :: "char \<Rightarrow> bool" where
  "is_alpha c \<longleftrightarrow> is_lower c \<or> is_upper c"

definition is_alnum :: "char \<Rightarrow> bool" where
  "is_alnum c \<longleftrightarrow> is_alpha c \<or> is_digit c"

text \<open>A visible ASCII byte, and an ASCII byte.\<close>

definition graphic :: "char \<Rightarrow> bool" where
  "graphic c \<longleftrightarrow> 33 \<le> byte c \<and> byte c \<le> 126"

definition ascii :: "char \<Rightarrow> bool" where
  "ascii c \<longleftrightarrow> byte c < 128"

lemma byte_less: "byte c < 256"
  using of_char_mod_256[of c] mod_less_divisor[of 256 "of_char c :: nat"]
  by (simp add: byte_def)

lemma byte_inject: "byte c = byte d \<longleftrightarrow> c = d"
  by (simp add: byte_def)

lemma byte_char_of: "n < 256 \<Longrightarrow> byte (char_of n) = n"
  by (simp add: byte_def)

lemma char_of_byte: "char_of (byte c) = c"
  by (simp add: byte_def)

lemma alnum_graphic: "is_alnum c \<Longrightarrow> graphic c"
  by (auto simp: is_alnum_def is_alpha_def is_lower_def is_upper_def is_digit_def graphic_def)

section \<open>Prefixes, suffixes, searching and splitting\<close>

text \<open>\<open>strings.HasPrefix\<close>, \<open>HasSuffix\<close>, \<open>TrimPrefix\<close>, \<open>TrimSuffix\<close>.\<close>

definition has_prefix :: "string \<Rightarrow> string \<Rightarrow> bool" where
  "has_prefix s p = prefix p s"

definition has_suffix :: "string \<Rightarrow> string \<Rightarrow> bool" where
  "has_suffix s p = suffix p s"

definition trim_prefix :: "string \<Rightarrow> string \<Rightarrow> string" where
  "trim_prefix s p = (if has_prefix s p then drop (length p) s else s)"

definition trim_suffix :: "string \<Rightarrow> string \<Rightarrow> string" where
  "trim_suffix s p = (if has_suffix s p then take (length s - length p) s else s)"

text \<open>\<open>strings.Index\<close> (\<open>None\<close> for -1) and \<open>strings.Contains\<close>, \<open>ContainsAny\<close>.\<close>

fun index_str :: "string \<Rightarrow> string \<Rightarrow> nat option" where
  "index_str s p =
     (if has_prefix s p then Some 0
      else (case s of [] \<Rightarrow> None | _ # r \<Rightarrow> map_option Suc (index_str r p)))"

declare index_str.simps [simp del]

definition contains_str :: "string \<Rightarrow> string \<Rightarrow> bool" where
  "contains_str s p \<longleftrightarrow> index_str s p \<noteq> None"

definition contains_any :: "string \<Rightarrow> string \<Rightarrow> bool" where
  "contains_any s cs \<longleftrightarrow> list_ex (\<lambda>c. List.member cs c) s"

text \<open>\<open>strings.Cut\<close> at a one-byte separator: before, after, found.\<close>

definition cut_at :: "string \<Rightarrow> char \<Rightarrow> string \<times> string \<times> bool" where
  "cut_at s c =
     (case dropWhile (\<lambda>x. x \<noteq> c) s of
        [] \<Rightarrow> (s, [], False)
      | _ # r \<Rightarrow> (takeWhile (\<lambda>x. x \<noteq> c) s, r, True))"

text \<open>\<open>strings.Split\<close> at a one-byte separator, and \<open>strings.Join\<close>.\<close>

fun split_on :: "char \<Rightarrow> string \<Rightarrow> string list" where
  "split_on c [] = [[]]"
| "split_on c (x # xs) =
     (if x = c then [] # split_on c xs
      else (case split_on c xs of [] \<Rightarrow> [[x]] | w # ws \<Rightarrow> (x # w) # ws))"

fun join_with :: "string \<Rightarrow> string list \<Rightarrow> string" where
  "join_with sep [] = []"
| "join_with sep [w] = w"
| "join_with sep (w # v # ws) = w @ sep @ join_with sep (v # ws)"

lemma has_prefix_append [simp, go_string]: "has_prefix (p @ s) p"
  by (simp add: has_prefix_def)

lemma has_suffix_append [simp, go_string]: "has_suffix (s @ p) p"
  by (simp add: has_suffix_def suffix_def)

lemma trim_prefix_append [simp, go_string]: "trim_prefix (p @ s) p = s"
  by (simp add: trim_prefix_def)

lemma trim_suffix_append [simp, go_string]: "trim_suffix (s @ p) p = s"
  by (simp add: trim_suffix_def)

lemma has_prefix_iff: "has_prefix s p \<longleftrightarrow> (\<exists>r. s = p @ r)"
  by (auto simp: has_prefix_def prefix_def)

lemma has_suffix_iff: "has_suffix s p \<longleftrightarrow> (\<exists>r. s = r @ p)"
  by (auto simp: has_suffix_def suffix_def)

lemma contains_str_iff: "contains_str s p \<longleftrightarrow> (\<exists>u v. s = u @ p @ v)"
proof (induction s)
  case Nil
  then show ?case
    by (auto simp: contains_str_def index_str.simps[of "[]"] has_prefix_iff)
next
  case (Cons x s)
  have "contains_str (x # s) p \<longleftrightarrow> has_prefix (x # s) p \<or> contains_str s p"
    by (auto simp: contains_str_def index_str.simps[of "x # s"])
  also have "\<dots> \<longleftrightarrow> (\<exists>u v. x # s = u @ p @ v)"
    unfolding Cons.IH has_prefix_iff
    by (metis append_Cons append_Nil append_eq_Cons_conv list.inject)
  finally show ?case .
qed

lemma contains_any_iff [go_string]: "contains_any s cs \<longleftrightarrow> (\<exists>c\<in>set s. c \<in> set cs)"
  by (auto simp: contains_any_def list_ex_iff)

lemma cut_at_found [go_string]:
  "c \<notin> set k \<Longrightarrow> cut_at (k @ c # v) c = (k, v, True)"
proof -
  assume "c \<notin> set k"
  then have "\<forall>x\<in>set k. x \<noteq> c" by auto
  then have "dropWhile (\<lambda>x. x \<noteq> c) (k @ c # v) = c # v"
    and "takeWhile (\<lambda>x. x \<noteq> c) (k @ c # v) = k"
    by (simp_all add: dropWhile_append_stop takeWhile_append_stop)
  then show ?thesis by (simp add: cut_at_def)
qed

lemma cut_at_missing [go_string]: "c \<notin> set s \<Longrightarrow> cut_at s c = (s, [], False)"
proof -
  assume "c \<notin> set s"
  then have "\<forall>x\<in>set s. x \<noteq> c" by auto
  then have "dropWhile (\<lambda>x. x \<noteq> c) s = []"
    by (simp only: dropWhile_eq_Nil_conv)
  then show ?thesis by (simp only: cut_at_def list.case)
qed

lemma split_on_not_Nil [simp]: "split_on c s \<noteq> []"
  by (induction s) (auto split: list.splits)

lemma split_on_single [go_string]: "c \<notin> set s \<Longrightarrow> split_on c s = [s]"
  by (induction s) auto

lemma split_on_append [go_string]:
  "c \<notin> set w \<Longrightarrow> split_on c (w @ c # s) = w # split_on c s"
  by (induction w) auto

lemma split_on_pieces: "w \<in> set (split_on c s) \<Longrightarrow> c \<notin> set w"
proof (induction s arbitrary: w)
  case Nil
  then show ?case by simp
next
  case (Cons x s)
  then show ?case
    by (cases "split_on c s") (auto split: if_splits)
qed

lemma join_split_on: "join_with [c] (split_on c s) = s"
proof (induction s)
  case Nil
  then show ?case by simp
next
  case (Cons x s)
  show ?case
  proof (cases "split_on c s")
    case Nil
    then show ?thesis by simp
  next
    case (Cons w ws)
    with Cons.IH have "join_with [c] (w # ws) = s" by simp
    then show ?thesis by (cases ws) (auto simp: Cons)
  qed
qed

lemma split_on_join:
  "ws \<noteq> [] \<Longrightarrow> \<forall>w\<in>set ws. c \<notin> set w \<Longrightarrow> split_on c (join_with [c] ws) = ws"
  by (induction "[c]" ws rule: join_with.induct) (auto simp: split_on_single split_on_append)

section \<open>White space\<close>

text \<open>
  The UTF-8 encodings of the code points with \<open>unicode.IsSpace\<close>. None is a prefix or a
  suffix of another, and none starts inside another code point's encoding, so trimming by these
  byte sequences is \<open>strings.TrimSpace\<close>, invalid UTF-8 included.
\<close>

definition space_seqs :: "string list" where
  "space_seqs =
     [[CHR 0x09], [CHR 0x0A], [CHR 0x0B], [CHR 0x0C], [CHR 0x0D], [CHR 0x20],
      [CHR 0xC2, CHR 0x85], [CHR 0xC2, CHR 0xA0], [CHR 0xE1, CHR 0x9A, CHR 0x80],
      [CHR 0xE2, CHR 0x80, CHR 0x80], [CHR 0xE2, CHR 0x80, CHR 0x81],
      [CHR 0xE2, CHR 0x80, CHR 0x82], [CHR 0xE2, CHR 0x80, CHR 0x83],
      [CHR 0xE2, CHR 0x80, CHR 0x84], [CHR 0xE2, CHR 0x80, CHR 0x85],
      [CHR 0xE2, CHR 0x80, CHR 0x86], [CHR 0xE2, CHR 0x80, CHR 0x87],
      [CHR 0xE2, CHR 0x80, CHR 0x88], [CHR 0xE2, CHR 0x80, CHR 0x89],
      [CHR 0xE2, CHR 0x80, CHR 0x8A], [CHR 0xE2, CHR 0x80, CHR 0xA8],
      [CHR 0xE2, CHR 0x80, CHR 0xA9], [CHR 0xE2, CHR 0x80, CHR 0xAF],
      [CHR 0xE2, CHR 0x81, CHR 0x9F], [CHR 0xE3, CHR 0x80, CHR 0x80]]"

lemma space_seqs_not_graphic: "w \<in> set space_seqs \<Longrightarrow> w \<noteq> [] \<and> (\<forall>c\<in>set w. \<not> graphic c)"
  by (auto simp: space_seqs_def graphic_def byte_def)

function trim_left_space :: "string \<Rightarrow> string" where
  "trim_left_space s =
     (case find (\<lambda>w. prefix w s) space_seqs of
        None \<Rightarrow> s
      | Some w \<Rightarrow> trim_left_space (drop (length w) s))"
  by pat_completeness auto
termination
  by (relation "measure length")
     (auto dest!: find_SomeD space_seqs_not_graphic intro: drop_shorter)

function trim_right_space :: "string \<Rightarrow> string" where
  "trim_right_space s =
     (case find (\<lambda>w. suffix w s) space_seqs of
        None \<Rightarrow> s
      | Some w \<Rightarrow> trim_right_space (take (length s - length w) s))"
  by pat_completeness auto
termination
  by (relation "measure length")
     (auto dest!: find_SomeD space_seqs_not_graphic intro: take_shorter)

declare trim_left_space.simps [simp del] trim_right_space.simps [simp del]

definition trim_space :: "string \<Rightarrow> string" where
  "trim_space s = trim_right_space (trim_left_space s)"

text \<open>
  Strings whose ends are visible ASCII bytes are left alone, and a blank line is left blank.
\<close>

lemma trim_left_graphic [go_string]: "graphic c \<Longrightarrow> trim_left_space (c # s) = c # s"
proof -
  assume "graphic c"
  then have "find (\<lambda>w. prefix w (c # s)) space_seqs = None"
    by (auto simp: find_None_iff prefix_Cons dest!: space_seqs_not_graphic)
  then show ?thesis by (subst trim_left_space.simps) simp
qed

lemma trim_right_graphic [go_string]: "graphic c \<Longrightarrow> trim_right_space (s @ [c]) = s @ [c]"
proof -
  assume "graphic c"
  then have "find (\<lambda>w. suffix w (s @ [c])) space_seqs = None"
    by (auto simp: find_None_iff suffix_snoc dest!: space_seqs_not_graphic)
  then show ?thesis by (subst trim_right_space.simps) simp
qed

lemma trim_left_Nil [simp, go_string]: "trim_left_space [] = []"
proof -
  have "find (\<lambda>w. prefix w []) space_seqs = None"
    by (auto simp: find_None_iff dest!: space_seqs_not_graphic)
  then show ?thesis by (subst trim_left_space.simps) simp
qed

lemma trim_right_Nil [simp, go_string]: "trim_right_space [] = []"
proof -
  have "find (\<lambda>w. suffix w []) space_seqs = None"
    by (auto simp: find_None_iff dest!: space_seqs_not_graphic)
  then show ?thesis by (subst trim_right_space.simps) simp
qed

lemma trim_space_Nil [simp, go_string]: "trim_space [] = []"
  by (simp add: trim_space_def)

lemma trim_space_graphic [go_string]:
  "s \<noteq> [] \<Longrightarrow> graphic (hd s) \<Longrightarrow> graphic (last s) \<Longrightarrow> trim_space s = s"
  unfolding trim_space_def
  by (metis append_butlast_last_id list.collapse trim_left_graphic trim_right_graphic)

text \<open>A trimmed value after a visible byte (a \<open>key=value\<close> line) is left alone.\<close>

lemma trim_right_fixed_iff:
  "trim_right_space s = s \<longleftrightarrow> (\<forall>w\<in>set space_seqs. \<not> suffix w s)"
proof
  assume fixed: "trim_right_space s = s"
  show "\<forall>w\<in>set space_seqs. \<not> suffix w s"
  proof (cases "find (\<lambda>w. suffix w s) space_seqs")
    case None
    then show ?thesis by (auto simp: find_None_iff)
  next
    case (Some w)
    have "length (trim_right_space t) \<le> length t" for t
    proof (induction t rule: trim_right_space.induct)
      case (1 t)
      then show ?case
        by (subst trim_right_space.simps) (force split: option.split)
    qed
    from this[of "take (length s - length w) s"] Some fixed
    have "length s \<le> length s - length w"
      by (subst (asm) (2) trim_right_space.simps) simp
    moreover from Some have "length s - length w < length s"
      by (auto dest!: find_SomeD space_seqs_not_graphic intro: take_shorter)
    ultimately show ?thesis by simp
  qed
next
  assume "\<forall>w\<in>set space_seqs. \<not> suffix w s"
  then have "find (\<lambda>w. suffix w s) space_seqs = None" by (auto simp: find_None_iff)
  then show "trim_right_space s = s" by (subst trim_right_space.simps) simp
qed

lemma trim_right_after_graphic:
  assumes "trim_right_space f = f" and "graphic c"
  shows "trim_right_space (p @ c # f) = p @ c # f"
proof (subst trim_right_fixed_iff, intro ballI notI)
  fix w assume w: "w \<in> set space_seqs" and "suffix w (p @ c # f)"
  then have "suffix w ((p @ [c]) @ f)" by simp
  then consider "suffix w f" | q where "q \<noteq> []" "suffix q (p @ [c])" "w = q @ f"
    using suffix_append_cases by blast
  then show False
  proof cases
    case 1
    with w assms(1) show ?thesis by (auto simp: trim_right_fixed_iff)
  next
    case 2
    then have "c \<in> set w" by (auto simp: suffix_snoc)
    with w assms(2) show ?thesis using space_seqs_not_graphic by blast
  qed
qed

lemma trim_space_key_value [go_string]:
  assumes "trim_right_space f = f" and "graphic c" and "k \<noteq> []" and "graphic (hd k)"
  shows "trim_space (k @ c # f) = k @ c # f"
proof -
  from assms(3,4) have "trim_left_space (k @ c # f) = k @ c # f"
    by (cases k) (auto simp: trim_left_graphic)
  with trim_right_after_graphic[OF assms(1,2)] show ?thesis
    by (simp add: trim_space_def)
qed

text \<open>\<open>trim_space f = f\<close> means that \<open>f\<close> is trimmed at both ends.\<close>

lemma trim_left_length: "length (trim_left_space s) \<le> length s"
proof (induction s rule: trim_left_space.induct)
  case (1 s)
  then show ?case
    by (subst trim_left_space.simps) (force split: option.split)
qed

lemma trim_right_length: "length (trim_right_space s) \<le> length s"
proof (induction s rule: trim_right_space.induct)
  case (1 s)
  then show ?case
    by (subst trim_right_space.simps) (force split: option.split)
qed

lemma trim_left_suffix: "suffix (trim_left_space s) s"
proof (induction s rule: trim_left_space.induct)
  case (1 s)
  then show ?case
    by (subst trim_left_space.simps) (auto split: option.split intro: suffix_order.trans suffix_drop)
qed

lemma trimmed_fixed: "trim_space f = f \<Longrightarrow> trim_left_space f = f \<and> trim_right_space f = f"
proof -
  assume eq: "trim_space f = f"
  then have le: "length f \<le> length (trim_left_space f)"
    using trim_right_length[of "trim_left_space f"] by (simp add: trim_space_def)
  obtain z where z: "f = z @ trim_left_space f"
    using trim_left_suffix[of f] by (auto simp: suffix_def)
  have "length f = length z + length (trim_left_space f)"
    by (metis z length_append)
  with le have "z = []" by simp
  with z have "trim_left_space f = f" by simp
  with eq show ?thesis by (simp add: trim_space_def)
qed

text \<open>A trailing newline goes away.\<close>

lemma trim_right_newline [go_string]: "trim_right_space (s @ [CHR 0x0A]) = trim_right_space s"
proof -
  have "find (\<lambda>w. suffix w (s @ [CHR 0x0A])) space_seqs = Some [CHR 0x0A]"
    by (simp add: space_seqs_def suffix_to_prefix)
  then show ?thesis by (subst trim_right_space.simps) simp
qed

lemma trim_space_line [go_string]:
  assumes "s \<noteq> []" "graphic (hd s)" "graphic (last s)"
  shows "trim_space (s @ [CHR 0x0A]) = s"
proof -
  have "trim_left_space (s @ [CHR 0x0A]) = s @ [CHR 0x0A]"
    using assms by (cases s) (simp_all add: trim_left_graphic)
  moreover have "trim_right_space s = s"
    using assms trim_right_graphic[of "last s" "butlast s"] by simp
  ultimately show ?thesis by (simp add: trim_space_def trim_right_newline)
qed

section \<open>UTF-8, quoting and lower case\<close>

record unicode =
  uc_print :: "nat \<Rightarrow> bool"
  uc_lower :: "nat \<Rightarrow> nat"

definition cont_byte :: "char \<Rightarrow> bool" where
  "cont_byte c \<longleftrightarrow> 128 \<le> byte c \<and> byte c \<le> 191"

text \<open>
  \<open>utf8.DecodeRuneInString\<close>: the code point and its width; width 1 with the replacement
  character for a byte that does not start a valid encoding, width 0 for the empty string.
\<close>

definition rune_error :: nat where
  "rune_error = 0xFFFD"

definition decode_rune :: "string \<Rightarrow> nat \<times> nat" where
  "decode_rune s =
     (case s of
        [] \<Rightarrow> (rune_error, 0)
      | a # r \<Rightarrow>
          (let x = byte a; bad = (rune_error, 1) in
           if x < 0x80 then (x, 1)
           else if 0xC2 \<le> x \<and> x \<le> 0xDF then
             (case r of b # _ \<Rightarrow>
                if cont_byte b then ((x - 0xC0) * 64 + (byte b - 0x80), 2) else bad
              | _ \<Rightarrow> bad)
           else if 0xE0 \<le> x \<and> x \<le> 0xEF then
             (case r of b # c # _ \<Rightarrow>
                if cont_byte b \<and> cont_byte c \<and> (x = 0xE0 \<longrightarrow> 0xA0 \<le> byte b)
                   \<and> (x = 0xED \<longrightarrow> byte b \<le> 0x9F)
                then ((x - 0xE0) * 4096 + (byte b - 0x80) * 64 + (byte c - 0x80), 3) else bad
              | _ \<Rightarrow> bad)
           else if 0xF0 \<le> x \<and> x \<le> 0xF4 then
             (case r of b # c # d # _ \<Rightarrow>
                if cont_byte b \<and> cont_byte c \<and> cont_byte d \<and> (x = 0xF0 \<longrightarrow> 0x90 \<le> byte b)
                   \<and> (x = 0xF4 \<longrightarrow> byte b \<le> 0x8F)
                then ((x - 0xF0) * 262144 + (byte b - 0x80) * 4096 + (byte c - 0x80) * 64
                      + (byte d - 0x80), 4) else bad
              | _ \<Rightarrow> bad)
           else bad))"

text \<open>\<open>utf8.AppendRune\<close>: surrogates and values past U+10FFFF become U+FFFD.\<close>

definition encode_rune :: "nat \<Rightarrow> string" where
  "encode_rune n =
     (let r = (if n > 0x10FFFF \<or> (0xD800 \<le> n \<and> n \<le> 0xDFFF) then rune_error else n) in
      if r < 0x80 then [char_of r]
      else if r < 0x800 then [char_of (0xC0 + r div 64), char_of (0x80 + r mod 64)]
      else if r < 0x10000 then
        [char_of (0xE0 + r div 4096), char_of (0x80 + r div 64 mod 64), char_of (0x80 + r mod 64)]
      else
        [char_of (0xF0 + r div 262144), char_of (0x80 + r div 4096 mod 64),
         char_of (0x80 + r div 64 mod 64), char_of (0x80 + r mod 64)])"

definition hex_digit :: "nat \<Rightarrow> char" where
  "hex_digit n = (if n < 10 then char_of (48 + n) else char_of (87 + n))"

definition hex_byte :: "nat \<Rightarrow> string" where
  "hex_byte n = [hex_digit (n div 16 mod 16), hex_digit (n mod 16)]"

text \<open>One rune of \<open>strconv.Quote\<close> (the verb \<open>%q\<close>): ASCII, then the others.\<close>

definition quote_ascii :: "char \<Rightarrow> string" where
  "quote_ascii c =
     (let b = byte c; esc = (\<lambda>x. [CHR 0x5C, x]) in
      if b = 0x22 \<or> b = 0x5C then esc c
      else if 32 \<le> b \<and> b \<le> 126 then [c]
      else if b = 7 then esc (CHR ''a'') else if b = 8 then esc (CHR ''b'')
      else if b = 12 then esc (CHR ''f'') else if b = 10 then esc (CHR ''n'')
      else if b = 13 then esc (CHR ''r'') else if b = 9 then esc (CHR ''t'')
      else if b = 11 then esc (CHR ''v'')
      else esc (CHR ''x'') @ hex_byte b)"

definition quote_wide :: "nat \<Rightarrow> string" where
  "quote_wide r =
     (if r < 0x10000 then [CHR 0x5C, CHR ''u''] @ hex_byte (r div 256) @ hex_byte r
      else [CHR 0x5C, CHR ''U''] @ hex_byte (r div 16777216) @ hex_byte (r div 65536)
           @ hex_byte (r div 256) @ hex_byte r)"

function quote_body :: "unicode \<Rightarrow> string \<Rightarrow> string" where
  "quote_body uc [] = []"
| "quote_body uc (c # s) =
     (if ascii c then quote_ascii c @ quote_body uc s
      else (case decode_rune (c # s) of (r, w) \<Rightarrow>
        if w \<le> 1 then [CHR 0x5C, CHR ''x''] @ hex_byte (byte c) @ quote_body uc s
        else (if uc_print uc r then take w (c # s) else quote_wide r)
             @ quote_body uc (drop (w - 1) s)))"
  by pat_completeness auto
termination
  by (relation "measure (\<lambda>(uc, s). length s)") auto

definition go_quote :: "unicode \<Rightarrow> string \<Rightarrow> string" where
  "go_quote uc s = [CHR 0x22] @ quote_body uc s @ [CHR 0x22]"

text \<open>\<open>strings.ToLower\<close>: \<open>unicode.ToLower\<close> on each rune, invalid bytes replaced.\<close>

definition lower_rune :: "unicode \<Rightarrow> nat \<Rightarrow> nat" where
  "lower_rune uc r =
     (if r < 0x80 then (if 65 \<le> r \<and> r \<le> 90 then r + 32 else r) else uc_lower uc r)"

function to_lower :: "unicode \<Rightarrow> string \<Rightarrow> string" where
  "to_lower uc [] = []"
| "to_lower uc (c # s) =
     (case decode_rune (c # s) of (r, w) \<Rightarrow>
        encode_rune (lower_rune uc r) @ to_lower uc (drop (w - 1) s))"
  by pat_completeness auto
termination
  by (relation "measure (\<lambda>(uc, s). length s)") auto

definition lower_char :: "char \<Rightarrow> char" where
  "lower_char c = (if is_upper c then char_of (byte c + 32) else c)"

lemma decode_rune_ascii [go_string]: "ascii c \<Longrightarrow> decode_rune (c # s) = (byte c, 1)"
  by (simp add: decode_rune_def ascii_def)

lemma to_lower_ascii [go_string]: "ascii c \<Longrightarrow> to_lower uc (c # s) = lower_char c # to_lower uc s"
  by (auto simp: decode_rune_ascii lower_rune_def encode_rune_def lower_char_def is_upper_def
      ascii_def char_of_byte)

lemma to_lower_append_ascii [go_string]:
  "\<forall>c\<in>set p. ascii c \<Longrightarrow> to_lower uc (p @ s) = map lower_char p @ to_lower uc s"
  by (induction p) (auto simp: to_lower_ascii simp del: to_lower.simps(2))

lemma to_lower_all_ascii [go_string]:
  "\<forall>c\<in>set p. ascii c \<Longrightarrow> to_lower uc p = map lower_char p"
  using to_lower_append_ascii[of p uc "[]"] by simp

text \<open>A plain byte is a printable ASCII byte other than the double quote and the backslash.\<close>

definition plain :: "char \<Rightarrow> bool" where
  "plain c \<longleftrightarrow> 32 \<le> byte c \<and> byte c \<le> 126 \<and> byte c \<noteq> 0x22 \<and> byte c \<noteq> 0x5C"

lemma quote_body_plain [go_string]: "\<forall>c\<in>set s. plain c \<Longrightarrow> quote_body uc s = s"
  by (induction s) (auto simp: plain_def ascii_def quote_ascii_def)

lemma go_quote_plain [go_string]:
  "\<forall>c\<in>set s. plain c \<Longrightarrow> go_quote uc s = CHR 0x22 # s @ [CHR 0x22]"
  by (simp add: go_quote_def quote_body_plain)

section \<open>Hexadecimal and decimal numbers\<close>

text \<open>\<open>hex.EncodeToString\<close> and \<open>hex.DecodeString\<close> (\<open>None\<close> for an error).\<close>

definition hex_encode :: "string \<Rightarrow> string" where
  "hex_encode s = concat (map (\<lambda>c. hex_byte (byte c)) s)"

definition hex_val :: "char \<Rightarrow> nat option" where
  "hex_val c =
     (let b = byte c in
      if 48 \<le> b \<and> b \<le> 57 then Some (b - 48)
      else if 97 \<le> b \<and> b \<le> 102 then Some (b - 87)
      else if 65 \<le> b \<and> b \<le> 70 then Some (b - 55)
      else None)"

fun hex_decode :: "string \<Rightarrow> string option" where
  "hex_decode [] = Some []"
| "hex_decode [c] = None"
| "hex_decode (a # b # r) =
     (case (hex_val a, hex_val b, hex_decode r) of
        (Some x, Some y, Some s) \<Rightarrow> Some (char_of (16 * x + y) # s)
      | _ \<Rightarrow> None)"

lemma hex_val_digit [simp]: "n < 16 \<Longrightarrow> hex_val (hex_digit n) = Some n"
  by (auto simp: hex_val_def hex_digit_def byte_def)

lemma hex_digit_graphic: "n < 16 \<Longrightarrow> is_digit (hex_digit n) \<or> is_lower (hex_digit n)"
  by (auto simp: hex_digit_def is_digit_def is_lower_def byte_def)

theorem hex_decode_encode [simp, go_string]: "hex_decode (hex_encode s) = Some s"
proof (induction s)
  case Nil
  then show ?case by (simp add: hex_encode_def)
next
  case (Cons c s)
  have "16 * (byte c div 16 mod 16) + byte c mod 16 = byte c"
    using byte_less[of c] by simp
  with Cons show ?case by (simp add: hex_encode_def hex_byte_def char_of_byte)
qed

lemma hex_encode_alnum: "c \<in> set (hex_encode s) \<Longrightarrow> is_alnum c"
  using hex_digit_graphic[of "n mod 16" for n]
  by (auto simp: hex_encode_def hex_byte_def is_alnum_def is_alpha_def)

text \<open>The verb \<open>%d\<close> on a non-negative number, and the value of a string of digits.\<close>

fun show_nat :: "nat \<Rightarrow> string" where
  "show_nat n = (if n < 10 then [char_of (48 + n)] else show_nat (n div 10) @ [char_of (48 + n mod 10)])"

declare show_nat.simps [simp del]

fun digits_val :: "nat \<Rightarrow> string \<Rightarrow> nat" where
  "digits_val acc [] = acc"
| "digits_val acc (c # s) = digits_val (acc * 10 + (byte c - 48)) s"

lemma show_nat_digits: "c \<in> set (show_nat n) \<Longrightarrow> is_digit c"
proof (induction n rule: show_nat.induct)
  case (1 n)
  show ?case
  proof (cases "n < 10")
    case True
    with "1.prems" show ?thesis
      by (simp add: show_nat.simps[of n] is_digit_def byte_char_of)
  next
    case False
    with "1.prems" have "c \<in> set (show_nat (n div 10)) \<or> c = char_of (48 + n mod 10)"
      by (auto simp: show_nat.simps[of n])
    moreover have "48 + n mod 10 < 256" by simp
    ultimately show ?thesis
      using "1.IH"[OF False] by (auto simp: is_digit_def byte_char_of)
  qed
qed

lemma show_nat_not_Nil [simp]: "show_nat n \<noteq> []"
  by (subst show_nat.simps) simp

lemma digits_val_append: "digits_val acc (s @ t) = digits_val (digits_val acc s) t"
  by (induction s arbitrary: acc) auto

lemma digits_val_show: "digits_val 0 (show_nat n) = n"
proof (induction n rule: show_nat.induct)
  case (1 n)
  have "48 + n mod 10 < 256" by simp
  then show ?case
    using 1 by (subst show_nat.simps) (auto simp: digits_val_append byte_char_of)
qed

end
