(* ===== verification/Regex.thy ===== *)
theory Regex
  imports Go_Strings
begin

text \<open>
  The part of Go's \<open>regexp\<close> package the program uses: patterns anchored at both ends, built
  from ASCII character classes, literals, alternatives, repetitions and bounded repetitions, and
  the question whether a byte string matches. \<open>matches\<close> is a derivative matcher, proved to
  decide the language \<open>lang\<close>. Every class of the program's patterns holds ASCII bytes only, so
  matching by bytes and by runes agree.
\<close>

datatype rexp =
    Zero
  | One
  | Cls "char \<Rightarrow> bool"
  | Alt rexp rexp
  | Seq rexp rexp
  | Star rexp
  | Rep rexp nat nat

definition Lit :: "string \<Rightarrow> rexp" where
  "Lit s = foldr (\<lambda>c r. Seq (Cls (\<lambda>x. x = c)) r) s One"

definition Plus :: "rexp \<Rightarrow> rexp" where
  "Plus r = Seq r (Star r)"

definition Opt :: "rexp \<Rightarrow> rexp" where
  "Opt r = Alt r One"

definition Alts :: "rexp list \<Rightarrow> rexp" where
  "Alts rs = foldr Alt rs Zero"

section \<open>Languages\<close>

definition conc :: "string set \<Rightarrow> string set \<Rightarrow> string set" where
  "conc A B = {u @ v | u v. u \<in> A \<and> v \<in> B}"

primrec pow :: "string set \<Rightarrow> nat \<Rightarrow> string set" where
  "pow A 0 = {[]}"
| "pow A (Suc n) = conc A (pow A n)"

primrec lang :: "rexp \<Rightarrow> string set" where
  "lang Zero = {}"
| "lang One = {[]}"
| "lang (Cls p) = {[c] | c. p c}"
| "lang (Alt r s) = lang r \<union> lang s"
| "lang (Seq r s) = conc (lang r) (lang s)"
| "lang (Star r) = (\<Union>n. pow (lang r) n)"
| "lang (Rep r m n) = (\<Union>k\<in>{m..n}. pow (lang r) k)"

lemma conc_iff: "s \<in> conc A B \<longleftrightarrow> (\<exists>u v. s = u @ v \<and> u \<in> A \<and> v \<in> B)"
  by (auto simp: conc_def)

lemma Nil_in_conc [simp]: "[] \<in> conc A B \<longleftrightarrow> [] \<in> A \<and> [] \<in> B"
  by (auto simp: conc_def)

lemma Cons_in_conc:
  "c # s \<in> conc A B \<longleftrightarrow>
     (\<exists>u v. s = u @ v \<and> c # u \<in> A \<and> v \<in> B) \<or> ([] \<in> A \<and> c # s \<in> B)"
  unfolding conc_iff by (auto simp: Cons_eq_append_conv)

lemma Nil_in_pow: "[] \<in> pow A n \<longleftrightarrow> n = 0 \<or> [] \<in> A"
  by (induction n) auto

lemma pow_mono_Nil: "[] \<in> A \<Longrightarrow> v \<in> pow A k \<Longrightarrow> v \<in> pow A (Suc k)"
  by (auto simp: conc_iff)

lemma Cons_in_pow:
  "c # s \<in> pow A k \<Longrightarrow> \<exists>u v. s = u @ v \<and> c # u \<in> A \<and> v \<in> pow A (k - 1) \<and> k \<noteq> 0"
proof (induction k)
  case 0
  then show ?case by simp
next
  case (Suc k)
  from Suc.prems have "c # s \<in> conc A (pow A k)" by simp
  then consider u v where "s = u @ v" "c # u \<in> A" "v \<in> pow A k"
    | "[] \<in> A" "c # s \<in> pow A k"
    unfolding Cons_in_conc by blast
  then show ?case
  proof cases
    case 1
    then show ?thesis by auto
  next
    case 2
    with Suc.IH obtain u v where "s = u @ v" "c # u \<in> A" "v \<in> pow A (k - 1)" "k \<noteq> 0" by blast
    moreover from this 2(1) have "v \<in> pow A (Suc (k - 1))" by (blast intro: pow_mono_Nil)
    ultimately show ?thesis by auto
  qed
qed

lemma pow_SucI: "u \<in> A \<Longrightarrow> v \<in> pow A k \<Longrightarrow> u @ v \<in> pow A (Suc k)"
  by (auto simp: conc_iff)

section \<open>The matcher\<close>

primrec nullable :: "rexp \<Rightarrow> bool" where
  "nullable Zero = False"
| "nullable One = True"
| "nullable (Cls p) = False"
| "nullable (Alt r s) = (nullable r \<or> nullable s)"
| "nullable (Seq r s) = (nullable r \<and> nullable s)"
| "nullable (Star r) = True"
| "nullable (Rep r m n) = (m \<le> n \<and> (m = 0 \<or> nullable r))"

text \<open>Smart constructors keep derivatives small.\<close>

fun mk_seq :: "rexp \<Rightarrow> rexp \<Rightarrow> rexp" where
  "mk_seq Zero s = Zero"
| "mk_seq One s = s"
| "mk_seq r s = Seq r s"

fun mk_alt :: "rexp \<Rightarrow> rexp \<Rightarrow> rexp" where
  "mk_alt Zero s = s"
| "mk_alt r Zero = r"
| "mk_alt r s = Alt r s"

primrec deriv :: "char \<Rightarrow> rexp \<Rightarrow> rexp" where
  "deriv c Zero = Zero"
| "deriv c One = Zero"
| "deriv c (Cls p) = (if p c then One else Zero)"
| "deriv c (Alt r s) = mk_alt (deriv c r) (deriv c s)"
| "deriv c (Seq r s) =
     (if nullable r then mk_alt (mk_seq (deriv c r) s) (deriv c s) else mk_seq (deriv c r) s)"
| "deriv c (Star r) = mk_seq (deriv c r) (Star r)"
| "deriv c (Rep r m n) = (if n = 0 then Zero else mk_seq (deriv c r) (Rep r (m - 1) (n - 1)))"

fun matches :: "rexp \<Rightarrow> string \<Rightarrow> bool" where
  "matches r [] = nullable r"
| "matches r (c # s) = matches (deriv c r) s"

lemma nullable_iff: "nullable r \<longleftrightarrow> [] \<in> lang r"
  by (induction r) (auto simp: Nil_in_pow intro: exI[of _ 0])

lemma lang_mk_seq [simp]: "lang (mk_seq r s) = conc (lang r) (lang s)"
  by (induction r s rule: mk_seq.induct) (auto simp: conc_def)

lemma lang_mk_alt [simp]: "lang (mk_alt r s) = lang r \<union> lang s"
  by (induction r s rule: mk_alt.induct) auto

lemma lang_deriv: "s \<in> lang (deriv c r) \<longleftrightarrow> c # s \<in> lang r"
proof (induction r arbitrary: s)
  case (Seq r1 r2)
  then have "s \<in> lang (deriv c (Seq r1 r2)) \<longleftrightarrow>
      (\<exists>u v. s = u @ v \<and> c # u \<in> lang r1 \<and> v \<in> lang r2) \<or> ([] \<in> lang r1 \<and> c # s \<in> lang r2)"
    by (auto simp: conc_iff[of s] nullable_iff)
  then show ?case by (simp add: Cons_in_conc)
next
  case (Star r)
  have "s \<in> lang (deriv c (Star r)) \<longleftrightarrow> (\<exists>u v. s = u @ v \<and> c # u \<in> lang r \<and> v \<in> lang (Star r))"
    using Star by (auto simp: conc_iff)
  also have "\<dots> \<longleftrightarrow> c # s \<in> lang (Star r)"
    by (auto dest!: Cons_in_pow) (metis append_Cons pow_SucI)
  finally show ?case .
next
  case (Rep r m n)
  have "s \<in> lang (deriv c (Rep r m n)) \<longleftrightarrow>
      n \<noteq> 0 \<and> (\<exists>u v. s = u @ v \<and> c # u \<in> lang r \<and> (\<exists>k\<in>{m - 1..n - 1}. v \<in> pow (lang r) k))"
    using Rep by (auto simp: conc_iff)
  also have "\<dots> \<longleftrightarrow> (\<exists>k\<in>{m..n}. c # s \<in> pow (lang r) k)"
  proof (safe, goal_cases)
    case (1 u v k)
    then have "c # u @ v \<in> pow (lang r) (Suc k)" and "Suc k \<in> {m..n}"
      using pow_SucI[of "c # u" "lang r" v k] by auto
    then show ?case by blast
  next
    case (2 k)
    then show ?case by (auto dest: Cons_in_pow)
  next
    case (3 k)
    from Cons_in_pow[OF this(2)] obtain u v
      where "s = u @ v" "c # u \<in> lang r" "v \<in> pow (lang r) (k - 1)" by blast
    moreover from 3(1) have "k - 1 \<in> {m - 1..n - 1}" by auto
    ultimately show ?case by blast
  qed
  finally show ?case by simp
qed auto

theorem matches_iff_lang: "matches r s \<longleftrightarrow> s \<in> lang r"
  by (induction s arbitrary: r) (simp_all add: nullable_iff lang_deriv)

section \<open>Languages of the pattern forms the program uses\<close>

lemma pow_Cls: "pow {[c] | c. p c} n = {s. length s = n \<and> (\<forall>c\<in>set s. p c)}"
proof (induction n)
  case 0
  then show ?case by auto
next
  case (Suc n)
  then show ?case by (auto simp: conc_def length_Suc_conv) (metis append_Cons append_Nil)
qed

lemma lang_Star_Cls [simp]: "s \<in> lang (Star (Cls p)) \<longleftrightarrow> (\<forall>c\<in>set s. p c)"
  by (auto simp: pow_Cls)

lemma lang_Rep_Cls [simp]:
  "s \<in> lang (Rep (Cls p) m n) \<longleftrightarrow> m \<le> length s \<and> length s \<le> n \<and> (\<forall>c\<in>set s. p c)"
  by (auto simp: pow_Cls)

lemma lang_Lit [simp]: "lang (Lit t) = {t}"
  by (induction t) (auto simp: Lit_def conc_def)

lemma lang_Plus_Cls [simp]: "s \<in> lang (Plus (Cls p)) \<longleftrightarrow> s \<noteq> [] \<and> (\<forall>c\<in>set s. p c)"
proof -
  have "s \<in> lang (Plus (Cls p)) \<longleftrightarrow> (\<exists>u v. s = u @ v \<and> u \<in> lang (Cls p) \<and> v \<in> lang (Star (Cls p)))"
    by (simp add: Plus_def conc_iff)
  also have "\<dots> \<longleftrightarrow> s \<noteq> [] \<and> (\<forall>c\<in>set s. p c)"
  proof
    assume "s \<noteq> [] \<and> (\<forall>c\<in>set s. p c)"
    then obtain a t where "s = [a] @ t" "p a" "\<forall>c\<in>set t. p c" by (cases s) auto
    then show "\<exists>u v. s = u @ v \<and> u \<in> lang (Cls p) \<and> v \<in> lang (Star (Cls p))"
      unfolding lang_Star_Cls by (intro exI[of _ "[a]"] exI[of _ t]) simp
  qed (unfold lang_Star_Cls, auto)
  finally show ?thesis .
qed

lemma lang_Opt [simp]: "s \<in> lang (Opt r) \<longleftrightarrow> s = [] \<or> s \<in> lang r"
  by (auto simp: Opt_def)

lemma lang_Seq_iff: "s \<in> lang (Seq r t) \<longleftrightarrow> (\<exists>u v. s = u @ v \<and> u \<in> lang r \<and> v \<in> lang t)"
  by (simp add: conc_iff)

lemma lang_Alts [simp]: "s \<in> lang (Alts rs) \<longleftrightarrow> (\<exists>r\<in>set rs. s \<in> lang r)"
  by (induction rs) (auto simp: Alts_def)

declare lang.simps(3,5-7) [simp del]

lemma lang_Cls [simp]: "s \<in> lang (Cls p) \<longleftrightarrow> (\<exists>c. s = [c] \<and> p c)"
  by (auto simp: lang.simps)

lemma lang_Seq_Cls: "s \<in> lang (Seq (Cls p) r) \<longleftrightarrow> (\<exists>a t. s = a # t \<and> p a \<and> t \<in> lang r)"
proof
  assume "s \<in> lang (Seq (Cls p) r)"
  then show "\<exists>a t. s = a # t \<and> p a \<and> t \<in> lang r" by (auto simp: lang_Seq_iff)
next
  assume "\<exists>a t. s = a # t \<and> p a \<and> t \<in> lang r"
  then obtain a t where "s = [a] @ t" "p a" "t \<in> lang r" by auto
  moreover from this have "[a] \<in> lang (Cls p)" by simp
  ultimately show "s \<in> lang (Seq (Cls p) r)" unfolding lang_Seq_iff by blast
qed

text \<open>A property of characters that every class has holds of every matched string.\<close>

primrec rexp_all :: "(char \<Rightarrow> bool) \<Rightarrow> rexp \<Rightarrow> bool" where
  "rexp_all q Zero = True"
| "rexp_all q One = True"
| "rexp_all q (Cls p) = (\<forall>c. p c \<longrightarrow> q c)"
| "rexp_all q (Alt r s) = (rexp_all q r \<and> rexp_all q s)"
| "rexp_all q (Seq r s) = (rexp_all q r \<and> rexp_all q s)"
| "rexp_all q (Star r) = rexp_all q r"
| "rexp_all q (Rep r m n) = rexp_all q r"

lemma pow_all: "(\<And>s. s \<in> A \<Longrightarrow> \<forall>c\<in>set s. q c) \<Longrightarrow> s \<in> pow A n \<Longrightarrow> \<forall>c\<in>set s. q c"
proof (induction n arbitrary: s)
  case 0
  then show ?case by simp
next
  case (Suc n)
  from Suc.prems(2) obtain u v where "s = u @ v" "u \<in> A" "v \<in> pow A n" by (auto simp: conc_iff)
  moreover from Suc.prems(1)[OF this(2)] have "\<forall>c\<in>set u. q c" .
  moreover from Suc.IH[OF Suc.prems(1)] \<open>v \<in> pow A n\<close> have "\<forall>c\<in>set v. q c" by blast
  ultimately show ?case by auto
qed

lemma lang_all: "rexp_all q r \<Longrightarrow> s \<in> lang r \<Longrightarrow> \<forall>c\<in>set s. q c"
proof (induction r arbitrary: s)
  case (Star r)
  from Star.prems(2) obtain n where "s \<in> pow (lang r) n" by (auto simp: lang.simps)
  moreover from Star.prems(1) have "rexp_all q r" by simp
  ultimately show ?case by (intro pow_all[of "lang r" q s n]) (simp_all add: Star.IH)
next
  case (Rep r m n)
  from Rep.prems(2) obtain k where "s \<in> pow (lang r) k" by (auto simp: lang.simps)
  moreover from Rep.prems(1) have "rexp_all q r" by simp
  ultimately show ?case by (intro pow_all[of "lang r" q s k]) (simp_all add: Rep.IH)
next
  case (Seq r1 r2)
  from Seq.prems(2) obtain u v where s: "s = u @ v" "u \<in> lang r1" "v \<in> lang r2"
    unfolding lang_Seq_iff by blast
  from Seq.prems(1) have "rexp_all q r1" "rexp_all q r2" by simp_all
  with Seq.IH s show ?case by (metis Un_iff set_append)
next
  case (Alt r1 r2)
  then show ?case by (metis Un_iff lang.simps(4) rexp_all.simps(4))
next
  case (Cls p)
  then show ?case by auto
qed simp_all

lemma rexp_all_Lit [simp]: "rexp_all q (Lit t) \<longleftrightarrow> (\<forall>c\<in>set t. q c)"
  by (induction t) (auto simp: Lit_def)

lemma rexp_all_Plus [simp]: "rexp_all q (Plus r) = rexp_all q r"
  by (simp add: Plus_def)

lemma rexp_all_Opt [simp]: "rexp_all q (Opt r) = rexp_all q r"
  by (simp add: Opt_def)

lemma rexp_all_Alts [simp]: "rexp_all q (Alts rs) = (\<forall>r\<in>set rs. rexp_all q r)"
  by (induction rs) (auto simp: Alts_def)

end
