(* ===== verification/Validate.thy ===== *)
theory Validate
  imports Regex
begin

text \<open>
  \<open>internal/validate/validate.go\<close>: the checks user input passes before it reaches the system.
  The four patterns are the ones of the source, as terms of \<open>Regex\<close>; \<open>net.ParseIP\<close> (whose
  result the code compares with \<open>nil\<close>) is written out from \<open>net/netip\<close>. The lemmas give what
  an accepted value looks like, as an exact characterisation wherever one exists.
\<close>

section \<open>Patterns\<close>

definition unit_char :: "char \<Rightarrow> bool" where
  "unit_char c \<longleftrightarrow> is_alnum c \<or> List.member ''_@:.-'' c"

definition unit_suffixes :: "string list" where
  "unit_suffixes = [''service'', ''socket'', ''timer'', ''mount'', ''target'', ''path'', ''scope'',
     ''slice'', ''swap'']"

definition unitNameRe :: rexp where
  "unitNameRe = Seq (Plus (Cls unit_char)) (Seq (Lit ''.'') (Alts (map Lit unit_suffixes)))"

definition iface_char :: "char \<Rightarrow> bool" where
  "iface_char c \<longleftrightarrow> is_alnum c \<or> List.member ''_.-'' c"

definition ifaceNameRe :: rexp where
  "ifaceNameRe = Plus (Cls iface_char)"

definition label_char :: "char \<Rightarrow> bool" where
  "label_char c \<longleftrightarrow> is_alnum c \<or> c = CHR ''-''"

definition labelRe :: rexp where
  "labelRe = Seq (Cls is_alnum) (Opt (Seq (Rep (Cls label_char) 0 61) (Cls is_alnum)))"

definition hostnameRe :: rexp where
  "hostnameRe = Seq labelRe (Star (Seq (Lit ''.'') labelRe))"

definition image_char :: "char \<Rightarrow> bool" where
  "image_char c \<longleftrightarrow> is_alnum c \<or> List.member ''._/-'' c"

definition tag_char :: "char \<Rightarrow> bool" where
  "tag_char c \<longleftrightarrow> is_alnum c \<or> List.member ''._-'' c"

definition digest_char :: "char \<Rightarrow> bool" where
  "digest_char c \<longleftrightarrow> is_digit c \<or> (97 \<le> byte c \<and> byte c \<le> 102)"

definition imageRefRe :: rexp where
  "imageRefRe =
     Seq (Cls is_alnum) (Seq (Star (Cls image_char))
       (Seq (Opt (Seq (Lit '':'') (Plus (Cls tag_char))))
            (Opt (Seq (Lit ''@sha256:'') (Rep (Cls digest_char) 64 64)))))"

definition dangerousKargs :: "string list" where
  "dangerousKargs = [''init='', ''rd.break'', ''selinux=0'', ''enforcing=0'', ''systemd.unit='',
     ''rescue'', ''emergency'', ''single'']"

section \<open>net.ParseIP\<close>

text \<open>
  \<open>netip.parseIPv4Fields\<close>: the value and the digits of the octet being read and the octets
  read so far. \<open>netip.parseIPv6\<close>: the bytes filled so far, the position of the ellipsis, the
  rest of the text. A zone (\<open>%\<close>) makes \<open>net.ParseIP\<close> return \<open>nil\<close>.
\<close>

fun ipv4_fields :: "nat \<Rightarrow> nat \<Rightarrow> nat \<Rightarrow> string \<Rightarrow> bool" where
  "ipv4_fields val pos dig [] = (3 \<le> pos)"
| "ipv4_fields val pos dig (c # r) =
     (if is_digit c then
        (if dig = 1 \<and> val = 0 then False
         else let v = val * 10 + (byte c - 48) in
           if v > 255 then False else ipv4_fields v pos (Suc dig) r)
      else if c = CHR ''.'' then
        (if dig = 0 \<or> r = [] then False
         else if pos = 3 then False
         else ipv4_fields 0 (Suc pos) 0 r)
      else False)"

definition is_hex :: "char \<Rightarrow> bool" where
  "is_hex c \<longleftrightarrow> hex_val c \<noteq> None"

definition ipv6_finish :: "nat \<Rightarrow> nat option \<Rightarrow> bool" where
  "ipv6_finish i ell = (if i < 16 then ell \<noteq> None else ell = None)"

function ipv6_loop :: "nat \<Rightarrow> nat option \<Rightarrow> string \<Rightarrow> bool" where
  "ipv6_loop i ell s =
     (if \<not> i < 16 then False
      else let h = takeWhile is_hex s; r = dropWhile is_hex s in
        if length h > 4 \<or> h = [] then False
        else (case r of
            [] \<Rightarrow> ipv6_finish (i + 2) ell
          | c # t \<Rightarrow>
              if c = CHR ''.'' then
                (if ell = None \<and> i \<noteq> 12 then False
                 else if i + 4 > 16 then False
                 else ipv4_fields 0 0 0 s \<and> ipv6_finish (i + 4) ell)
              else if c \<noteq> CHR '':'' then False
              else (case t of
                  [] \<Rightarrow> False
                | d # u \<Rightarrow>
                    if d = CHR '':'' then
                      (if ell \<noteq> None then False
                       else if u = [] then ipv6_finish (i + 2) (Some (i + 2))
                       else ipv6_loop (i + 2) (Some (i + 2)) u)
                    else ipv6_loop (i + 2) ell t)))"
  by pat_completeness auto
termination
  by (relation "measure (\<lambda>(i, ell, s). 16 - i)") auto

declare ipv6_loop.simps [simp del]

definition parse_ipv6 :: "string \<Rightarrow> bool" where
  "parse_ipv6 s =
     (if List.member s (CHR ''%'') then False
      else if has_prefix s ''::'' then
        (let t = drop 2 s in t = [] \<or> ipv6_loop 0 (Some 0) t)
      else ipv6_loop 0 None s)"

definition parse_ip :: "string \<Rightarrow> bool" where
  "parse_ip s =
     (case find (\<lambda>c. List.member ''.:%'' c) s of
        None \<Rightarrow> False
      | Some c \<Rightarrow>
          if c = CHR ''.'' then ipv4_fields 0 0 0 s
          else if c = CHR '':'' then parse_ipv6 s
          else False)"

section \<open>The checks\<close>

definition UnitName :: "string \<Rightarrow> error option" where
  "UnitName name =
     (if name = [] then Some (Msg ''unit name required'')
      else if length name > 256 then Some (Msg ''unit name too long'')
      else if \<not> matches unitNameRe name then Some (MsgQ ''invalid unit name: '' name [])
      else None)"

definition InterfaceName :: "string \<Rightarrow> error option" where
  "InterfaceName name =
     (if name = [] then Some (Msg ''interface name required'')
      else if length name > 15 then Some (Msg ''interface name too long'')
      else if \<not> matches ifaceNameRe name then Some (MsgQ ''invalid interface name: '' name [])
      else if contains_str name ''..'' then Some (MsgQ ''invalid interface name: '' name [])
      else None)"

definition Hostname :: "string \<Rightarrow> error option" where
  "Hostname name =
     (if name = [] then Some (Msg ''hostname required'')
      else if length name > 253 then Some (Msg ''hostname too long'')
      else if \<not> matches hostnameRe name then Some (MsgQ ''invalid hostname: '' name [])
      else None)"

definition IPAddress :: "string \<Rightarrow> error option" where
  "IPAddress addr =
     (if addr = [] then Some (Msg ''IP address required'')
      else if contains_any addr [CHR 0x0A, CHR 0x0D, CHR 0x09, CHR 0x20] then
        Some (Msg ''IP address contains invalid characters'')
      else if \<not> parse_ip addr then Some (MsgQ ''invalid IP address: '' addr [])
      else None)"

definition ImageRef :: "string \<Rightarrow> error option" where
  "ImageRef ref =
     (if ref = [] then Some (Msg ''image reference required'')
      else if length ref > 1024 then Some (Msg ''image reference too long'')
      else if has_prefix ref ''-'' then Some (Msg (''image reference must not start with '' @ [CHR 0x27, CHR ''-'', CHR 0x27]))
      else if \<not> matches imageRefRe ref then Some (MsgQ ''invalid image reference: '' ref [])
      else None)"

definition NetworkAddress :: "string \<Rightarrow> error option" where
  "NetworkAddress addr =
     (if contains_any addr [CHR 0x0A, CHR 0x0D, CHR 0x09] then
        Some (Msg ''network address contains invalid characters'')
      else None)"

definition KernelArg :: "unicode \<Rightarrow> string \<Rightarrow> error option" where
  "KernelArg uc arg =
     (if contains_any arg [CHR 0x0A, CHR 0x0D, CHR 0x09] then
        Some (Msg ''kernel argument contains invalid characters'')
      else
        let low = to_lower uc arg in
        first_error (\<lambda>d. if has_prefix low d \<or> low = d
            then Some (MsgQ ''dangerous kernel argument blocked: '' arg []) else None)
          dangerousKargs)"

definition NoNewlines :: "string \<Rightarrow> string \<Rightarrow> error option" where
  "NoNewlines fld val =
     (if contains_any val [CHR 0x0A, CHR 0x0D] then
        Some (MsgS [] fld '' contains newline characters'')
      else None)"

section \<open>Alphabets\<close>

text \<open>Every pattern is over visible ASCII bytes, so no accepted value has white space.\<close>

lemma unit_char_graphic: "unit_char c \<Longrightarrow> graphic c \<and> c \<noteq> CHR ''/''"
  by (auto simp: unit_char_def graphic_def is_alnum_def is_alpha_def is_lower_def is_upper_def
      is_digit_def byte_def)

lemma image_char_graphic: "image_char c \<Longrightarrow> graphic c"
  by (auto simp: image_char_def dest: alnum_graphic) (auto simp: graphic_def byte_def)

lemma tag_char_graphic: "tag_char c \<Longrightarrow> graphic c"
  by (auto simp: tag_char_def dest: alnum_graphic) (auto simp: graphic_def byte_def)

lemma digest_char_graphic: "digest_char c \<Longrightarrow> graphic c"
  by (auto simp: digest_char_def is_digit_def graphic_def)

lemma iface_char_graphic: "iface_char c \<Longrightarrow> graphic c \<and> c \<noteq> CHR ''/''"
  by (auto simp: iface_char_def graphic_def is_alnum_def is_alpha_def is_lower_def is_upper_def
      is_digit_def byte_def)

section \<open>What is accepted\<close>

lemma unit_name_lang:
  "s \<in> lang unitNameRe \<longleftrightarrow>
     (\<exists>b x. s = b @ ''.'' @ x \<and> b \<noteq> [] \<and> (\<forall>c\<in>set b. unit_char c) \<and> x \<in> set unit_suffixes)"
  unfolding unitNameRe_def lang_Seq_iff[of s] by (auto simp: lang_Seq_iff)

lemma interface_name_iff:
  "InterfaceName s = None \<longleftrightarrow>
     s \<noteq> [] \<and> length s \<le> 15 \<and> (\<forall>c\<in>set s. iface_char c) \<and> (\<forall>u v. s \<noteq> u @ ''..'' @ v)"
  by (auto simp: InterfaceName_def matches_iff_lang ifaceNameRe_def contains_str_iff)

text \<open>A label of a host name: RFC 1123.\<close>

definition rfc1123_label :: "string \<Rightarrow> bool" where
  "rfc1123_label w \<longleftrightarrow>
     w \<noteq> [] \<and> length w \<le> 63 \<and> (\<forall>c\<in>set w. label_char c) \<and> hd w \<noteq> CHR ''-'' \<and> last w \<noteq> CHR ''-''"

lemma alnum_not_hyphen: "is_alnum c \<Longrightarrow> c \<noteq> CHR ''-'' \<and> label_char c"
  by (auto simp: label_char_def is_alnum_def is_alpha_def is_lower_def is_upper_def is_digit_def
      byte_def)

lemma label_lang: "w \<in> lang labelRe \<longleftrightarrow> rfc1123_label w"
proof
  assume "w \<in> lang labelRe"
  then obtain a t where w: "w = a # t" and a: "is_alnum a"
    and t: "t = [] \<or> t \<in> lang (Seq (Rep (Cls label_char) 0 61) (Cls is_alnum))"
    unfolding labelRe_def lang_Seq_Cls lang_Opt by blast
  from t show "rfc1123_label w"
  proof
    assume "t = []"
    with w a show ?thesis by (simp add: rfc1123_label_def alnum_not_hyphen)
  next
    assume "t \<in> lang (Seq (Rep (Cls label_char) 0 61) (Cls is_alnum))"
    then obtain m z where "t = m @ [z]" "length m \<le> 61" "\<forall>c\<in>set m. label_char c" "is_alnum z"
      unfolding lang_Seq_iff[of t] lang_Rep_Cls lang_Cls by auto
    with w a show ?thesis by (auto simp: rfc1123_label_def alnum_not_hyphen)
  qed
next
  assume w: "rfc1123_label w"
  then obtain a t where at: "w = a # t" by (cases w) (auto simp: rfc1123_label_def)
  have alnum_a: "is_alnum a" using w by (auto simp: rfc1123_label_def label_char_def at)
  show "w \<in> lang labelRe"
  proof (cases t rule: rev_cases)
    case Nil
    with at alnum_a show ?thesis
      unfolding labelRe_def lang_Seq_Cls lang_Opt by blast
  next
    case (snoc m z)
    with w at have "is_alnum z" "length m \<le> 61" "\<forall>c\<in>set m. label_char c"
      by (auto simp: rfc1123_label_def label_char_def)
    then have "t \<in> lang (Opt (Seq (Rep (Cls label_char) 0 61) (Cls is_alnum)))"
      unfolding lang_Opt lang_Seq_iff[of t] lang_Rep_Cls using snoc by auto
    with at alnum_a show ?thesis
      unfolding labelRe_def lang_Seq_Cls by blast
  qed
qed

lemma label_no_dot: "w \<in> lang labelRe \<Longrightarrow> CHR ''.'' \<notin> set w"
  by (auto simp: label_lang rfc1123_label_def label_char_def is_alnum_def is_alpha_def is_lower_def
      is_upper_def is_digit_def byte_def)

lemma separated_pow:
  assumes "\<And>w. w \<in> L \<Longrightarrow> c \<notin> set w"
  shows "u \<in> L \<Longrightarrow> t \<in> pow (conc {[c]} L) n \<Longrightarrow> \<forall>w\<in>set (split_on c (u @ t)). w \<in> L"
proof (induction n arbitrary: u t)
  case 0
  then show ?case using assms by (simp add: split_on_single)
next
  case (Suc n)
  from Suc.prems(2) obtain w r where "t = c # w @ r" "w \<in> L" "r \<in> pow (conc {[c]} L) n"
    by (auto simp: conc_iff)
  with Suc.IH[of w r] Suc.prems(1) assms show ?case
    by (simp add: split_on_append)
qed

lemma joined_pow:
  "\<forall>w\<in>set (v # ws). w \<in> L \<Longrightarrow>
    \<exists>t n. join_with [c] (v # ws) = v @ t \<and> t \<in> pow (conc {[c]} L) n"
proof (induction ws arbitrary: v)
  case Nil
  show ?case by (rule exI[of _ "[]"], rule exI[of _ 0]) simp
next
  case (Cons w ws)
  then obtain t n where tn: "join_with [c] (w # ws) = w @ t" "t \<in> pow (conc {[c]} L) n"
    by (metis list.set_intros(2))
  have "[c] @ w \<in> conc {[c]} L" using Cons.prems by (auto simp: conc_def)
  from pow_SucI[OF this tn(2)] have "c # w @ t \<in> pow (conc {[c]} L) (Suc n)" by simp
  with tn(1) show ?case
    by (intro exI[of _ "c # w @ t"] exI[of _ "Suc n"]) (simp del: pow.simps)
qed

lemma separated_lang:
  assumes "\<And>w. w \<in> lang r \<Longrightarrow> c \<notin> set w"
  shows "s \<in> lang (Seq r (Star (Seq (Lit [c]) r))) \<longleftrightarrow> (\<forall>w\<in>set (split_on c s). w \<in> lang r)"
proof
  assume "s \<in> lang (Seq r (Star (Seq (Lit [c]) r)))"
  then obtain u t n where "s = u @ t" "u \<in> lang r" "t \<in> pow (conc {[c]} (lang r)) n"
    by (auto simp: lang.simps conc_iff)
  with separated_pow[of "lang r" c u t n] assms
  show "\<forall>w\<in>set (split_on c s). w \<in> lang r" by blast
next
  assume all: "\<forall>w\<in>set (split_on c s). w \<in> lang r"
  obtain v ws where vw: "split_on c s = v # ws" by (cases "split_on c s") auto
  with all joined_pow[of v ws "lang r" c] join_split_on[of c s]
  obtain t n where "s = v @ t" "t \<in> pow (conc {[c]} (lang r)) n" by auto
  with all vw show "s \<in> lang (Seq r (Star (Seq (Lit [c]) r)))"
    by (auto simp: lang.simps conc_iff)
qed

lemma hostname_lang: "s \<in> lang hostnameRe \<longleftrightarrow> (\<forall>w\<in>set (split_on (CHR ''.'') s). rfc1123_label w)"
  unfolding hostnameRe_def using separated_lang[of labelRe "CHR ''.''" s, OF label_no_dot]
  by (simp add: label_lang)

lemma tag_lang:
  "t \<in> lang (Opt (Seq (Lit '':'') (Plus (Cls tag_char)))) \<longleftrightarrow>
     t = [] \<or> (\<exists>x. t = '':'' @ x \<and> x \<noteq> [] \<and> (\<forall>c\<in>set x. tag_char c))"
  unfolding lang_Opt lang_Seq_iff[of t] by auto

lemma digest_lang:
  "d \<in> lang (Opt (Seq (Lit ''@sha256:'') (Rep (Cls digest_char) 64 64))) \<longleftrightarrow>
     d = [] \<or> (\<exists>x. d = ''@sha256:'' @ x \<and> length x = 64 \<and> (\<forall>c\<in>set x. digest_char c))"
  unfolding lang_Opt lang_Seq_iff[of d] lang_Lit lang_Rep_Cls by auto

lemma image_ref_lang:
  "s \<in> lang imageRefRe \<longleftrightarrow>
     (\<exists>a n t d. s = a # n @ t @ d \<and> is_alnum a \<and> (\<forall>c\<in>set n. image_char c)
        \<and> (t = [] \<or> (\<exists>x. t = '':'' @ x \<and> x \<noteq> [] \<and> (\<forall>c\<in>set x. tag_char c)))
        \<and> (d = [] \<or> (\<exists>x. d = ''@sha256:'' @ x \<and> length x = 64 \<and> (\<forall>c\<in>set x. digest_char c))))"
proof -
  let ?T = "lang (Opt (Seq (Lit '':'') (Plus (Cls tag_char))))"
  let ?D = "lang (Opt (Seq (Lit ''@sha256:'') (Rep (Cls digest_char) 64 64)))"
  have "s \<in> lang imageRefRe \<longleftrightarrow>
     (\<exists>a r. s = a # r \<and> is_alnum a \<and>
       (\<exists>n t d. r = n @ t @ d \<and> (\<forall>c\<in>set n. image_char c) \<and> t \<in> ?T \<and> d \<in> ?D))"
    unfolding imageRefRe_def lang_Seq_Cls
    unfolding lang_Seq_iff lang_Star_Cls by blast
  also have "\<dots> \<longleftrightarrow> (\<exists>a n t d. s = a # n @ t @ d \<and> is_alnum a \<and> (\<forall>c\<in>set n. image_char c)
        \<and> t \<in> ?T \<and> d \<in> ?D)"
    by blast
  finally show ?thesis unfolding tag_lang digest_lang .
qed

lemma image_ref_graphic: "matches imageRefRe s \<Longrightarrow> \<forall>c\<in>set s. graphic c"
proof -
  have "rexp_all graphic imageRefRe"
    by (auto simp: imageRefRe_def image_char_graphic tag_char_graphic digest_char_graphic
        alnum_graphic) (auto simp: graphic_def byte_def)
  then show "matches imageRefRe s \<Longrightarrow> \<forall>c\<in>set s. graphic c"
    using lang_all by (simp add: matches_iff_lang)
qed

section \<open>Addresses\<close>

definition ip_char :: "char \<Rightarrow> bool" where
  "ip_char c \<longleftrightarrow> is_hex c \<or> c = CHR ''.'' \<or> c = CHR '':''"

lemma digit_is_hex: "is_digit c \<Longrightarrow> is_hex c"
  by (simp add: is_digit_def is_hex_def hex_val_def)

lemma ipv4_fields_chars: "ipv4_fields v p d s \<Longrightarrow> \<forall>c\<in>set s. ip_char c"
  by (induction v p d s rule: ipv4_fields.induct)
     (auto simp: ip_char_def Let_def digit_is_hex split: if_splits)

lemma ipv6_loop_chars: "ipv6_loop i ell s \<Longrightarrow> \<forall>c\<in>set s. ip_char c"
proof (induction i ell s rule: ipv6_loop.induct)
  case (1 i ell s)
  let ?h = "takeWhile is_hex s" and ?r = "dropWhile is_hex s"
  have i: "i < 16" and h: "\<not> (length ?h > 4 \<or> ?h = [])"
    using "1.prems" by (simp_all add: ipv6_loop.simps[of i ell s] Let_def split: if_splits)
  have hex: "\<forall>c\<in>set ?h. ip_char c"
    by (auto simp: ip_char_def dest: set_takeWhileD)
  have "\<forall>c\<in>set (?h @ ?r). ip_char c"
  proof (cases ?r)
    case Nil
    then have "?h @ ?r = ?h" by (simp only: append_Nil2)
    with hex show ?thesis by (simp only:)
  next
    case (Cons c t)
    show ?thesis
    proof (cases "c = CHR ''.''")
      case True
      with "1.prems" i h Cons have "ipv4_fields 0 0 0 s"
        by (simp add: ipv6_loop.simps[of i ell s] Let_def split: if_splits)
      then show ?thesis by (simp add: ipv4_fields_chars)
    next
      case False
      with "1.prems" i h Cons have c: "c = CHR '':''" and "t \<noteq> []"
        by (auto simp: ipv6_loop.simps[of i ell s] Let_def split: if_splits)
      then obtain d u where t: "t = d # u" by (cases t) auto
      have "\<forall>c\<in>set t. ip_char c"
      proof (cases "d = CHR '':''")
        case True
        then have "u = [] \<or> ipv6_loop (i + 2) (Some (i + 2)) u"
          using "1.prems" i h Cons False c t
          by (auto simp: ipv6_loop.simps[of i ell s] Let_def split: if_splits)
        then show ?thesis
          using "1.IH"(1)[OF _ refl refl h Cons False _ t True] i c t True "1.prems" h Cons
          by (auto simp: ip_char_def ipv6_loop.simps[of i ell s] Let_def split: if_splits)
      next
        case d: False
        then have "ipv6_loop (i + 2) ell t"
          using "1.prems" i h Cons False c t
          by (auto simp: ipv6_loop.simps[of i ell s] Let_def split: if_splits)
        then show ?thesis
          using "1.IH"(2)[OF _ refl refl h Cons False _ t d] i c by simp
      qed
      with hex Cons c show ?thesis by (auto simp: ip_char_def)
    qed
  qed
  then show ?case by simp
qed

lemma parse_ip_chars: "parse_ip s \<Longrightarrow> \<forall>c\<in>set s. ip_char c"
proof -
  assume "parse_ip s"
  then consider "ipv4_fields 0 0 0 s" | "parse_ipv6 s"
    by (auto simp: parse_ip_def split: option.splits if_splits)
  then show ?thesis
  proof cases
    case 2
    then consider "has_prefix s ''::''" "drop 2 s = [] \<or> ipv6_loop 0 (Some 0) (drop 2 s)"
      | "ipv6_loop 0 None s"
      by (auto simp: parse_ipv6_def Let_def split: if_splits)
    then show ?thesis
    proof cases
      case 1
      then have "\<forall>c\<in>set (drop 2 s). ip_char c" using ipv6_loop_chars by force
      with 1(1) show ?thesis by (auto simp: has_prefix_iff ip_char_def)
    qed (rule ipv6_loop_chars)
  qed (rule ipv4_fields_chars)
qed

lemma ip_char_graphic: "ip_char c \<Longrightarrow> graphic c"
proof -
  have "is_hex c \<Longrightarrow> graphic c"
    unfolding is_hex_def hex_val_def Let_def graphic_def by (simp split: if_split_asm)
  moreover have "graphic (CHR ''.'')" "graphic (CHR '':'')" by (simp_all add: graphic_def byte_def)
  ultimately show "ip_char c \<Longrightarrow> graphic c" by (auto simp: ip_char_def)
qed

section \<open>Kernel arguments\<close>

lemma kernel_arg_iff:
  "KernelArg uc arg = None \<longleftrightarrow>
     CHR 0x0A \<notin> set arg \<and> CHR 0x0D \<notin> set arg \<and> CHR 0x09 \<notin> set arg
     \<and> (\<forall>d\<in>set dangerousKargs. \<not> has_prefix (to_lower uc arg) d)"
proof -
  have eq: "(has_prefix low d \<or> low = d) = has_prefix low d" for low d
    by (auto simp: has_prefix_def)
  show ?thesis
    unfolding KernelArg_def Let_def eq contains_any_iff
    by (auto simp: first_error_None_iff)
qed

lemma lower_char_ascii: "ascii (lower_char c) \<Longrightarrow> ascii c"
  by (auto simp: lower_char_def ascii_def is_upper_def split: if_splits)

section \<open>Properties\<close>

text \<open>
  a unit name is accepted exactly when it is at most 256 bytes long, made of letters, digits and
  \<open>_@:.-\<close>, and ends in a dot and one of the nine unit types after at least one byte; so it has
  no slash, no white space and no control character. It may start with a hyphen.
\<close>

theorem unit_name_iff:
  "UnitName s = None \<longleftrightarrow>
     length s \<le> 256 \<and> (\<exists>b x. s = b @ ''.'' @ x \<and> b \<noteq> [] \<and> (\<forall>c\<in>set b. unit_char c) \<and> x \<in> set unit_suffixes)"
  by (auto simp: UnitName_def matches_iff_lang unit_name_lang)

text \<open>
  a host name is accepted exactly when it is at most 253 bytes long and every piece between dots is an
  RFC 1123 label (1 to 63 letters, digits and hyphens, no hyphen at either end).
\<close>

theorem hostname_rfc1123:
  "Hostname s = None \<longleftrightarrow> s \<noteq> [] \<and> length s \<le> 253 \<and> (\<forall>w\<in>set (split_on (CHR ''.'') s). rfc1123_label w)"
  by (auto simp: Hostname_def matches_iff_lang hostname_lang)


text \<open>
  a kernel argument that starts with one of the blocked words, in any mixture of upper and lower
  case, is refused; the same argument behind a space is accepted when it is lower case and has no
  tab or line break, although the kernel would read it the same way.
\<close>

theorem kernel_arg_blocks_prefix:
  assumes "d \<in> set dangerousKargs" "list_all2 (\<lambda>x y. ascii x \<and> lower_char x = y) p d"
  shows "KernelArg uc (p @ rest) \<noteq> None
    \<and> (\<forall>v. v = CHR 0x20 # d \<longrightarrow> KernelArg uc v = None)"
proof (intro conjI allI impI)
  have asc: "\<forall>c\<in>set p. ascii c" and low: "map lower_char p = d"
    using assms(2) by (auto simp: list_all2_conv_all_nth in_set_conv_nth intro: nth_equalityI)
  have "to_lower uc (p @ rest) = d @ to_lower uc rest"
    using to_lower_append_ascii[of p uc rest] asc low by simp
  then show "KernelArg uc (p @ rest) \<noteq> None"
    unfolding kernel_arg_iff using assms(1) by (metis has_prefix_append)
  fix v assume v: "v = CHR 0x20 # d"
  have "list_all (\<lambda>d. list_all ascii d \<and> map lower_char d = d \<and> list_all (\<lambda>c. graphic c) d
      \<and> list_all (\<lambda>e. \<not> prefix e (CHR 0x20 # d)) dangerousKargs) dangerousKargs"
    by code_simp
  with assms(1) have d: "\<forall>c\<in>set d. ascii c" "map lower_char d = d" "\<forall>c\<in>set d. graphic c"
    "\<forall>e\<in>set dangerousKargs. \<not> has_prefix (CHR 0x20 # d) e"
    by (auto simp: list_all_iff has_prefix_def)
  have sp: "ascii CHR 0x20" "lower_char CHR 0x20 = CHR 0x20" by code_simp+
  have "to_lower uc v = v" using to_lower_all_ascii[of v uc] d sp by (simp add: v)
  moreover have "CHR 0x0A \<notin> set v" "CHR 0x0D \<notin> set v" "CHR 0x09 \<notin> set v"
    using d(3) by (auto simp: v graphic_def byte_def)
  ultimately show "KernelArg uc v = None"
    unfolding kernel_arg_iff using d(4) by (simp add: v)
qed

theorem kernel_arg_blocks_prefix_witness:
  "KernelArg \<lparr>uc_print = (\<lambda>n. True), uc_lower = (\<lambda>n. n)\<rparr> (''INIT='' @ ''/bin/sh'') \<noteq> None
    \<and> KernelArg \<lparr>uc_print = (\<lambda>n. True), uc_lower = (\<lambda>n. n)\<rparr> '' init='' = None"
proof -
  have "''init='' \<in> set dangerousKargs" by (simp add: dangerousKargs_def)
  moreover have "list_all2 (\<lambda>x y. ascii x \<and> lower_char x = y) ''INIT='' ''init=''" by code_simp
  ultimately have "KernelArg uc (''INIT='' @ ''/bin/sh'') \<noteq> None
      \<and> (\<forall>v. v = CHR 0x20 # ''init='' \<longrightarrow> KernelArg uc v = None)" for uc
    by (rule kernel_arg_blocks_prefix)
  then show ?thesis by blast
qed


theorem unit_name_iff_witness: "UnitName ''-x.service'' = None"
proof -
  have "list_all unit_char ''-x'' \<and> ''service'' \<in> set unit_suffixes" by code_simp
  then show ?thesis
    unfolding unit_name_iff
    by (intro conjI exI[of _ "''-x''"] exI[of _ "''service''"]) (simp_all add: list_all_iff)
qed

theorem hostname_rfc1123_witness: "rfc1123_label ''node-1'' \<and> rfc1123_label ''example''"
proof -
  have "Hostname ''node-1.example'' = None" "split_on (CHR ''.'') ''node-1.example'' = [''node-1'', ''example'']"
    by code_simp+
  then show ?thesis using hostname_rfc1123[of "''node-1.example''"] by simp
qed

end
