(* ===== verification/Json.thy ===== *)
theory Json
  imports Go_Strings
begin

text \<open>
  The part of \<open>encoding/json\<close> the program relies on: reading a JSON text into a value
  (\<open>json_parse\<close>, with the decoder's nesting limit and its treatment of invalid UTF-8 and lone
  surrogates), writing a string (\<open>json_quote\<close>, with the HTML escapes of \<open>json.Marshal\<close>), and the
  decoder's rule for matching an object's keys with the fields of a struct. A number keeps
  its literal text. The lemmas show that reading undoes writing on valid UTF-8 and that the
  parser's fuel, twice the length of the text, never runs out.
\<close>

datatype json =
    JNull
  | JBool bool
  | JNum string
  | JStr string
  | JArr "json list"
  | JObj "(string \<times> json) list"

definition json_ws :: "char \<Rightarrow> bool" where
  "json_ws c \<longleftrightarrow> c = CHR 0x20 \<or> c = CHR 0x09 \<or> c = CHR 0x0A \<or> c = CHR 0x0D"

definition skip_ws :: "string \<Rightarrow> string" where
  "skip_ws s = dropWhile json_ws s"

section \<open>Strings\<close>

definition hex4 :: "char \<Rightarrow> char \<Rightarrow> char \<Rightarrow> char \<Rightarrow> nat option" where
  "hex4 a b c d =
     (case (hex_val a, hex_val b, hex_val c, hex_val d) of
        (Some w, Some x, Some y, Some z) \<Rightarrow> Some (((w * 16 + x) * 16 + y) * 16 + z)
      | _ \<Rightarrow> None)"

text \<open>\<open>getu4\<close>: the code unit of a leading \<open>\u\<close> escape.\<close>

definition getu4 :: "string \<Rightarrow> nat option" where
  "getu4 s =
     (case s of
        p # u # a # b # c # d # _ \<Rightarrow>
          if p = CHR 0x5C \<and> u = CHR ''u'' then hex4 a b c d else None
      | _ \<Rightarrow> None)"

definition unescape :: "char \<Rightarrow> char option" where
  "unescape e =
     (if e = CHR 0x22 \<or> e = CHR 0x5C \<or> e = CHR ''/'' then Some e
      else if e = CHR ''b'' then Some (CHR 0x08) else if e = CHR ''f'' then Some (CHR 0x0C)
      else if e = CHR ''n'' then Some (CHR 0x0A) else if e = CHR ''r'' then Some (CHR 0x0D)
      else if e = CHR ''t'' then Some (CHR 0x09) else None)"

text \<open>The rune of a \<open>\u\<close> escape with value \<open>u\<close> before \<open>s\<close>, and whether it used up a second one.\<close>

definition join_surrogates :: "nat \<Rightarrow> string \<Rightarrow> nat \<times> bool" where
  "join_surrogates u s =
     (if 0xD800 \<le> u \<and> u \<le> 0xDFFF then
        (case getu4 s of
           Some v \<Rightarrow>
             if u \<le> 0xDBFF \<and> 0xDC00 \<le> v \<and> v \<le> 0xDFFF
             then ((u - 0xD800) * 1024 + (v - 0xDC00) + 0x10000, True)
             else (rune_error, False)
         | None \<Rightarrow> (rune_error, False))
      else (u, False))"

text \<open>The string after its opening quote: its value and what follows the closing quote.\<close>

function json_string :: "string \<Rightarrow> (string \<times> string) option" where
  "json_string [] = None"
| "json_string (c # s) =
     (if c = CHR 0x22 then Some ([], s)
      else if c = CHR 0x5C then
        (case s of
           [] \<Rightarrow> None
         | e # t \<Rightarrow>
             if e = CHR ''u'' then
               (case getu4 (c # s) of
                  None \<Rightarrow> None
                | Some u \<Rightarrow>
                    (case join_surrogates u (drop 5 s) of (r, two) \<Rightarrow>
                       map_option (apfst ((@) (encode_rune r)))
                         (json_string (drop (if two then 11 else 5) s))))
             else
               (case unescape e of
                  None \<Rightarrow> None
                | Some b \<Rightarrow> map_option (apfst (Cons b)) (json_string t)))
      else if byte c < 0x20 then None
      else if ascii c then map_option (apfst (Cons c)) (json_string s)
      else
        (case decode_rune (c # s) of (r, w) \<Rightarrow>
           if w \<le> 1 then map_option (apfst ((@) (encode_rune rune_error))) (json_string s)
           else map_option (apfst ((@) (take w (c # s)))) (json_string (drop (w - 1) s))))"
  by pat_completeness auto
termination
  by (relation "measure length") (auto simp: less_Suc_eq_le)

text \<open>A string as \<open>json.Marshal\<close> writes it.\<close>

definition json_escape :: "char \<Rightarrow> string" where
  "json_escape c =
     (let b = byte c; esc = (\<lambda>x. [CHR 0x5C, x]) in
      if b = 0x22 \<or> b = 0x5C then esc c
      else if b = 8 then esc (CHR ''b'') else if b = 12 then esc (CHR ''f'')
      else if b = 10 then esc (CHR ''n'') else if b = 13 then esc (CHR ''r'')
      else if b = 9 then esc (CHR ''t'')
      else if b < 0x20 \<or> b = 0x3C \<or> b = 0x3E \<or> b = 0x26 then
        [CHR 0x5C, CHR ''u'', CHR ''0'', CHR ''0''] @ hex_byte b
      else [c])"

function json_body :: "string \<Rightarrow> string" where
  "json_body [] = []"
| "json_body (c # s) =
     (if ascii c then json_escape c @ json_body s
      else (case decode_rune (c # s) of (r, w) \<Rightarrow>
        if w \<le> 1 then CHR 0x5C # ''ufffd'' @ json_body s
        else if r = 0x2028 \<or> r = 0x2029 then
          CHR 0x5C # ''u202'' @ [hex_digit (r mod 16)] @ json_body (drop (w - 1) s)
        else take w (c # s) @ json_body (drop (w - 1) s)))"
  by pat_completeness auto
termination
  by (relation "measure length") auto

definition json_quote :: "string \<Rightarrow> string" where
  "json_quote s = CHR 0x22 # json_body s @ [CHR 0x22]"

function valid_utf8 :: "string \<Rightarrow> bool" where
  "valid_utf8 [] = True"
| "valid_utf8 (c # s) =
     (if ascii c then valid_utf8 s
      else (case decode_rune (c # s) of (r, w) \<Rightarrow> 1 < w \<and> valid_utf8 (drop (w - 1) s)))"
  by pat_completeness auto
termination
  by (relation "measure length") auto

section \<open>Values\<close>

definition digits_span :: "string \<Rightarrow> string \<times> string" where
  "digits_span s = (takeWhile is_digit s, dropWhile is_digit s)"

text \<open>A number: optional minus, integer part without leading zero, fraction, exponent.\<close>

definition json_number :: "string \<Rightarrow> (string \<times> string) option" where
  "json_number s =
     (let (sg, s1) = (if has_prefix s ''-'' then (''-'', tl s) else ([], s));
          (ip, s2) = (if has_prefix s1 ''0'' then (''0'', tl s1) else digits_span s1)
      in if ip = [] then None
         else
           let fr = (if has_prefix s2 ''.'' then
                       (case digits_span (tl s2) of (f, t) \<Rightarrow> if f = [] then None else Some (''.'' @ f, t))
                     else Some ([], s2))
           in case fr of
                None \<Rightarrow> None
              | Some (f, s3) \<Rightarrow>
                  if has_prefix s3 ''e'' \<or> has_prefix s3 ''E'' then
                    (let (es, s4) = (if has_prefix (tl s3) ''+'' \<or> has_prefix (tl s3) ''-''
                                     then (take 1 (tl s3), drop 1 (tl s3)) else ([], tl s3));
                         (ex, s5) = digits_span s4
                     in if ex = [] then None else Some (sg @ ip @ f @ take 1 s3 @ es @ ex, s5))
                  else Some (sg @ ip @ f, s3))"

text \<open>A member's key and its colon.\<close>

definition json_key :: "string \<Rightarrow> (string \<times> string) option" where
  "json_key s =
     (case skip_ws s of
        [] \<Rightarrow> None
      | q # r \<Rightarrow>
          if q \<noteq> CHR 0x22 then None
          else (case json_string r of
             None \<Rightarrow> None
           | Some (k, t) \<Rightarrow>
               (case skip_ws t of
                  [] \<Rightarrow> None
                | c # u \<Rightarrow> if c \<noteq> CHR '':'' then None else Some (k, u))))"

text \<open>The decoder's nesting limit (\<open>maxNestingDepth\<close>).\<close>

definition max_depth :: nat where
  "max_depth = 10000"

fun json_value :: "nat \<Rightarrow> nat \<Rightarrow> string \<Rightarrow> (json \<times> string) option"
  and json_elems :: "nat \<Rightarrow> nat \<Rightarrow> string \<Rightarrow> (json list \<times> string) option"
  and json_members :: "nat \<Rightarrow> nat \<Rightarrow> string \<Rightarrow> ((string \<times> json) list \<times> string) option"
where
  "json_value d 0 s = None"
| "json_value d (Suc n) s =
     (case skip_ws s of
        [] \<Rightarrow> None
      | c # r \<Rightarrow>
          if c = CHR ''{'' then
            (if d \<ge> max_depth then None
             else if has_prefix (skip_ws r) ''}'' then Some (JObj [], tl (skip_ws r))
             else map_option (apfst JObj) (json_members (Suc d) n r))
          else if c = CHR ''['' then
            (if d \<ge> max_depth then None
             else if has_prefix (skip_ws r) '']'' then Some (JArr [], tl (skip_ws r))
             else map_option (apfst JArr) (json_elems (Suc d) n r))
          else if c = CHR 0x22 then map_option (apfst JStr) (json_string r)
          else if has_prefix (c # r) ''null'' then Some (JNull, drop 3 r)
          else if has_prefix (c # r) ''true'' then Some (JBool True, drop 3 r)
          else if has_prefix (c # r) ''false'' then Some (JBool False, drop 4 r)
          else map_option (apfst JNum) (json_number (c # r)))"
| "json_elems d 0 s = None"
| "json_elems d (Suc n) s =
     (case json_value d n s of
        None \<Rightarrow> None
      | Some (v, t) \<Rightarrow>
          (case skip_ws t of
             [] \<Rightarrow> None
           | c # u \<Rightarrow>
               if c = CHR '','' then map_option (apfst (Cons v)) (json_elems d n u)
               else if c = CHR '']'' then Some ([v], u)
               else None))"
| "json_members d 0 s = None"
| "json_members d (Suc n) s =
     (case json_key s of
        None \<Rightarrow> None
      | Some (k, u) \<Rightarrow>
          (case json_value d n u of
             None \<Rightarrow> None
           | Some (v, w) \<Rightarrow>
               (case skip_ws w of
                  [] \<Rightarrow> None
                | e # x \<Rightarrow>
                    if e = CHR '','' then map_option (apfst (Cons (k, v))) (json_members d n x)
                    else if e = CHR ''}'' then Some ([(k, v)], x)
                    else None)))"

definition json_fuel :: "string \<Rightarrow> nat" where
  "json_fuel s = 2 * length s + 2"

definition json_parse :: "string \<Rightarrow> json option" where
  "json_parse s =
     (case json_value 0 (json_fuel s) s of
        None \<Rightarrow> None
      | Some (v, t) \<Rightarrow> if skip_ws t = [] then Some v else None)"

section \<open>The rest of the text is shorter, and the fuel is enough\<close>

lemma skip_ws_length: "length (skip_ws s) \<le> length s"
  by (simp add: skip_ws_def length_dropWhile_le)

lemma json_string_shorter: "json_string s = Some (v, t) \<Longrightarrow> length t < length s"
proof (induction s arbitrary: v t rule: json_string.induct)
  case 1
  then show ?case by simp
next
  case (2 c s)
  have drop_less: "length t < length (drop k s) \<Longrightarrow> length t < length (c # s)" for k by simp
  consider "c = CHR 0x22" | e u where "c = CHR 0x5C" "s = e # u"
    | "c \<noteq> CHR 0x22" "c \<noteq> CHR 0x5C"
    using "2.prems" by (cases s) (auto split: if_splits)
  then show ?case
  proof cases
    case 1
    with "2.prems" show ?thesis by simp
  next
    case (2 e u)
    show ?thesis
    proof (cases "e = CHR ''u''")
      case True
      with 2 "2.prems" obtain n v' k where "getu4 (c # s) = Some n"
        and "json_string (drop k s) = Some (v', t)"
        and "k = (if snd (join_surrogates n (drop 5 s)) then 11 else 5)"
        by (auto split: option.splits prod.splits)
      with 2 True show ?thesis
        using "2.IH"(1)[of e u n "fst (join_surrogates n (drop 5 s))"
            "snd (join_surrogates n (drop 5 s))" v' t]
        by (intro drop_less) auto
    next
      case False
      with 2 "2.prems" obtain b v' where "unescape e = Some b" "json_string u = Some (v', t)"
        by (auto split: option.splits)
      with 2 False show ?thesis using "2.IH"(2)[of e u b v' t] by auto
    qed
  next
    case 3
    with "2.prems" have ctl: "\<not> byte c < 0x20" by (auto split: if_splits)
    show ?thesis
    proof (cases "ascii c")
      case True
      with 3 ctl "2.prems" obtain v' where "json_string s = Some (v', t)" by auto
      with 3 ctl True show ?thesis using "2.IH"(3)[of v' t] by auto
    next
      case False
      obtain r w where rw: "decode_rune (c # s) = (r, w)" by fastforce
      show ?thesis
      proof (cases "w \<le> 1")
        case True
        with 3 ctl False rw "2.prems" obtain v' where "json_string s = Some (v', t)" by auto
        with 3 ctl False rw True show ?thesis using "2.IH"(4)[of r w v' t] by auto
      next
        case w: False
        with 3 ctl False rw "2.prems" obtain v' where "json_string (drop (w - 1) s) = Some (v', t)"
          by auto
        with 3 ctl False rw w show ?thesis using "2.IH"(5)[of r w v' t] by auto
      qed
    qed
  qed
qed

lemma digits_span_length: "digits_span s = (a, t) \<Longrightarrow> length t + length a = length s"
  by (auto simp: digits_span_def) (metis add.commute length_append takeWhile_dropWhile_id)

lemma json_number_shorter: "json_number s = Some (v, t) \<Longrightarrow> length t < length s"
proof -
  assume eq: "json_number s = Some (v, t)"
  obtain sg s1 where sg: "(if has_prefix s ''-'' then (''-'', tl s) else ([], s)) = (sg, s1)"
    by fastforce
  obtain ip s2 where ip: "(if has_prefix s1 ''0'' then (''0'', tl s1) else digits_span s1) = (ip, s2)"
    by fastforce
  define fr where "fr = (if has_prefix s2 ''.'' then
      (case digits_span (tl s2) of (f, t) \<Rightarrow> if f = [] then None else Some (''.'' @ f, t))
    else Some ([], s2))"
  from eq have nonempty: "ip \<noteq> []"
    by (auto simp: json_number_def sg ip fr_def[symmetric] Let_def split: if_splits)
  have s1: "length s1 \<le> length s" using sg by (auto split: if_splits)
  have s2: "length s2 < length s1"
    using ip nonempty digits_span_length[of s1 ip s2]
    by (cases ip) (auto simp: has_prefix_iff split: if_splits)
  from eq nonempty obtain f s3 where fr: "fr = Some (f, s3)"
    by (auto simp: json_number_def sg ip fr_def[symmetric] Let_def split: option.splits)
  then have s3: "length s3 \<le> length s2"
    by (auto simp: fr_def dest!: digits_span_length split: if_splits prod.splits)
  have "length t \<le> length s3"
    using eq nonempty fr
    by (auto simp: json_number_def sg ip fr_def[symmetric] Let_def dest!: digits_span_length
        split: if_splits prod.splits)
  with s1 s2 s3 show ?thesis by linarith
qed

lemma json_key_shorter: "json_key s = Some (k, u) \<Longrightarrow> Suc (Suc (length u)) \<le> length s"
proof -
  assume eq: "json_key s = Some (k, u)"
  then obtain q r where r: "skip_ws s = q # r" and q: "q = CHR 0x22"
    by (auto simp: json_key_def split: list.splits if_splits)
  with eq obtain k' t where t: "json_string r = Some (k', t)"
    by (auto simp: json_key_def split: option.splits)
  with eq r q have "skip_ws t = CHR '':'' # u"
    by (auto simp: json_key_def split: list.splits if_splits)
  then show ?thesis
    using skip_ws_length[of s] skip_ws_length[of t] json_string_shorter[OF t] r by simp
qed

lemma json_shorter:
  "json_value d n s = Some (v, t) \<Longrightarrow> length t < length s"
  "json_elems d n s = Some (vs, t) \<Longrightarrow> length t < length s"
  "json_members d n s = Some (ms, t) \<Longrightarrow> length t < length s"
proof (induction d n s and d n s and d n s arbitrary: v t and vs t and ms t
    rule: json_value_json_elems_json_members.induct)
  case (2 d n s)
  obtain c r where cr: "skip_ws s = c # r" using "2.prems" by (cases "skip_ws s") auto
  then have le: "Suc (length r) \<le> length s" using skip_ws_length[of s] by simp
  have "length t < length (c # r)"
    using "2.prems" cr "2.IH"(1)[OF cr] "2.IH"(2)[OF cr] skip_ws_length[of r]
    by (auto dest!: json_string_shorter json_number_shorter simp: has_prefix_iff
        split: if_splits)
  with le show ?case by simp
next
  case (4 d n s)
  from "4.prems" obtain v u where v: "json_value d n s = Some (v, u)"
    by (auto split: option.splits)
  obtain c r where cr: "skip_ws u = c # r" using "4.prems" v by (cases "skip_ws u") auto
  have "length u < length s" using "4.IH"(1)[OF v] .
  moreover have "Suc (length r) \<le> length u" using skip_ws_length[of u] cr by simp
  moreover have "length t \<le> length r"
    using "4.prems" v cr "4.IH"(2)[OF v refl cr] by (auto split: if_splits)
  ultimately show ?case by simp
next
  case (6 d n s)
  from "6.prems" obtain k u where k: "json_key s = Some (k, u)" by (auto split: option.splits)
  with "6.prems" obtain v w where v: "json_value d n u = Some (v, w)" by (auto split: option.splits)
  with "6.prems" k obtain e x where e: "skip_ws w = e # x" by (auto split: list.splits)
  have "length u < length s" using json_key_shorter[OF k] by simp
  moreover have "length w < length u" using "6.IH"(1)[OF k refl v] .
  moreover have "Suc (length x) \<le> length w" using skip_ws_length[of w] e by simp
  moreover have "length t \<le> length x"
    using "6.prems" k v e "6.IH"(2)[OF k refl v refl e] by (auto split: if_splits)
  ultimately show ?case by simp
qed simp_all

text \<open>The fuel bounds a value, an element list and a member list need.\<close>

lemma json_fuel_enough:
  "2 * length s + 2 \<le> n \<Longrightarrow> 2 * length s + 2 \<le> m \<Longrightarrow> json_value d n s = json_value d m s"
  "2 * length s + 3 \<le> n \<Longrightarrow> 2 * length s + 3 \<le> m \<Longrightarrow> json_elems d n s = json_elems d m s"
  "2 * length s + 3 \<le> n \<Longrightarrow> 2 * length s + 3 \<le> m \<Longrightarrow> json_members d n s = json_members d m s"
proof (induction d n s and d n s and d n s arbitrary: m and m and m
    rule: json_value_json_elems_json_members.induct)
  case (2 d n s)
  from "2.prems" obtain k where m: "m = Suc k" by (cases m) auto
  show ?case
  proof (cases "skip_ws s")
    case Nil
    with m show ?thesis by simp
  next
    case (Cons c r)
    then have "2 * length r + 4 \<le> 2 * length s + 2" using skip_ws_length[of s] by simp
    with "2.prems" m Cons show ?thesis
      using "2.IH"(1)[OF Cons, of k] "2.IH"(2)[OF Cons, of k] by simp
  qed
next
  case (4 d n s)
  from "4.prems" obtain k where m: "m = Suc k" by (cases m) auto
  with "4.prems" "4.IH"(1)[of k] have eq: "json_value d n s = json_value d k s" by simp
  show ?case
  proof (cases "json_value d n s")
    case None
    with eq m show ?thesis by simp
  next
    case (Some p)
    obtain v u where p: "p = (v, u)" by fastforce
    with Some have v: "json_value d n s = Some (v, u)" by simp
    with eq have v': "json_value d k s = Some (v, u)" by simp
    show ?thesis
    proof (cases "skip_ws u")
      case Nil
      with v v' m show ?thesis by simp
    next
      case (Cons c r)
      then have "2 * length r + 4 \<le> 2 * length s" and "2 * length r + 3 \<le> n" "2 * length r + 3 \<le> k"
        using skip_ws_length[of u] json_shorter(1)[OF v] "4.prems" m by auto
      with v v' m Cons show ?thesis
        using "4.IH"(2)[OF v refl Cons, of k] by simp
    qed
  qed
next
  case (6 d n s)
  from "6.prems" obtain k where m: "m = Suc k" by (cases m) auto
  show ?case
  proof (cases "json_key s")
    case None
    with m show ?thesis by simp
  next
    case (Some p)
    obtain key u where p: "p = (key, u)" by fastforce
    with Some have key: "json_key s = Some (key, u)" by simp
    then have len: "Suc (Suc (length u)) \<le> length s" using json_key_shorter by simp
    then have eq: "json_value d n u = json_value d k u"
      using "6.IH"(1)[OF key refl, of k] "6.prems" m by simp
    show ?thesis
    proof (cases "json_value d n u")
      case None
      with eq m key show ?thesis by simp
    next
      case (Some p)
      obtain v w where "p = (v, w)" by fastforce
      with Some have v: "json_value d n u = Some (v, w)" by simp
      with eq have v': "json_value d k u = Some (v, w)" by simp
      show ?thesis
      proof (cases "skip_ws w")
        case Nil
        with v v' m key show ?thesis by simp
      next
        case (Cons e y)
        then have "2 * length y + 3 \<le> n" "2 * length y + 3 \<le> k"
          using skip_ws_length[of w] json_shorter(1)[OF v] len "6.prems" m by auto
        with v v' m key Cons show ?thesis
          using "6.IH"(2)[OF key refl v refl Cons, of k] by simp
      qed
    qed
  qed
qed simp_all

lemma json_value_fuel: "json_fuel s \<le> n \<Longrightarrow> json_value d n s = json_value d (json_fuel s) s"
  using json_fuel_enough(1)[of s n "json_fuel s" d] by (simp add: json_fuel_def)

section \<open>Reading back a written string\<close>

lemma decode_rune_take:
  assumes "decode_rune (c # s) = (r, w)" and "1 < w"
  shows "w \<le> Suc (length s) \<and> \<not> ascii c \<and> decode_rune (take w (c # s) @ t) = (r, w)"
  using assms unfolding decode_rune_def Let_def
  by (auto simp: ascii_def split: if_splits list.splits)

lemma decode_rune_cases:
  assumes "decode_rune (c # s) = (r, w)"
  obtains
      (one) "w = 1" "r < 0x80 \<or> r = rune_error"
    | (two) b t where "s = b # t" "w = 2" "r < 0x800"
    | (three) b d t where "s = b # d # t" "w = 3" "0xE0 \<le> byte c" "cont_byte b" "cont_byte d"
        "r = (byte c - 0xE0) * 4096 + (byte b - 0x80) * 64 + (byte d - 0x80)"
    | (four) b d e t where "s = b # d # e # t" "w = 4" "0x10000 \<le> r"
proof -
  have small: "(x - 0xC0) * 64 + (y - 0x80) < 0x800" if "x \<le> 0xDF" "y \<le> 191" for x y :: nat
    using that by simp
  have big: "0x10000 \<le> (x - 0xF0) * 262144 + (y - 0x80) * 4096 + z + v"
    if "0xF0 \<le> x" "x = 0xF0 \<longrightarrow> 0x90 \<le> y" for x y z v :: nat
    using that by (cases "x = 0xF0") auto
  note split = list.splits if_splits
  consider "byte c < 0x80" | "0x80 \<le> byte c \<and> byte c < 0xC2 \<or> 0xF4 < byte c"
    | "0xC2 \<le> byte c" "byte c \<le> 0xDF" | "0xE0 \<le> byte c" "byte c \<le> 0xEF"
    | "0xF0 \<le> byte c" "byte c \<le> 0xF4" by linarith
  then show thesis
  proof cases
    case 1
    with assms one show ?thesis by (simp add: decode_rune_def)
  next
    case 2
    with assms one show ?thesis by (auto simp: decode_rune_def Let_def)
  next
    case 3
    with assms one two small[of "byte c"] show ?thesis
      by (auto simp: decode_rune_def Let_def cont_byte_def split: list.splits if_splits)
  next
    case 4
    with assms one three show ?thesis
      by (auto simp: decode_rune_def Let_def split: list.splits if_splits)
  next
    case 5
    with assms one four big[of "byte c"] show ?thesis
      by (auto simp: decode_rune_def Let_def split: list.splits if_splits)
  qed
qed

lemma decode_rune_tail:
  assumes "decode_rune (c # s) = (r, w)" "x \<in> set (take (w - 1) s)"
  shows "0x80 \<le> byte x"
proof -
  have cont: "cont_byte x \<Longrightarrow> 0x80 \<le> byte x" for x by (simp add: cont_byte_def)
  show ?thesis
    using assms by (auto simp: decode_rune_def Let_def cont split: list.splits if_splits)
qed

text \<open>The two code points \<open>json.Marshal\<close> escapes outside ASCII.\<close>

lemma decode_line_separator:
  assumes "decode_rune (c # s) = (r, w)" and r: "r = 0x2028 \<or> r = 0x2029"
  shows "take w (c # s) = encode_rune r \<and> w = 3"
  using assms(1)
proof (cases rule: decode_rune_cases)
  case (three b d t)
  from three(4,5) have "byte b - 0x80 < 64" "byte d - 0x80 < 64" by (auto simp: cont_byte_def)
  with three(6) r have "byte c - 0xE0 = 2" by linarith
  with three(6) r \<open>byte d - 0x80 < 64\<close> have "byte b - 0x80 = 0" by linarith
  with three r \<open>byte c - 0xE0 = 2\<close> have "byte c = 0xE2" "byte b = 0x80" "byte d = 0x80 + (r - 0x2000)"
    by (auto simp: cont_byte_def)
  then have "c = char_of (0xE2::nat)" "b = char_of (0x80::nat)" "d = char_of (0x80 + (r - 0x2000))"
    using char_of_byte[of c] char_of_byte[of b] char_of_byte[of d] by simp_all
  then have "take w (c # s) = [char_of (0xE2::nat), char_of (0x80::nat), char_of (0x80 + (r - 0x2000))]"
    by (simp add: three(1,2))
  moreover have "encode_rune r = [char_of (0xE2::nat), char_of (0x80::nat), char_of (0x80 + (r - 0x2000))]"
    using r by (elim disjE) (simp_all add: encode_rune_def rune_error_def)
  ultimately show ?thesis using three(2) by (simp only:)
qed (use r in \<open>auto simp: rune_error_def\<close>)

text \<open>A string written by \<open>json.Marshal\<close> is read back, if it is valid UTF-8.\<close>

lemma json_string_escape [go_string]:
  assumes "ascii c"
  shows "json_string (json_escape c @ s) = map_option (apfst (Cons c)) (json_string s)"
proof -
  define b where "b = byte c"
  have c: "c = char_of b" and b: "b < 128" using assms by (simp_all add: b_def char_of_byte ascii_def)
  consider "b = 0x22" | "b = 0x5C" | "b = 8" | "b = 9" | "b = 10" | "b = 12" | "b = 13"
    | "b < 0x20 \<or> b = 0x3C \<or> b = 0x3E \<or> b = 0x26" "b \<notin> {0x22, 0x5C, 8, 9, 10, 12, 13}"
    | "0x20 \<le> b" "b \<notin> {0x22, 0x5C, 0x3C, 0x3E, 0x26}"
    by force
  then show ?thesis
  proof cases
    case 8
    then have esc: "json_escape c = [CHR 0x5C, CHR ''u'', CHR ''0'', CHR ''0'', hex_digit (b div 16 mod 16),
        hex_digit (b mod 16)]"
      by (auto simp: json_escape_def b_def[symmetric] hex_byte_def Let_def)
    have "hex4 (CHR ''0'') (CHR ''0'') (hex_digit (b div 16 mod 16)) (hex_digit (b mod 16)) = Some b"
      using b by (simp add: hex4_def) (simp add: hex_val_def byte_def)
    then show ?thesis
      using b c esc
      by (cases "json_string s") (simp_all add: getu4_def join_surrogates_def encode_rune_def)
  next
    case 9
    then have "c \<noteq> CHR 0x22" "c \<noteq> CHR 0x5C" by (auto simp: b_def byte_def)
    with 9 assms show ?thesis by (simp add: json_escape_def b_def[symmetric] Let_def)
  next
    case 1
    then have "byte c = byte (CHR 0x22)" unfolding b_def[symmetric] by (simp add: byte_def)
    then have "c = CHR 0x22" by (simp only: byte_inject)
    then show ?thesis by (cases "json_string s") (simp_all add: json_escape_def byte_def unescape_def)
  next
    case 2
    then have "byte c = byte (CHR 0x5C)" unfolding b_def[symmetric] by (simp add: byte_def)
    then have "c = CHR 0x5C" by (simp only: byte_inject)
    then show ?thesis by (cases "json_string s") (simp_all add: json_escape_def byte_def unescape_def)
  next
    case 3
    then have "byte c = byte (CHR 0x08)" unfolding b_def[symmetric] by (simp add: byte_def)
    then have "c = CHR 0x08" by (simp only: byte_inject)
    then show ?thesis by (cases "json_string s") (simp_all add: json_escape_def byte_def unescape_def)
  next
    case 4
    then have "byte c = byte (CHR 0x09)" unfolding b_def[symmetric] by (simp add: byte_def)
    then have "c = CHR 0x09" by (simp only: byte_inject)
    then show ?thesis by (cases "json_string s") (simp_all add: json_escape_def byte_def unescape_def)
  next
    case 5
    then have "byte c = byte (CHR 0x0A)" unfolding b_def[symmetric] by (simp add: byte_def)
    then have "c = CHR 0x0A" by (simp only: byte_inject)
    then show ?thesis by (cases "json_string s") (simp_all add: json_escape_def byte_def unescape_def)
  next
    case 6
    then have "byte c = byte (CHR 0x0C)" unfolding b_def[symmetric] by (simp add: byte_def)
    then have "c = CHR 0x0C" by (simp only: byte_inject)
    then show ?thesis by (cases "json_string s") (simp_all add: json_escape_def byte_def unescape_def)
  next
    case 7
    then have "byte c = byte (CHR 0x0D)" unfolding b_def[symmetric] by (simp add: byte_def)
    then have "c = CHR 0x0D" by (simp only: byte_inject)
    then show ?thesis by (cases "json_string s") (simp_all add: json_escape_def byte_def unescape_def)
  qed
qed

lemma json_string_body:
  "valid_utf8 s \<Longrightarrow> json_string (json_body s @ CHR 0x22 # t) = Some (s, t)"
proof (induction s rule: valid_utf8.induct)
  case 1
  then show ?case by simp
next
  case (2 c s)
  show ?case
  proof (cases "ascii c")
    case True
    with 2 show ?thesis
      by (simp add: json_string_escape del: json_string.simps)
  next
    case False
    obtain r w where rw: "decode_rune (c # s) = (r, w)" by fastforce
    with False "2.prems" have w: "1 < w" and valid: "valid_utf8 (drop (w - 1) s)" by auto
    have IH: "json_string (json_body (drop (w - 1) s) @ CHR 0x22 # t) = Some (drop (w - 1) s, t)"
      by (rule "2.IH"(2)[OF False rw[symmetric] valid])
    have whole: "take w (c # s) @ drop (w - 1) s = c # s"
      using w by (cases w) auto
    show ?thesis
    proof (cases "r = 0x2028 \<or> r = 0x2029")
      case True
      then have "getu4 (CHR 0x5C # ''u202'' @ hex_digit (r mod 16) # x) = Some r" for x
        by (elim disjE) (simp_all add: getu4_def hex4_def hex_val_def hex_digit_def byte_def)
      moreover have "join_surrogates r x = (r, False)" for x
        using True by (auto simp: join_surrogates_def)
      moreover have same: "encode_rune r @ drop (w - 1) s = c # s"
        using decode_line_separator[OF rw True] whole by metis
      ultimately show ?thesis
        using False rw w IH same True by (elim disjE) (simp_all add: apfst_def)
    next
      case r: False
      let ?x = "json_body (drop (w - 1) s) @ CHR 0x22 # t"
      obtain u where u: "take w (c # s) = c # u" using w by (cases w) auto
      have dec: "decode_rune (c # u @ ?x) = (r, w)" and "w \<le> length (c # s)"
        using decode_rune_take[OF rw w] u by (metis append_Cons, auto)
      then have len: "length (c # u) = w" unfolding u[symmetric] by (simp only: length_take min_absorb2)
      have "byte c \<ge> 0x80" using False by (simp add: ascii_def)
      with dec len have "json_string (c # u @ ?x) = map_option (apfst ((@) (c # u))) (json_string ?x)"
        using w False by (auto simp: byte_def)
      with False rw w r IH u whole show ?thesis by auto
    qed
  qed
qed

theorem json_string_quote:
  "valid_utf8 s \<Longrightarrow> json_quote s @ t = CHR 0x22 # u \<Longrightarrow> json_string u = Some (s, t)"
  using json_string_body[of s t] by (simp add: json_quote_def)

section \<open>Reading back a written value\<close>

text \<open>
  \<open>json.Marshal\<close> of a value without numbers: no spaces, strings quoted. \<open>json_ok\<close> says that there
  are no numbers and that every string is valid UTF-8; \<open>json_depth\<close> counts the brackets.
\<close>

fun json_render :: "json \<Rightarrow> string" where
  "json_render JNull = ''null''"
| "json_render (JBool b) = (if b then ''true'' else ''false'')"
| "json_render (JNum s) = s"
| "json_render (JStr s) = json_quote s"
| "json_render (JArr vs) = ''['' @ join_with '','' (map json_render vs) @ '']''"
| "json_render (JObj ms) =
     ''{'' @ join_with '','' (map (\<lambda>(k, v). json_quote k @ '':'' @ json_render v) ms) @ ''}''"

fun json_ok :: "json \<Rightarrow> bool" where
  "json_ok JNull = True"
| "json_ok (JBool b) = True"
| "json_ok (JNum s) = False"
| "json_ok (JStr s) = valid_utf8 s"
| "json_ok (JArr vs) = (\<forall>v\<in>set vs. json_ok v)"
| "json_ok (JObj ms) = (\<forall>m\<in>set ms. case m of (k, v) \<Rightarrow> valid_utf8 k \<and> json_ok v)"

fun json_depth :: "json \<Rightarrow> nat" where
  "json_depth (JArr vs) = Suc (Max (set (0 # map json_depth vs)))"
| "json_depth (JObj ms) = Suc (Max (set (0 # map (\<lambda>(k, v). json_depth v) ms)))"
| "json_depth _ = 0"

lemma skip_ws_stop [simp]: "\<not> json_ws c \<Longrightarrow> skip_ws (c # s) = c # s"
  by (simp add: skip_ws_def)

lemma json_ws_chars [simp]:
  "\<not> json_ws CHR 0x22" "\<not> json_ws CHR ''{''" "\<not> json_ws CHR ''}''" "\<not> json_ws CHR ''[''"
  "\<not> json_ws CHR '']''" "\<not> json_ws CHR '',''" "\<not> json_ws CHR '':''" "\<not> json_ws CHR ''n''"
  "\<not> json_ws CHR ''t''" "\<not> json_ws CHR ''f''"
  by (simp_all add: json_ws_def)

lemma json_render_head:
  "json_ok v \<Longrightarrow> \<exists>c r. json_render v = c # r \<and> \<not> json_ws c \<and> c \<noteq> CHR '']''"
  by (cases v) (auto simp: json_quote_def)

lemma json_key_render:
  "valid_utf8 k \<Longrightarrow> json_key (json_quote k @ CHR '':'' # x) = Some (k, x)"
  by (simp add: json_key_def json_quote_def json_string_body)

lemma json_value_string:
  "valid_utf8 s \<Longrightarrow> json_value d (Suc n) (json_quote s @ t) = Some (JStr s, t)"
  by (simp add: json_quote_def json_string_body)

lemma json_elems_render:
  assumes "vs \<noteq> []" "\<forall>v\<in>set vs. json_ok v"
    and "\<And>v n t. v \<in> set vs \<Longrightarrow> 2 * length (json_render v) + 2 \<le> n \<Longrightarrow>
      json_value d n (json_render v @ t) = Some (v, t)"
    and "2 * length (join_with '','' (map json_render vs)) + 3 \<le> n"
  shows "json_elems d n (join_with '','' (map json_render vs) @ CHR '']'' # t) = Some (vs, t)"
  using assms
proof (induction vs arbitrary: n)
  case (Cons v vs)
  then obtain k where n: "n = Suc k" by (cases n) auto
  show ?case
  proof (cases "vs = []")
    case True
    with Cons.prems n show ?thesis by simp
  next
    case False
    then have join: "join_with '','' (map json_render (v # vs)) =
        json_render v @ CHR '','' # join_with '','' (map json_render vs)"
      by (cases vs) simp_all
    with Cons.prems(4) n have le: "2 * length (json_render v) + 2 \<le> k"
      "2 * length (join_with '','' (map json_render vs)) + 3 \<le> k" by simp_all
    have "json_value d k (json_render v @ x) = Some (v, x)" for x
      using Cons.prems(3) le(1) by simp
    moreover have "json_elems d k (join_with '','' (map json_render vs) @ CHR '']'' # t) = Some (vs, t)"
      using Cons.IH[OF False _ _ le(2)] Cons.prems(2,3) by simp
    ultimately show ?thesis unfolding join n by simp
  qed
qed simp

lemma json_members_render:
  assumes "ms \<noteq> []" "\<forall>(k, v)\<in>set ms. valid_utf8 k \<and> json_ok v"
    and "\<And>k v n t. (k, v) \<in> set ms \<Longrightarrow> 2 * length (json_render v) + 2 \<le> n \<Longrightarrow>
      json_value d n (json_render v @ t) = Some (v, t)"
    and "2 * length (join_with '','' (map (\<lambda>(k, v). json_quote k @ '':'' @ json_render v) ms)) + 3 \<le> n"
  shows "json_members d n (join_with '','' (map (\<lambda>(k, v). json_quote k @ '':'' @ json_render v) ms)
      @ CHR ''}'' # t) = Some (ms, t)"
  using assms
proof (induction ms arbitrary: n)
  case (Cons m ms)
  obtain key v where m: "m = (key, v)" by fastforce
  from Cons.prems obtain k where n: "n = Suc k" by (cases n) auto
  have valid: "valid_utf8 key" using Cons.prems(2) m by simp
  have val: "json_value d k (json_render v @ x) = Some (v, x)" for x
  proof (rule Cons.prems(3)[of key])
    show "(key, v) \<in> set (m # ms)" by (simp add: m)
    show "2 * length (json_render v) + 2 \<le> k" using Cons.prems(4) m n by (cases ms) simp_all
  qed
  show ?case
  proof (cases "ms = []")
    case True
    with val valid show ?thesis by (simp add: m n json_key_render)
  next
    case False
    let ?j = "join_with '','' (map (\<lambda>(k, v). json_quote k @ '':'' @ json_render v) ms)"
    from False have join: "join_with '','' (map (\<lambda>(k, v). json_quote k @ '':'' @ json_render v) (m # ms)) =
        json_quote key @ CHR '':'' # json_render v @ CHR '','' # ?j"
      by (cases ms) (simp_all add: m)
    with Cons.prems(4) n have le: "2 * length ?j + 3 \<le> k" by simp
    have "json_members d k (?j @ CHR ''}'' # t) = Some (ms, t)"
    proof (rule Cons.IH[OF False _ _ le])
      show "\<forall>(k, v)\<in>set ms. valid_utf8 k \<and> json_ok v" using Cons.prems(2) by auto
      show "json_value d n (json_render v @ t) = Some (v, t)"
        if "(k, v) \<in> set ms" "2 * length (json_render v) + 2 \<le> n" for k v n t
        using Cons.prems(3)[of k v n t] that by simp
    qed
    with val valid show ?thesis unfolding join n by (simp add: json_key_render m)
  qed
qed simp

lemma depth_le: "v \<in> set vs \<Longrightarrow> json_depth v \<le> Max (insert 0 (json_depth ` set vs))"
  by (auto intro!: Max_ge)

lemma join_length: "v \<in> set vs \<Longrightarrow> length (f v) \<le> length (join_with w (map f vs))"
proof (induction vs)
  case (Cons a vs)
  then show ?case by (cases vs) auto
qed simp

theorem json_render_parse:
  "json_ok v \<Longrightarrow> d + json_depth v \<le> max_depth \<Longrightarrow> 2 * length (json_render v) + 2 \<le> n \<Longrightarrow>
    json_value d n (json_render v @ t) = Some (v, t)"
proof (induction v arbitrary: d n t rule: json_render.induct)
  case (4 s)
  then obtain k where "n = Suc k" by (cases n) auto
  with 4 show ?case by (simp add: json_value_string del: json_value.simps)
next
  case (5 vs)
  then obtain k where n: "n = Suc k" by (cases n) auto
  show ?case
  proof (cases "vs = []")
    case True
    with "5.prems" n show ?thesis by (simp add: has_prefix_def)
  next
    case False
    let ?j = "join_with '','' (map json_render vs)"
    obtain v us where vs: "vs = v # us" using False by (cases vs) auto
    with "5.prems"(1) obtain c r where "json_render v = c # r" "\<not> json_ws c" "c \<noteq> CHR '']''"
      using json_render_head by fastforce
    then have start: "\<not> has_prefix (skip_ws (?j @ x)) '']''" for x
      by (cases us) (simp_all add: vs has_prefix_def)
    have "json_elems (Suc d) k (?j @ CHR '']'' # t) = Some (vs, t)"
    proof (rule json_elems_render[OF False])
      fix v m x assume v: "v \<in> set vs" "2 * length (json_render v) + 2 \<le> m"
      have "Suc d + json_depth v \<le> max_depth" using "5.prems"(2) depth_le[OF v(1)] by auto
      then show "json_value (Suc d) m (json_render v @ x) = Some (v, x)"
        using "5.IH"[OF v(1)] v "5.prems"(1) by simp
    qed (use "5.prems" n in simp_all)
    with start "5.prems"(2) n show ?thesis by simp
  qed
next
  case (6 ms)
  then obtain k where n: "n = Suc k" by (cases n) auto
  show ?case
  proof (cases "ms = []")
    case True
    with "6.prems" n show ?thesis by (simp add: has_prefix_def)
  next
    case False
    let ?j = "join_with '','' (map (\<lambda>(k, v). json_quote k @ '':'' @ json_render v) ms)"
    have "\<exists>r. ?j = CHR 0x22 # r"
      using False by (cases ms; cases "tl ms") (auto simp: json_quote_def)
    then have start: "\<not> has_prefix (skip_ws (?j @ x)) ''}''" for x
      by (auto simp: has_prefix_def)
    have "json_members (Suc d) k (?j @ CHR ''}'' # t) = Some (ms, t)"
    proof (rule json_members_render[OF False])
      fix key v m x assume v: "(key, v) \<in> set ms" "2 * length (json_render v) + 2 \<le> m"
      have "json_depth v \<le> Max (set (0 # map (\<lambda>(k, v). json_depth v) ms))"
        using v(1) by (auto intro!: Max_ge image_eqI[where x = "(key, v)"])
      then show "json_value (Suc d) m (json_render v @ x) = Some (v, x)"
        using "6.IH"[OF v(1) refl, of "Suc d" m x] v "6.prems"(1,2) by auto
    qed (use "6.prems" n in simp_all)
    with start "6.prems"(2) n show ?thesis by simp
  qed
qed (case_tac n; auto simp: has_prefix_def)+

theorem json_parse_render:
  assumes "json_ok v" "json_depth v \<le> max_depth"
  shows "json_parse (json_render v) = Some v"
  using json_render_parse[of v 0 "json_fuel (json_render v)" "[]"] assms
  by (simp add: json_parse_def json_fuel_def skip_ws_def)

text \<open>A rendered value has no control characters, so in particular no newline.\<close>

definition printable :: "char \<Rightarrow> bool" where
  "printable c \<longleftrightarrow> 0x20 \<le> byte c"

lemma printable_hex [simp]: "n < 16 \<Longrightarrow> printable (hex_digit n)"
  using hex_digit_graphic[of n]
  by (auto simp: printable_def is_digit_def is_lower_def)

lemma printable_escape: "ascii c \<Longrightarrow> d \<in> set (json_escape c) \<Longrightarrow> printable d"
  by (auto simp: json_escape_def hex_byte_def Let_def split: if_splits)
    (auto simp: printable_def byte_def)

lemma printable_body: "d \<in> set (json_body s) \<Longrightarrow> printable d"
proof (induction s rule: json_body.induct)
  case (2 c s)
  show ?case
  proof (cases "ascii c")
    case True
    with 2 printable_escape show ?thesis by auto
  next
    case False
    obtain r w where rw: "decode_rune (c # s) = (r, w)" by fastforce
    have wide: "printable x" if "1 < w" "x \<in> set (take w (c # s))" for x
    proof -
      have "x = c \<or> x \<in> set (take (w - 1) s)" using that by (cases w) auto
      then show ?thesis
        using decode_rune_tail[OF rw] False by (force simp: printable_def ascii_def)
    qed
    have lit: "printable x" if "x \<in> set ''ufffdu202''" for x
      using that by (auto simp: printable_def byte_def)
    have esc: "printable CHR 0x5C" by (simp add: printable_def byte_def)
    from "2.prems" False rw consider "w \<le> 1" "d \<in> set (CHR 0x5C # ''ufffd'') \<or> d \<in> set (json_body s)"
      | "1 < w" "d \<in> set (take w (c # s)) \<or> d \<in> set (CHR 0x5C # ''u202'') \<or> d = hex_digit (r mod 16)
          \<or> d \<in> set (json_body (drop (w - 1) s))"
      by (auto split: if_splits)
    then show ?thesis
    proof cases
      case 1
      with lit esc "2.IH"(2)[OF False rw[symmetric]] show ?thesis by auto
    next
      case 2
      then have "\<not> w \<le> 1" by simp
      then have rest: "d \<in> set (json_body (drop (w - 1) s)) \<Longrightarrow> printable d"
        using "2.IH"(3,4)[OF False rw[symmetric]] by blast
      from 2(2) show ?thesis
        using lit esc wide[OF 2(1)] rest by (elim disjE) auto
    qed
  qed
qed simp

lemma printable_quote: "d \<in> set (json_quote s) \<Longrightarrow> printable d"
  using printable_body by (auto simp: json_quote_def printable_def byte_def)

lemma join_with_set: "d \<in> set (join_with w xs) \<Longrightarrow> d \<in> set w \<or> (\<exists>x\<in>set xs. d \<in> set x)"
  by (induction w xs rule: join_with.induct) auto

lemma printable_chars [simp]:
  "printable CHR ''{''" "printable CHR ''}''" "printable CHR ''[''" "printable CHR '']''"
  "printable CHR '',''" "printable CHR '':''" "printable CHR 0x22"
  by (simp_all add: printable_def byte_def)

lemma printable_render: "json_ok v \<Longrightarrow> d \<in> set (json_render v) \<Longrightarrow> printable d"
proof (induction v rule: json_render.induct)
  case (5 vs)
  then show ?case by (auto dest!: join_with_set)
next
  case (6 ms)
  then show ?case by (auto dest!: join_with_set printable_quote split: prod.splits)
qed (auto simp: printable_def byte_def split: if_splits dest: printable_quote)

section \<open>Struct fields\<close>

text \<open>
  \<open>json.Unmarshal\<close> into a struct: an object's member is decoded into the field whose name
  equals its key up to Unicode simple folding (for the ASCII field names of the program: the
  ASCII cases, the Kelvin sign for k and the long s for s), members of other names are
  skipped, a later member overwrites an earlier one, and \<open>null\<close> leaves the field as it is.
\<close>

function json_fold :: "string \<Rightarrow> string" where
  "json_fold [] = []"
| "json_fold (c # s) =
     (if ascii c then (if is_lower c then char_of (byte c - 32) else c) # json_fold s
      else (case decode_rune (c # s) of (r, w) \<Rightarrow>
        (if r = 0x212A then ''K'' else if r = 0x17F then ''S'' else encode_rune r)
          @ json_fold (drop (w - 1) s)))"
  by pat_completeness auto
termination
  by (relation "measure length") auto

definition json_err :: error where
  "json_err = Ext ''json: cannot unmarshal''"

definition json_members_of :: "string \<Rightarrow> error + (string \<times> json) list" where
  "json_members_of s =
     (case json_parse s of
        Some (JObj ms) \<Rightarrow> Inr ms
      | Some JNull \<Rightarrow> Inr []
      | _ \<Rightarrow> Inl json_err)"

fun json_field ::
    "string \<Rightarrow> (json \<Rightarrow> 'a \<Rightarrow> error + 'a) \<Rightarrow> (string \<times> json) list \<Rightarrow> 'a \<Rightarrow> error + 'a"
where
  "json_field f dec [] x = Inr x"
| "json_field f dec ((k, v) # ms) x =
     (if json_fold k = json_fold f then res_bind (dec v x) (json_field f dec ms)
      else json_field f dec ms x)"

definition as_string :: "json \<Rightarrow> string \<Rightarrow> error + string" where
  "as_string v x = (case v of JNull \<Rightarrow> Inr x | JStr s \<Rightarrow> Inr s | _ \<Rightarrow> Inl json_err)"

definition as_bool :: "json \<Rightarrow> bool \<Rightarrow> error + bool" where
  "as_bool v x = (case v of JNull \<Rightarrow> Inr x | JBool b \<Rightarrow> Inr b | _ \<Rightarrow> Inl json_err)"

text \<open>An \<open>int\<close> field takes an integer literal that fits 64 bits.\<close>

definition int_literal :: "string \<Rightarrow> int option" where
  "int_literal s =
     (let neg = has_prefix s ''-''; ds = (if neg then tl s else s);
          n = (if neg then - int (digits_val 0 ds) else int (digits_val 0 ds)) in
      if ds \<noteq> [] \<and> (\<forall>c\<in>set ds. is_digit c) \<and> - (2 ^ 63) \<le> n \<and> n < 2 ^ 63 then Some n else None)"

definition as_int :: "json \<Rightarrow> int \<Rightarrow> error + int" where
  "as_int v x =
     (case v of
        JNull \<Rightarrow> Inr x
      | JNum s \<Rightarrow> (case int_literal s of Some n \<Rightarrow> Inr n | None \<Rightarrow> Inl json_err)
      | _ \<Rightarrow> Inl json_err)"

text \<open>A JSON array of strings, decoded into the list a repeated member has left.\<close>

fun dec_strings :: "json list \<Rightarrow> string list \<Rightarrow> error + string list" where
  "dec_strings [] old = Inr []"
| "dec_strings (v # vs) old =
     res_bind (as_string v (case old of [] \<Rightarrow> [] | x # r \<Rightarrow> x)) (\<lambda>s.
     res_bind (dec_strings vs (drop 1 old)) (\<lambda>ss. Inr (s # ss)))"

definition as_strings :: "json \<Rightarrow> string list \<Rightarrow> error + string list" where
  "as_strings v x = (case v of JNull \<Rightarrow> Inr [] | JArr vs \<Rightarrow> dec_strings vs x | _ \<Rightarrow> Inl json_err)"

end
