(* ===== verification/Authn.thy ===== *)
theory Authn
  imports Json
begin

text \<open>
  Package \<open>internal/authn\<close> with its \<open>mtls\<close> and \<open>token\<close> providers: identities, the context values
  a request carries, the provider registry, the two gRPC interceptors and the two stateless
  authenticators. An authenticator is a record of functions, as the Go interface is; it may
  read and change the world \<open>'w\<close> (the OIDC provider does). SHA-256 is a parameter.

  The locale \<open>factory_registry\<close> states what \<open>main\<close> relies on when it registers providers; the
  registries of this package and of \<open>authz\<close> are its interpretations.
\<close>

section \<open>Identities and request contexts\<close>

record identity =
  id_name :: string
  id_groups :: "string list"
  id_meta :: "string \<rightharpoonup> string"

definition no_identity :: identity where
  "no_identity = \<lparr>id_name = [], id_groups = [], id_meta = Map.empty\<rparr>"

text \<open>
  What the code reads of a verified X.509 certificate, and of a peer: its address and, when
  the connection is TLS, the verified chains.
\<close>

record cert =
  cert_cn :: string
  cert_org :: "string list"
  cert_serial :: string
  cert_not_after :: string

datatype auth_info = NoAuth | TLSInfo "cert list list"

record peer =
  peer_addr :: string
  peer_auth :: auth_info

text \<open>
  The context of a request: the peer and the incoming metadata (keys in lower case) gRPC puts
  there, and the identity \<open>ContextWithIdentity\<close> puts there.
\<close>

record ctx =
  ctx_peer :: "peer option"
  ctx_metadata :: "(string \<rightharpoonup> string list) option"
  ctx_identity :: "identity option"

definition IdentityFromContext :: "'x ctx_scheme \<Rightarrow> identity option" where
  "IdentityFromContext c = ctx_identity c"

definition ContextWithIdentity :: "'x ctx_scheme \<Rightarrow> identity \<Rightarrow> 'x ctx_scheme" where
  "ContextWithIdentity c i = c\<lparr>ctx_identity := Some i\<rparr>"

lemma identity_of_ContextWithIdentity [simp]:
  "IdentityFromContext (ContextWithIdentity c i) = Some i"
  by (simp add: IdentityFromContext_def ContextWithIdentity_def)

section \<open>The registry\<close>

text \<open>
  \<open>factories\<close> is a Go map; \<open>order\<close> is the order in which Go happens to range over its keys
  when \<open>Names\<close> collects them for the error message.
\<close>

definition Register :: "string \<Rightarrow> 'f \<Rightarrow> (string \<rightharpoonup> 'f) \<Rightarrow> error option \<times> (string \<rightharpoonup> 'f)" where
  "Register name f r =
     (case r name of
        Some g \<Rightarrow> (Some (MsgQ ''authenticator already registered: '' name []), r)
      | None \<Rightarrow> (None, r(name \<mapsto> f)))"

definition Names :: "(string set \<Rightarrow> string list) \<Rightarrow> (string \<rightharpoonup> 'f) \<Rightarrow> string list" where
  "Names order r = order (dom r)"

definition Create ::
    "(string set \<Rightarrow> string list) \<Rightarrow> (string \<rightharpoonup> (string option \<Rightarrow> error + 'a)) \<Rightarrow> string \<Rightarrow>
     string option \<Rightarrow> error + 'a" where
  "Create order r name cfg =
     (case r name of
        None \<Rightarrow> Inl (MsgQ ''unknown authenticator: '' name
                  ('' (registered: ['' @ join_with '' '' (Names order r) @ ''])''))
      | Some factory \<Rightarrow> factory cfg)"

text \<open>
  The contract of a registry, over a function that registers and one that looks up: a name
  keeps its first factory for ever, and registering a taken name is an error.
\<close>

locale factory_registry =
  fixes register :: "string \<Rightarrow> 'f \<Rightarrow> 'r \<Rightarrow> error option \<times> 'r"
    and lookup :: "'r \<Rightarrow> string \<Rightarrow> 'f option"
  assumes fresh: "lookup r n = None \<Longrightarrow> fst (register n f r) = None"
    and inserted: "lookup r n = None \<Longrightarrow> lookup (snd (register n f r)) m = (if m = n then Some f else lookup r m)"
    and taken: "lookup r n = Some g \<Longrightarrow> (\<exists>e. register n f r = (Some e, r))"
begin

text \<open>A list of registrations, as \<open>main\<close> makes them, one after the other.\<close>

primrec register_all :: "(string \<times> 'f) list \<Rightarrow> 'r \<Rightarrow> 'r" where
  "register_all [] r = r"
| "register_all (x # xs) r = register_all xs (snd (register (fst x) (snd x) r))"

lemma register_keeps: "lookup r m = Some g \<Longrightarrow> lookup (snd (register n f r)) m = Some g"
  by (cases "lookup r n") (auto simp: inserted dest: taken[of _ _ _ f])

lemma register_none: "lookup r m = None \<Longrightarrow> m \<noteq> n \<Longrightarrow> lookup (snd (register n f r)) m = None"
  by (cases "lookup r n") (auto simp: inserted dest: taken[of _ _ _ f])

lemma register_all_keeps: "lookup r m = Some g \<Longrightarrow> lookup (register_all xs r) m = Some g"
  by (induction xs arbitrary: r) (auto simp: register_keeps)

theorem register_all_lookup:
  "lookup r m = None \<Longrightarrow> lookup (register_all xs r) m = map_of xs m"
proof (induction xs arbitrary: r)
  case (Cons x xs)
  then show ?case
    by (cases x, cases "m = fst x") (auto simp: inserted register_none register_all_keeps)
qed simp

end

interpretation authn_registry: factory_registry Register "\<lambda>r. r"
  by unfold_locales (auto simp: Register_def split: option.splits)

section \<open>The interceptors\<close>

text \<open>
  A unary handler takes the context and the request and returns the response or an error; a
  stream handler takes the stream, of which only the context matters here. Both run in the
  world \<open>'w\<close> and may panic.
\<close>

record ('c, 'w) authenticator =
  authn_name :: string
  authenticate :: "'c \<Rightarrow> 'w \<Rightarrow> (error + identity) \<times> 'w"

type_synonym ('c, 'q, 'r, 'w) unary_handler = "'c \<Rightarrow> 'q \<Rightarrow> 'w \<Rightarrow> ((error + 'r) \<times> 'w) go"
type_synonym ('c, 'w) stream_handler = "'c \<Rightarrow> 'w \<Rightarrow> (error option \<times> 'w) go"

definition UnaryInterceptor ::
    "('x ctx_scheme, 'w) authenticator \<Rightarrow> (string \<Rightarrow> bool) \<Rightarrow> 'x ctx_scheme \<Rightarrow> 'q \<Rightarrow> string \<Rightarrow>
     ('x ctx_scheme, 'q, 'r, 'w) unary_handler \<Rightarrow> 'w \<Rightarrow> ((error + 'r) \<times> 'w) go" where
  "UnaryInterceptor auth skip c req full_method handler w =
     (if skip full_method then handler c req w
      else (case authenticate auth c w of
          (Inl e, w') \<Rightarrow> Ret (Inl (StatusOf Unauthenticated ''authentication failed'' e), w')
        | (Inr i, w') \<Rightarrow> handler (ContextWithIdentity c i) req w'))"

definition StreamInterceptor ::
    "('x ctx_scheme, 'w) authenticator \<Rightarrow> (string \<Rightarrow> bool) \<Rightarrow> 'x ctx_scheme \<Rightarrow> string \<Rightarrow>
     ('x ctx_scheme, 'w) stream_handler \<Rightarrow> 'w \<Rightarrow> (error option \<times> 'w) go" where
  "StreamInterceptor auth skip c full_method handler w =
     (if skip full_method then handler c w
      else (case authenticate auth c w of
          (Inl e, w') \<Rightarrow> Ret (Some (StatusOf Unauthenticated ''authentication failed'' e), w')
        | (Inr i, w') \<Rightarrow> handler (ContextWithIdentity c i) w'))"

section \<open>Mutual TLS\<close>

definition mtls_authenticate :: "'x ctx_scheme \<Rightarrow> error + identity" where
  "mtls_authenticate c =
     (case ctx_peer c of
        None \<Rightarrow> Inl (Msg ''no peer in context'')
      | Some p \<Rightarrow>
          (case peer_auth p of
             NoAuth \<Rightarrow> Inl (Msg ''no TLS info in peer'')
           | TLSInfo ((leaf # ch) # chs) \<Rightarrow>
               Inr \<lparr>id_name = cert_cn leaf, id_groups = cert_org leaf,
                    id_meta = [''provider'' \<mapsto> ''mtls'', ''serial'' \<mapsto> cert_serial leaf,
                               ''not_after'' \<mapsto> cert_not_after leaf]\<rparr>
           | TLSInfo _ \<Rightarrow> Inl (Msg ''no verified client certificate'')))"

definition mtls_new :: "string option \<Rightarrow> error + ('x ctx_scheme, 'w) authenticator" where
  "mtls_new cfg = Inr \<lparr>authn_name = ''mtls'', authenticate = (\<lambda>c w. (mtls_authenticate c, w))\<rparr>"

section \<open>Bearer tokens\<close>

record token_provider =
  token_hash :: string

text \<open>\<open>json.Unmarshal\<close> of \<open>token.Config\<close>.\<close>

definition token_config :: "string option \<Rightarrow> error + string" where
  "token_config cfg =
     (case cfg of
        None \<Rightarrow> Inr []
      | Some s \<Rightarrow> wrap_err ''parse token config''
          (res_bind (json_members_of s) (\<lambda>ms. json_field ''token_hash'' as_string ms [])))"

definition token_new :: "string option \<Rightarrow> error + token_provider" where
  "token_new cfg =
     res_bind (token_config cfg) (\<lambda>th.
       if th = [] then Inl (Msg ''token_hash required'')
       else (case hex_decode (trim_prefix th ''sha256:'') of
           None \<Rightarrow> Inl (Wrap ''decode token hash'' (Ext ''encoding/hex''))
         | Some h \<Rightarrow> Inr \<lparr>token_hash = h\<rparr>))"

text \<open>\<open>subtle.ConstantTimeCompare\<close> compares contents, and lengths first.\<close>

definition constant_time_eq :: "string \<Rightarrow> string \<Rightarrow> bool" where
  "constant_time_eq x y \<longleftrightarrow> length x = length y \<and> (\<forall>i<length x. x ! i = y ! i)"

definition bearer :: "string \<Rightarrow> string" where
  "bearer v = trim_prefix (trim_prefix v ''Bearer '') ''bearer ''"

definition token_authenticate ::
    "(string \<Rightarrow> string) \<Rightarrow> token_provider \<Rightarrow> 'x ctx_scheme \<Rightarrow> error + identity" where
  "token_authenticate sha256 p c =
     (case ctx_metadata c of
        None \<Rightarrow> Inl (Msg ''no metadata in context'')
      | Some md \<Rightarrow>
          (case md ''authorization'' of
             None \<Rightarrow> Inl (Msg ''no authorization header'')
           | Some [] \<Rightarrow> Inl (Msg ''no authorization header'')
           | Some (v # vs) \<Rightarrow>
               if bearer v = v then Inl (Msg ''authorization header must use Bearer scheme'')
               else if \<not> constant_time_eq (sha256 (bearer v)) (token_hash p)
               then Inl (Msg ''invalid token'')
               else Inr \<lparr>id_name = ''bearer-token'', id_groups = [],
                         id_meta = [''provider'' \<mapsto> ''token'']\<rparr>))"

definition HashToken :: "(string \<Rightarrow> string) \<Rightarrow> string \<Rightarrow> string" where
  "HashToken sha256 t = ''sha256:'' @ hex_encode (sha256 t)"

section \<open>Facts\<close>

lemma constant_time_eq_iff [simp]: "constant_time_eq x y \<longleftrightarrow> x = y"
  by (auto simp: constant_time_eq_def intro: nth_equalityI)

lemma bearer_Bearer [simp]: "bearer (''Bearer '' @ t) = trim_prefix t ''bearer ''"
  using trim_prefix_append[of "''Bearer ''" t] by (simp add: bearer_def)

text \<open>The hash the bootstrap step writes is the one \<open>token.New\<close> reads.\<close>

lemma hash_token_decode:
  "hex_decode (trim_prefix (HashToken sha256 t) ''sha256:'') = Some (sha256 t)"
  unfolding HashToken_def trim_prefix_append by (rule hex_decode_encode)

lemma trim_prefix_changes: "p \<noteq> [] \<Longrightarrow> trim_prefix v p \<noteq> v \<longleftrightarrow> has_prefix v p"
  by (auto simp: trim_prefix_def has_prefix_def prefix_def)

lemma trim_prefix_length: "length (trim_prefix v p) \<le> length v"
  by (simp add: trim_prefix_def)

lemma bearer_changes: "bearer v \<noteq> v \<longleftrightarrow> has_prefix v ''Bearer '' \<or> has_prefix v ''bearer ''"
proof (cases "has_prefix v ''Bearer ''")
  case True
  then obtain t where "v = ''Bearer '' @ t" by (auto simp: has_prefix_iff)
  then have "length (bearer v) < length v"
    using trim_prefix_length[of t "''bearer ''"] bearer_Bearer[of t] by simp
  with True show ?thesis by auto
next
  case False
  then have "trim_prefix v ''Bearer '' = v" using trim_prefix_changes[of "''Bearer ''" v] by auto
  then show ?thesis using False trim_prefix_changes[of "''bearer ''" v] by (simp add: bearer_def)
qed

section \<open>Properties\<close>

text \<open>
  the token provider accepts a request exactly when its first \<open>authorization\<close> value has the Bearer
  scheme (either capitalisation) and the SHA-256 of the rest is the configured hash; every caller gets the
  same identity.
\<close>

theorem token_authenticate_iff:
  "token_authenticate sha256 p c = Inr i \<longleftrightarrow>
     i = \<lparr>id_name = ''bearer-token'', id_groups = [], id_meta = [''provider'' \<mapsto> ''token'']\<rparr>
     \<and> (\<exists>md v vs. ctx_metadata c = Some md \<and> md ''authorization'' = Some (v # vs)
          \<and> (has_prefix v ''Bearer '' \<or> has_prefix v ''bearer '') \<and> sha256 (bearer v) = token_hash p)"
proof (cases "ctx_metadata c")
  case (Some md)
  show ?thesis
  proof (cases "md ''authorization''")
    case (Some l)
    with \<open>ctx_metadata c = Some md\<close> show ?thesis
      by (cases l) (auto simp: token_authenticate_def bearer_changes[symmetric])
  qed (simp add: token_authenticate_def Some)
qed (simp add: token_authenticate_def)

text \<open>
  the provider configured with the hash that \<open>HashToken\<close> prints accepts that token in an
  \<open>authorization: Bearer\<close> header, unless the token itself starts with the word \<open>bearer\<close> and a space.
\<close>

theorem token_config_roundtrip:
  assumes "\<not> has_prefix t ''bearer ''" "md ''authorization'' = Some ((''Bearer '' @ t) # vs)"
    and "ctx_metadata c = Some md"
  shows "\<exists>p i. token_new (Some (json_render (JObj [(''token_hash'', JStr (HashToken sha256 t))]))) = Inr p
    \<and> token_authenticate sha256 p c = Inr i"
proof -
  have ascii: "\<forall>c\<in>set (HashToken sha256 t). ascii c"
  proof -
    have "\<forall>c\<in>set (hex_encode (sha256 t)). ascii c"
      using hex_encode_alnum alnum_graphic by (fastforce simp: graphic_def ascii_def)
    then show ?thesis by (auto simp: HashToken_def ascii_def byte_def)
  qed
  have utf8: "\<forall>c\<in>set s. ascii c \<Longrightarrow> valid_utf8 s" for s
    by (induction s) auto
  have key: "json_fold ''token_hash'' = ''TOKEN_HASH''" by code_simp
  have "json_ok (JObj [(''token_hash'', JStr (HashToken sha256 t))])"
    using utf8[OF ascii] utf8[of "''token_hash''"] by (simp add: ascii_def byte_def)
  moreover have "json_depth (JObj [(''token_hash'', JStr (HashToken sha256 t))]) \<le> max_depth"
    by (simp add: max_depth_def)
  ultimately have "json_parse (json_render (JObj [(''token_hash'', JStr (HashToken sha256 t))])) =
      Some (JObj [(''token_hash'', JStr (HashToken sha256 t))])"
    by (rule json_parse_render)
  then have "token_config (Some (json_render (JObj [(''token_hash'', JStr (HashToken sha256 t))]))) =
      Inr (HashToken sha256 t)"
    by (simp add: token_config_def json_members_of_def as_string_def del: json_render.simps)
  then have "token_new (Some (json_render (JObj [(''token_hash'', JStr (HashToken sha256 t))]))) =
      Inr \<lparr>token_hash = sha256 t\<rparr>"
    using hash_token_decode[of sha256 t]
    by (simp add: token_new_def del: json_render.simps) (simp add: HashToken_def)
  moreover have "bearer (''Bearer '' @ t) = t"
    using assms(1) trim_prefix_changes[of "''bearer ''" t] by (simp only: bearer_Bearer) auto
  then have "\<exists>i. token_authenticate sha256 \<lparr>token_hash = sha256 t\<rparr> c = Inr i"
    using assms(2,3) has_prefix_append[of "''Bearer ''" t]
    unfolding token_authenticate_iff by (auto simp del: append.simps has_prefix_append)
  ultimately show ?thesis by blast
qed

theorem token_config_roundtrip_witness:
  "\<exists>p i. token_new (Some (json_render (JObj [(''token_hash'', JStr (HashToken (\<lambda>x. x) ''s3cret''))]))) = Inr p
    \<and> token_authenticate (\<lambda>x. x) p
        \<lparr>ctx_peer = None, ctx_metadata = Some [''authorization'' \<mapsto> [''Bearer s3cret'']], ctx_identity = None\<rparr> = Inr i"
  by (rule token_config_roundtrip[where md = "[''authorization'' \<mapsto> [''Bearer s3cret'']]" and vs = "[]"])
    (simp_all add: has_prefix_def)

end
