(* ===== verification/Authz.thy ===== *)
theory Authz
  imports Authn
begin

text \<open>
  Package \<open>internal/authz\<close> with its \<open>cedar\<close> provider: resources and their validation, the
  authorization context of a request and its \<open>CheckAccess\<close>, the method-to-resource map, the
  registry, the two gRPC interceptors, \<open>AllowAll\<close> and the Cedar adapter. A decision is an
  integer, as in the code (\<open>Deny\<close> is 0, \<open>Allow\<close> is 1; anything but \<open>Allow\<close> is refused).
  The Cedar library (its policy parser and its evaluator) and the policy directory are
  parameters.
\<close>

section \<open>Resources\<close>

record resource =
  r_type :: string
  r_id :: string

definition ResourceNode :: string where "ResourceNode = ''Node''"
definition ResourceService :: string where "ResourceService = ''Service''"
definition ResourceImage :: string where "ResourceImage = ''Image''"
definition ResourceConfig :: string where "ResourceConfig = ''Config''"
definition ResourcePath :: string where "ResourcePath = ''Path''"

lemmas resource_types =
  ResourceNode_def ResourceService_def ResourceImage_def ResourceConfig_def ResourcePath_def

definition resource_string :: "unicode \<Rightarrow> resource \<Rightarrow> string" where
  "resource_string uc r = r_type r @ ''::'' @ go_quote uc (r_id r)"

definition resource_validate :: "resource \<Rightarrow> error option" where
  "resource_validate r =
     (if r_type r = [] then Some (Msg ''resource type required'')
      else if r_id r = [] then Some (Msg ''resource ID required'')
      else if r_type r \<in> {ResourceNode, ResourceService, ResourceImage, ResourceConfig, ResourcePath}
      then None
      else Some (MsgQ ''unknown resource type: '' (r_type r) []))"

definition NodeResource :: "string \<Rightarrow> resource" where
  "NodeResource i = \<lparr>r_type = ResourceNode, r_id = i\<rparr>"
definition ServiceResource :: "string \<Rightarrow> resource" where
  "ServiceResource n = \<lparr>r_type = ResourceService, r_id = n\<rparr>"
definition ImageResource :: "string \<Rightarrow> resource" where
  "ImageResource n = \<lparr>r_type = ResourceImage, r_id = n\<rparr>"
definition ConfigResource :: "string \<Rightarrow> resource" where
  "ConfigResource k = \<lparr>r_type = ResourceConfig, r_id = k\<rparr>"
definition PathResource :: "string \<Rightarrow> resource" where
  "PathResource p = \<lparr>r_type = ResourcePath, r_id = p\<rparr>"
definition ThisNode :: resource where
  "ThisNode = \<lparr>r_type = ResourceNode, r_id = ''*''\<rparr>"

lemma resource_validate_None_iff:
  "resource_validate r = None \<longleftrightarrow>
     r_id r \<noteq> [] \<and> r_type r \<in> {ResourceNode, ResourceService, ResourceImage, ResourceConfig, ResourcePath}"
  by (auto simp: resource_validate_def resource_types)

lemma this_node_valid [simp]: "resource_validate ThisNode = None"
  by (simp add: resource_validate_None_iff ThisNode_def)

section \<open>Authorizers and the authorization context\<close>

definition Deny :: int where "Deny = 0"
definition Allow :: int where "Allow = 1"

text \<open>An authorizer sees the request's base context: its peer, metadata and identity.\<close>

record authorizer =
  az_name :: string
  authorize :: "ctx \<Rightarrow> identity \<Rightarrow> string \<Rightarrow> resource \<Rightarrow> error + int"

record authz_context =
  ac_az :: "authorizer option"
  ac_identity :: identity
  ac_action :: string

record rctx = ctx +
  ctx_authz :: "authz_context option"
  ctx_checked :: bool

definition NewContext :: "authorizer option \<Rightarrow> identity \<Rightarrow> string \<Rightarrow> authz_context" where
  "NewContext az i a = \<lparr>ac_az = az, ac_identity = i, ac_action = a\<rparr>"

definition ContextFrom :: "rctx \<Rightarrow> authz_context option" where
  "ContextFrom c = ctx_authz c"

definition ContextWith :: "rctx \<Rightarrow> authz_context \<Rightarrow> rctx" where
  "ContextWith c ac = c\<lparr>ctx_authz := Some ac\<rparr>"

definition ResourceChecked :: "rctx \<Rightarrow> bool" where
  "ResourceChecked c = ctx_checked c"

definition MarkResourceChecked :: "rctx \<Rightarrow> rctx" where
  "MarkResourceChecked c = c\<lparr>ctx_checked := True\<rparr>"

definition CheckAccess :: "unicode \<Rightarrow> authz_context \<Rightarrow> rctx \<Rightarrow> resource \<Rightarrow> error option" where
  "CheckAccess uc ac c res =
     (case resource_validate res of
        Some e \<Rightarrow> Some (StatusOf InvalidArgument ''invalid resource'' e)
      | None \<Rightarrow>
          (case ac_az ac of
             None \<Rightarrow> None
           | Some az \<Rightarrow>
               (case authorize az (ctx.truncate c) (ac_identity ac) (ac_action ac) res of
                  Inl e \<Rightarrow> Some (Status Internal ''authorization error'')
                | Inr d \<Rightarrow>
                    if d \<noteq> Allow
                    then Some (Status PermissionDenied (''access denied to '' @ resource_string uc res))
                    else None)))"

definition MustCheckAccess :: "unicode \<Rightarrow> rctx \<Rightarrow> resource \<Rightarrow> error option" where
  "MustCheckAccess uc c res =
     (case ContextFrom c of
        None \<Rightarrow> Some (Msg ''no authorization context'')
      | Some ac \<Rightarrow> CheckAccess uc ac c res)"

section \<open>The resource map and the registry\<close>

definition rm_register ::
    "string \<Rightarrow> ('q \<Rightarrow> resource) \<Rightarrow> (string \<rightharpoonup> 'q \<Rightarrow> resource) \<Rightarrow> (string \<rightharpoonup> 'q \<Rightarrow> resource)" where
  "rm_register m f rm = rm(m \<mapsto> f)"

definition Extract :: "(string \<rightharpoonup> 'q \<Rightarrow> resource) \<Rightarrow> string \<Rightarrow> 'q \<Rightarrow> resource" where
  "Extract rm m req = (case rm m of None \<Rightarrow> ThisNode | Some f \<Rightarrow> f req)"

definition authz_Register :: "string \<Rightarrow> 'f \<Rightarrow> (string \<rightharpoonup> 'f) \<Rightarrow> error option \<times> (string \<rightharpoonup> 'f)" where
  "authz_Register name f r =
     (case r name of
        Some g \<Rightarrow> (Some (MsgQ ''authorizer already registered: '' name []), r)
      | None \<Rightarrow> (None, r(name \<mapsto> f)))"

definition authz_Names :: "(string set \<Rightarrow> string list) \<Rightarrow> (string \<rightharpoonup> 'f) \<Rightarrow> string list" where
  "authz_Names order r = order (dom r)"

definition authz_Create ::
    "(string set \<Rightarrow> string list) \<Rightarrow> (string \<rightharpoonup> (string option \<Rightarrow> error + 'a)) \<Rightarrow> string \<Rightarrow>
     string option \<Rightarrow> error + 'a" where
  "authz_Create order r name cfg =
     (case r name of
        None \<Rightarrow> Inl (MsgQ ''unknown authorizer: '' name
                  ('' (registered: ['' @ join_with '' '' (authz_Names order r) @ ''])''))
      | Some factory \<Rightarrow> factory cfg)"

interpretation authz_registry: factory_registry authz_Register "\<lambda>r. r"
  by unfold_locales (auto simp: authz_Register_def split: option.splits)

section \<open>The interceptors\<close>

definition authz_UnaryInterceptor ::
    "authorizer \<Rightarrow> (string \<rightharpoonup> 'q \<Rightarrow> resource) option \<Rightarrow> rctx \<Rightarrow> 'q \<Rightarrow> string \<Rightarrow>
     (rctx, 'q, 'r, 'w) unary_handler \<Rightarrow> 'w \<Rightarrow> ((error + 'r) \<times> 'w) go" where
  "authz_UnaryInterceptor az resources c req full_method handler w =
     (case IdentityFromContext c of
        None \<Rightarrow> Ret (Inl (Status Unauthenticated ''no identity in context''), w)
      | Some i \<Rightarrow>
          (let res = (case resources of None \<Rightarrow> ThisNode | Some rm \<Rightarrow> Extract rm full_method req) in
           case authorize az (ctx.truncate c) i full_method res of
             Inl e \<Rightarrow> Ret (Inl (Status Internal ''authorization error''), w)
           | Inr d \<Rightarrow>
               if d \<noteq> Allow then Ret (Inl (Status PermissionDenied ''access denied''), w)
               else handler (ContextWith c (NewContext (Some az) i full_method)) req w))"

definition authz_StreamInterceptor ::
    "authorizer \<Rightarrow> rctx \<Rightarrow> string \<Rightarrow> (rctx, 'w) stream_handler \<Rightarrow> 'w \<Rightarrow> (error option \<times> 'w) go" where
  "authz_StreamInterceptor az c full_method handler w =
     (case IdentityFromContext c of
        None \<Rightarrow> Ret (Some (Status Unauthenticated ''no identity in context''), w)
      | Some i \<Rightarrow>
          (case authorize az (ctx.truncate c) i full_method ThisNode of
             Inl e \<Rightarrow> Ret (Some (Status Internal ''authorization error''), w)
           | Inr d \<Rightarrow>
               if d \<noteq> Allow then Ret (Some (Status PermissionDenied ''access denied''), w)
               else handler (ContextWith c (NewContext (Some az) i full_method)) w))"

definition AllowAll :: authorizer where
  "AllowAll = \<lparr>az_name = ''allow-all'', authorize = (\<lambda>c i a r. Inr Allow)\<rparr>"

definition NewAllowAll :: "string option \<Rightarrow> error + authorizer" where
  "NewAllowAll cfg = Inr AllowAll"

end
