(* ===== verification/Files.thy ===== *)
theory Files
  imports Go_Strings "HOL-Library.AList"
begin

text \<open>
  The operating system's files as the code sees them through package \<open>os\<close>: files by cleaned
  path, directories, and a fault oracle. Every call takes the next entry of the oracle, which
  may make it fail, and a failing \<open>os.WriteFile\<close> may leave a truncated file. Modification times
  come from the field \<open>fs_now\<close>. \<open>filepath.Clean\<close> and \<open>filepath.Join\<close> are here too. The lemmas
  about a \<open>calm\<close> file system (no faults to come) and the frame lemmas (what an operation leaves
  alone) are the ones the component proofs use.
\<close>

section \<open>Paths\<close>

text \<open>
  \<open>filepath.Clean\<close> works on the elements between slashes: empty and \<open>.\<close> elements go away and
  \<open>..\<close> removes the element before it (or stays, in a relative path; or goes, at the root).
\<close>

fun clean_elems :: "bool \<Rightarrow> string list \<Rightarrow> string list \<Rightarrow> string list" where
  "clean_elems rooted acc [] = rev acc"
| "clean_elems rooted acc (e # es) =
     (if e = [] \<or> e = ''.'' then clean_elems rooted acc es
      else if e = ''..'' then
        (case acc of
           [] \<Rightarrow> clean_elems rooted (if rooted then [] else [e]) es
         | a # as \<Rightarrow> if a = ''..'' then clean_elems rooted (e # acc) es else clean_elems rooted as es)
      else clean_elems rooted (e # acc) es)"

definition path_clean :: "string \<Rightarrow> string" where
  "path_clean p =
     (if p = [] then ''.''
      else let rooted = has_prefix p ''/'';
               q = join_with ''/'' (clean_elems rooted [] (split_on CHR ''/'' p)) in
        if rooted then CHR ''/'' # q else if q = [] then ''.'' else q)"

text \<open>\<open>filepath.Join\<close> of two elements: empty elements are ignored.\<close>

definition path_join :: "string \<Rightarrow> string \<Rightarrow> string" where
  "path_join d f =
     (if d = [] \<and> f = [] then []
      else if d = [] then path_clean f
      else if f = [] then path_clean d
      else path_clean (d @ ''/'' @ f))"

text \<open>The directory of a cleaned path.\<close>

definition path_dir :: "string \<Rightarrow> string" where
  "path_dir p =
     (let d = rev (dropWhile (\<lambda>c. c \<noteq> CHR ''/'') (rev p)) in
      if d = [] then ''.'' else if d = ''/'' then ''/'' else butlast d)"

definition path_base :: "string \<Rightarrow> string" where
  "path_base p = rev (takeWhile (\<lambda>c. c \<noteq> CHR ''/'') (rev p))"

text \<open>
  Joining a directory with a plain name appends the name to a prefix that depends on the
  directory only, so that different names give different paths in one directory.
\<close>

definition plain_name :: "string \<Rightarrow> bool" where
  "plain_name f \<longleftrightarrow> f \<noteq> [] \<and> f \<noteq> ''.'' \<and> f \<noteq> ''..'' \<and> CHR ''/'' \<notin> set f"

definition dir_prefix :: "string \<Rightarrow> string" where
  "dir_prefix d =
     (if d = [] then []
      else let E = clean_elems (has_prefix d ''/'') [] (split_on CHR ''/'' d) in
        (if has_prefix d ''/'' then ''/'' else []) @ (if E = [] then [] else join_with ''/'' E @ ''/''))"

lemma clean_elems_snoc:
  "plain_name f \<Longrightarrow> clean_elems r acc (es @ [f]) = clean_elems r acc es @ [f]"
  by (induction r acc es rule: clean_elems.induct) (auto simp: plain_name_def split: list.splits)

lemma split_on_snoc: "c \<notin> set f \<Longrightarrow> split_on c (d @ c # f) = split_on c d @ [f]"
  by (induction c d rule: split_on.induct) (auto simp: split_on_single split: list.splits)

lemma join_with_snoc:
  "join_with w (E @ [f]) = (if E = [] then f else join_with w E @ w @ f)"
  by (induction w E rule: join_with.induct) auto

lemma path_join_plain:
  assumes "plain_name f"
  shows "path_join d f = dir_prefix d @ f"
proof (cases "d = []")
  case True
  from assms have "split_on CHR ''/'' f = [f]" "\<not> has_prefix f ''/''"
    by (auto simp: plain_name_def split_on_single has_prefix_iff)
  with assms True show ?thesis
    by (simp add: path_join_def path_clean_def dir_prefix_def plain_name_def)
next
  case False
  have "has_prefix (d @ x) ''/'' = has_prefix d ''/''" for x
    using False by (cases d) (auto simp: has_prefix_iff)
  with assms False show ?thesis
    by (auto simp: path_join_def path_clean_def dir_prefix_def Let_def plain_name_def split_on_snoc
        clean_elems_snoc join_with_snoc)
qed

lemma path_join_inject [simp, go_string]:
  "plain_name f \<Longrightarrow> plain_name g \<Longrightarrow> path_join d f = path_join d g \<longleftrightarrow> f = g"
  by (simp add: path_join_plain)

lemma path_dir_join:
  "plain_name f \<Longrightarrow> plain_name g \<Longrightarrow> path_dir (path_join d f) = path_dir (path_join d g)"
  by (simp add: path_join_plain path_dir_def dropWhile_append plain_name_def cong: conj_cong)

lemma path_base_join [simp, go_string]: "plain_name f \<Longrightarrow> path_base (path_join d f) = f"
  by (auto simp: path_join_plain path_base_def plain_name_def takeWhile_append dir_prefix_def Let_def)

section \<open>File systems\<close>

datatype fault = NoFault | Fault error | Partial nat error

record entry =
  f_data :: string
  f_time :: int

record fs =
  fs_files :: "(string \<times> entry) list"
  fs_dirs :: "string list"
  fs_now :: int
  fs_faults :: "fault list"

text \<open>The oracle is a list: an exhausted oracle means no more faults.\<close>

definition next_fault :: "fs \<Rightarrow> fault" where
  "next_fault s = (case fs_faults s of [] \<Rightarrow> NoFault | f # fs \<Rightarrow> f)"

definition tick :: "fs \<Rightarrow> fs" where
  "tick s = s\<lparr>fs_faults := tl (fs_faults s)\<rparr>"

definition calm :: "fs \<Rightarrow> bool" where
  "calm s \<longleftrightarrow> fs_faults s = []"

definition ErrNotExist :: error where
  "ErrNotExist = Ext ''file does not exist''"

definition ErrIsDir :: error where
  "ErrIsDir = Ext ''is a directory''"

definition IsNotExist :: "error \<Rightarrow> bool" where
  "IsNotExist e \<longleftrightarrow> e = ErrNotExist"

definition file_at :: "fs \<Rightarrow> string \<Rightarrow> string option" where
  "file_at s p = map_option f_data (map_of (fs_files s) p)"

definition is_dir :: "fs \<Rightarrow> string \<Rightarrow> bool" where
  "is_dir s p \<longleftrightarrow> p \<in> set (fs_dirs s)"

definition put_file :: "string \<Rightarrow> string \<Rightarrow> fs \<Rightarrow> fs" where
  "put_file p d s = s\<lparr>fs_files := AList.update p \<lparr>f_data = d, f_time = fs_now s\<rparr> (fs_files s)\<rparr>"

definition del_file :: "string \<Rightarrow> fs \<Rightarrow> fs" where
  "del_file p s = s\<lparr>fs_files := AList.delete p (fs_files s)\<rparr>"

section \<open>Operations\<close>

definition ReadFile :: "string \<Rightarrow> fs \<Rightarrow> (error + string) \<times> fs" where
  "ReadFile p s =
     ((case next_fault s of
         Fault e \<Rightarrow> Inl e
       | Partial n e \<Rightarrow> Inl e
       | NoFault \<Rightarrow> (case file_at s p of None \<Rightarrow> Inl (if is_dir s p then ErrIsDir else ErrNotExist) | Some d \<Rightarrow> Inr d)),
      tick s)"

definition WriteFile :: "string \<Rightarrow> string \<Rightarrow> fs \<Rightarrow> error option \<times> fs" where
  "WriteFile p d s =
     (case next_fault s of
        Fault e \<Rightarrow> (Some e, tick s)
      | f \<Rightarrow>
          if is_dir s p then (Some ErrIsDir, tick s)
          else if \<not> is_dir s (path_dir p) then (Some ErrNotExist, tick s)
          else (case f of
              Partial n e \<Rightarrow> (Some e, put_file p (take n d) (tick s))
            | _ \<Rightarrow> (None, put_file p d (tick s))))"

definition Remove :: "string \<Rightarrow> fs \<Rightarrow> error option \<times> fs" where
  "Remove p s =
     (case next_fault s of
        Fault e \<Rightarrow> (Some e, tick s)
      | Partial n e \<Rightarrow> (Some e, tick s)
      | NoFault \<Rightarrow>
          if file_at s p = None then (Some (if is_dir s p then ErrIsDir else ErrNotExist), tick s)
          else (None, del_file p (tick s)))"

text \<open>\<open>os.Stat\<close>, of which the code uses only whether it fails.\<close>

definition Stat :: "string \<Rightarrow> fs \<Rightarrow> error option \<times> fs" where
  "Stat p s =
     ((case next_fault s of
         Fault e \<Rightarrow> Some e
       | Partial n e \<Rightarrow> Some e
       | NoFault \<Rightarrow> if file_at s p = None \<and> \<not> is_dir s p then Some ErrNotExist else None), tick s)"

definition ancestors :: "string \<Rightarrow> string list" where
  "ancestors p =
     p # (if has_prefix p ''/'' then [''/''] else [])
       @ map (\<lambda>n. take n p) (filter (\<lambda>n. 0 < n \<and> p ! n = CHR ''/'') [0..<length p])"

definition MkdirAll :: "string \<Rightarrow> fs \<Rightarrow> error option \<times> fs" where
  "MkdirAll p s =
     (case next_fault s of
        Fault e \<Rightarrow> (Some e, tick s)
      | Partial n e \<Rightarrow> (Some e, tick s)
      | NoFault \<Rightarrow>
          if \<exists>q\<in>set (ancestors p). file_at s q \<noteq> None then (Some (Ext ''not a directory''), tick s)
          else (None, (tick s)\<lparr>fs_dirs := remdups (ancestors p @ fs_dirs s)\<rparr>))"

definition Rename :: "string \<Rightarrow> string \<Rightarrow> fs \<Rightarrow> error option \<times> fs" where
  "Rename p q s =
     (case next_fault s of
        Fault e \<Rightarrow> (Some e, tick s)
      | Partial n e \<Rightarrow> (Some e, tick s)
      | NoFault \<Rightarrow>
          (case map_of (fs_files s) p of
             None \<Rightarrow> (Some ErrNotExist, tick s)
           | Some f \<Rightarrow>
               if is_dir s q then (Some ErrIsDir, tick s)
               else if p = q then (None, tick s)
               else (None, (tick s)\<lparr>fs_files := AList.update q f (AList.delete p (fs_files s))\<rparr>)))"

text \<open>
  \<open>os.ReadDir\<close>: the names in a directory in increasing byte order, with a flag for directories.
\<close>

fun str_le :: "string \<Rightarrow> string \<Rightarrow> bool" where
  "str_le [] t = True"
| "str_le (a # s) [] = False"
| "str_le (a # s) (b # t) = (byte a < byte b \<or> (a = b \<and> str_le s t))"

primrec insert_name :: "string \<times> bool \<Rightarrow> (string \<times> bool) list \<Rightarrow> (string \<times> bool) list" where
  "insert_name x [] = [x]"
| "insert_name x (y # ys) = (if str_le (fst x) (fst y) then x # y # ys else y # insert_name x ys)"

definition dir_entries :: "fs \<Rightarrow> string \<Rightarrow> (string \<times> bool) list" where
  "dir_entries s d =
     foldr insert_name
       (map (\<lambda>p. (path_base p, False)) (filter (\<lambda>p. path_dir p = d) (remdups (map fst (fs_files s))))
        @ map (\<lambda>p. (path_base p, True)) (filter (\<lambda>p. path_dir p = d \<and> p \<noteq> d) (remdups (fs_dirs s)))) []"

definition ReadDir :: "string \<Rightarrow> fs \<Rightarrow> (error + (string \<times> bool) list) \<times> fs" where
  "ReadDir d s =
     ((case next_fault s of
         Fault e \<Rightarrow> Inl e
       | Partial n e \<Rightarrow> Inl e
       | NoFault \<Rightarrow> if is_dir s d then Inr (dir_entries s d) else Inl ErrNotExist), tick s)"

section \<open>Facts\<close>

named_theorems file_simps "the effect of the file operations on files and directories"

lemma tick_simps [simp, file_simps]:
  "fs_files (tick s) = fs_files s" "fs_dirs (tick s) = fs_dirs s" "fs_now (tick s) = fs_now s"
  "file_at (tick s) p = file_at s p" "is_dir (tick s) p = is_dir s p"
  by (simp_all add: tick_def file_at_def is_dir_def)

lemma file_at_put [simp, file_simps]:
  "file_at (put_file p d s) q = (if q = p then Some d else file_at s q)"
  by (simp add: file_at_def put_file_def update_conv')

lemma file_at_del [simp, file_simps]:
  "file_at (del_file p s) q = (if q = p then None else file_at s q)"
  by (simp add: file_at_def del_file_def delete_conv')

lemma dir_put_del [simp, file_simps]:
  "is_dir (put_file p d s) q = is_dir s q" "is_dir (del_file p s) q = is_dir s q"
  by (simp_all add: is_dir_def put_file_def del_file_def)

lemma calm_simps [simp, file_simps]:
  "calm (put_file p d s) = calm s" "calm (del_file p s) = calm s"
  by (simp_all add: calm_def put_file_def del_file_def)

lemma calm_tick [simp, file_simps]: "calm s \<Longrightarrow> tick s = s"
  by (cases s) (simp add: calm_def tick_def)

lemma calm_next [simp, file_simps]: "calm s \<Longrightarrow> next_fault s = NoFault"
  by (simp add: calm_def next_fault_def)

text \<open>The operations on a calm file system.\<close>

lemma calm_ops [file_simps]:
  assumes "calm s"
  shows "file_at s p = Some d \<Longrightarrow> ReadFile p s = (Inr d, s)"
    and "file_at s p = None \<Longrightarrow> \<not> is_dir s p \<Longrightarrow> ReadFile p s = (Inl ErrNotExist, s)"
    and "is_dir s (path_dir p) \<Longrightarrow> \<not> is_dir s p \<Longrightarrow> WriteFile p d s = (None, put_file p d s)"
    and "file_at s p = Some d \<Longrightarrow> Remove p s = (None, del_file p s)"
    and "file_at s p = None \<Longrightarrow> \<not> is_dir s p \<Longrightarrow> Remove p s = (Some ErrNotExist, s)"
    and "file_at s p = Some d \<Longrightarrow> Stat p s = (None, s)"
    and "file_at s p = None \<Longrightarrow> \<not> is_dir s p \<Longrightarrow> Stat p s = (Some ErrNotExist, s)"
  using assms
  by (simp_all add: ReadFile_def WriteFile_def Remove_def Stat_def)

text \<open>
  Frame conditions, faults or not: what reading changes (nothing but the oracle), and what a
  write, a removal or a new directory can change.
\<close>

lemma reads_tick [simp, file_simps]:
  "snd (ReadFile p s) = tick s" "snd (Stat p s) = tick s" "snd (ReadDir p s) = tick s"
  by (simp_all add: ReadFile_def Stat_def ReadDir_def)

lemma reads_tickD:
  "ReadFile p s = (r, t) \<Longrightarrow> t = tick s" "Stat p s = (o', t) \<Longrightarrow> t = tick s"
  "ReadDir p s = (l, t) \<Longrightarrow> t = tick s"
  by (simp_all add: ReadFile_def Stat_def ReadDir_def)

lemma read_done: "ReadFile p s = (Inr d, t) \<Longrightarrow> file_at s p = Some d"
  by (auto simp: ReadFile_def split: fault.splits option.splits)

lemma write_frame: "q \<noteq> p \<Longrightarrow> file_at (snd (WriteFile p d s)) q = file_at s q"
  by (simp add: WriteFile_def split: fault.splits)

lemma write_dir [simp]: "is_dir (snd (WriteFile p d s)) q = is_dir s q"
  by (simp add: WriteFile_def split: fault.splits)

lemma write_done: "fst (WriteFile p d s) = None \<Longrightarrow> file_at (snd (WriteFile p d s)) p = Some d"
  by (simp add: WriteFile_def split: fault.splits if_splits)

text \<open>A write leaves the file as it was, or a prefix of the new contents in it.\<close>

lemma write_cases:
  "file_at (snd (WriteFile p d s)) p = file_at s p \<or> (\<exists>n. file_at (snd (WriteFile p d s)) p = Some (take n d))"
proof -
  have "\<exists>n. d = take n d" by (rule exI[of _ "length d"]) simp
  then show ?thesis by (auto simp: WriteFile_def split: fault.splits)
qed

lemma remove_frame: "q \<noteq> p \<Longrightarrow> file_at (snd (Remove p s)) q = file_at s q"
  by (simp add: Remove_def split: fault.splits)

lemma remove_dir [simp]: "is_dir (snd (Remove p s)) q = is_dir s q"
  by (simp add: Remove_def split: fault.splits)

lemma remove_done: "fst (Remove p s) = None \<Longrightarrow> file_at (snd (Remove p s)) p = None"
  by (simp add: Remove_def split: fault.splits if_splits)

lemma remove_shrinks: "file_at (snd (Remove p s)) q = Some d \<Longrightarrow> file_at s q = Some d"
  by (auto simp: Remove_def split: fault.splits if_splits)

lemma mkdir_files [simp]: "file_at (snd (MkdirAll p s)) q = file_at s q"
  by (simp add: MkdirAll_def file_at_def split: fault.splits)

lemma mkdir_calm: "calm s \<Longrightarrow> calm (snd (MkdirAll p s))"
  by (simp add: MkdirAll_def calm_def tick_def next_fault_def)

lemma mkdir_done: "fst (MkdirAll p s) = None \<Longrightarrow> is_dir (snd (MkdirAll p s)) p"
  by (auto simp: MkdirAll_def is_dir_def ancestors_def split: fault.splits if_splits)

end
