(* ===== verification/Scanner.thy ===== *)
theory Scanner
  imports Go_Strings
begin

text \<open>
  Reading text line by line and word by word, as several components do: \<open>bufio.Scanner\<close> with its limit on the
  length of a line, \<open>strings.Fields\<close>, and \<open>strconv.ParseUint\<close> with the value it returns beside an error.
\<close>

definition drop_cr :: "string \<Rightarrow> string" where
  "drop_cr l = (if l \<noteq> [] \<and> last l = CHR 0x0D then butlast l else l)"

text \<open>The lines of a text; a last line without a newline counts unless it is empty.\<close>

definition text_lines :: "string \<Rightarrow> string list" where
  "text_lines s = (let ls = split_on CHR 0x0A s in if last ls = [] then butlast ls else ls)"

text \<open>What a scanner with a buffer of \<open>limit\<close> bytes yields: it stops at the first line that does not fit.\<close>

definition scanned :: "nat \<Rightarrow> string \<Rightarrow> string list" where
  "scanned limit s = map drop_cr (takeWhile (\<lambda>l. length l < limit) (text_lines s))"

text \<open>The default limit, \<open>bufio.MaxScanTokenSize\<close>.\<close>

definition default_limit :: nat where
  "default_limit = 64 * 1024"

definition space_at :: "string \<Rightarrow> bool" where
  "space_at s \<longleftrightarrow> find (\<lambda>w. prefix w s) space_seqs \<noteq> None"

fun word_span :: "string \<Rightarrow> string \<times> string" where
  "word_span [] = ([], [])"
| "word_span (c # s) = (if space_at (c # s) then ([], c # s) else (case word_span s of (w, r) \<Rightarrow> (c # w, r)))"

lemma word_span_length: "word_span s = (w, r) \<Longrightarrow> length r \<le> length s"
  by (induction s arbitrary: w r) (auto split: if_splits prod.splits intro: le_SucI)

lemma word_span_first: "\<not> space_at (c # s) \<Longrightarrow> word_span (c # s) = (w, r) \<Longrightarrow> length r \<le> length s"
  by (auto split: prod.splits dest: word_span_length)

lemma trim_left_not_space: "trim_left_space s = c # t \<Longrightarrow> \<not> space_at (c # t)"
proof (induction s rule: trim_left_space.induct)
  case (1 s)
  then show ?case
    by (subst (asm) (2) trim_left_space.simps) (auto simp: space_at_def split: option.splits)
qed

function Fields :: "string \<Rightarrow> string list" where
  "Fields s =
     (case trim_left_space s of
        [] \<Rightarrow> []
      | c # t \<Rightarrow> (case word_span (c # t) of (w, r) \<Rightarrow> w # Fields r))"
  by pat_completeness auto
termination
proof (relation "measure length", goal_cases)
  case (2 s c t w r)
  have "\<not> space_at (c # t)" using 2(1) by (rule trim_left_not_space)
  then have "length r \<le> length t" by (rule word_span_first) (rule 2(2)[symmetric])
  with 2(1) trim_left_length[of s] show ?case by simp
qed simp

declare Fields.simps [simp del]

text \<open>\<open>strconv.ParseUint(s, 10, 64)\<close>: 0 on a syntax error, the largest value on overflow.\<close>

definition max_u64 :: nat where
  "max_u64 = 2 ^ 64 - 1"

fun uint_digits :: "nat \<Rightarrow> string \<Rightarrow> nat" where
  "uint_digits n [] = n"
| "uint_digits n (c # s) =
     (if \<not> is_digit c then 0
      else if max_u64 div 10 + 1 \<le> n then max_u64
      else let m = n * 10 + (byte c - 48) in if max_u64 < m then max_u64 else uint_digits m s)"

definition parse_uint :: "string \<Rightarrow> nat" where
  "parse_uint s = (if s = [] then 0 else uint_digits 0 s)"

section \<open>Facts\<close>

lemma uint_digits_bound: "n \<le> max_u64 \<Longrightarrow> uint_digits n s \<le> max_u64"
  by (induction n s rule: uint_digits.induct) (auto simp: Let_def)

lemma parse_uint_bound: "parse_uint s < 2 ^ 64"
  using uint_digits_bound[of 0 s] by (auto simp: parse_uint_def max_u64_def)

lemma digits_val_mono: "n \<le> digits_val n s"
proof (induction s arbitrary: n)
  case (Cons c s)
  have "n \<le> n * 10 + (byte c - 48)" by simp
  with Cons[of "n * 10 + (byte c - 48)"] show ?case by simp
qed simp

lemma uint_digits_val:
  "\<forall>c\<in>set s. is_digit c \<Longrightarrow> digits_val n s \<le> max_u64 \<Longrightarrow> uint_digits n s = digits_val n s"
proof (induction n s rule: uint_digits.induct)
  case (2 n c s)
  have "n * 10 + (byte c - 48) \<le> max_u64"
    using 2(3) digits_val_mono[of "n * 10 + (byte c - 48)" s] by simp
  moreover from this have "n \<le> max_u64 div 10" by simp
  ultimately show ?case using 2 by (simp add: Let_def)
qed simp

lemma parse_uint_show: "n < 2 ^ 64 \<Longrightarrow> parse_uint (show_nat n) = n"
  using uint_digits_val[of "show_nat n" 0] show_nat_digits[of _ n] digits_val_show[of n]
  by (simp add: parse_uint_def max_u64_def)

text \<open>Words of visible bytes between single spaces.\<close>

lemma graphic_not_space: "graphic c \<Longrightarrow> \<not> space_at (c # s)"
proof -
  assume "graphic c"
  then have "find (\<lambda>w. prefix w (c # s)) space_seqs = None"
    by (auto simp: find_None_iff prefix_Cons dest: space_seqs_not_graphic)
  then show ?thesis by (simp add: space_at_def)
qed

lemma space_is_space: "space_at (CHR 0x20 # s)"
  by (simp add: space_at_def space_seqs_def)

lemma word_span_word:
  "\<forall>c\<in>set w. graphic c \<Longrightarrow> word_span (w @ CHR 0x20 # s) = (w, CHR 0x20 # s)"
  "\<forall>c\<in>set w. graphic c \<Longrightarrow> word_span w = (w, [])"
  by (induction w) (simp_all add: space_is_space graphic_not_space)

lemma trim_left_blank: "trim_left_space (CHR 0x20 # s) = trim_left_space s"
proof -
  have "find (\<lambda>w. prefix w (CHR 0x20 # s)) space_seqs = Some [CHR 0x20]"
    by (simp add: space_seqs_def)
  then show ?thesis by (subst trim_left_space.simps) simp
qed

lemma Fields_blank: "Fields (CHR 0x20 # s) = Fields s"
  by (simp add: Fields.simps[of "CHR 0x20 # s"] Fields.simps[of s] trim_left_blank)

lemma Fields_blanks: "Fields (replicate n CHR 0x20 @ s) = Fields s"
  by (induction n) (simp_all add: Fields_blank)

lemma Fields_Nil [simp]: "Fields [] = []"
  by (simp add: Fields.simps)

lemma Fields_word:
  assumes "w \<noteq> []" "\<forall>c\<in>set w. graphic c"
  shows "Fields (w @ CHR 0x20 # s) = w # Fields s" "Fields w = [w]"
proof -
  obtain c u where w: "w = c # u" using assms(1) by (cases w) auto
  have "trim_left_space (w @ t) = w @ t" for t using assms(2) by (simp add: w trim_left_graphic)
  note tl = this[of "CHR 0x20 # s"] this[of "[]"]
  show "Fields (w @ CHR 0x20 # s) = w # Fields s"
    using tl(1) word_span_word(1)[OF assms(2), of s] by (subst Fields.simps) (simp add: w Fields_blank)
  show "Fields w = [w]"
    using tl(2) word_span_word(2)[OF assms(2)] by (subst Fields.simps) (simp add: w)
qed

lemma show_nat_graphic: "c \<in> set (show_nat k) \<Longrightarrow> graphic c"
  using show_nat_digits[of c k] by (simp add: is_digit_def graphic_def)

text \<open>Lines written one by one are scanned one by one.\<close>

lemma text_lines_concat:
  assumes "\<forall>l\<in>set ls. CHR 0x0A \<notin> set l"
  shows "text_lines (concat (map (\<lambda>l. l @ [CHR 0x0A]) ls)) = ls"
proof -
  have "split_on CHR 0x0A (concat (map (\<lambda>l. l @ [CHR 0x0A]) ls)) = ls @ [[]]"
    using assms by (induction ls) (simp_all add: split_on_append)
  then show ?thesis by (simp add: text_lines_def)
qed

lemma scanned_concat:
  assumes "\<forall>l\<in>set ls. CHR 0x0A \<notin> set l \<and> length l < limit"
  shows "scanned limit (concat (map (\<lambda>l. l @ [CHR 0x0A]) ls)) = map drop_cr ls"
  using assms by (simp add: scanned_def text_lines_concat takeWhile_eq_all_conv[THEN iffD2])

lemma drop_cr_prefix: "has_prefix (drop_cr l) p \<Longrightarrow> has_prefix l p"
  by (auto simp: drop_cr_def has_prefix_def split: if_splits intro: prefix_order.trans prefixeq_butlast)

end
