(* ===== verification/Audit_Log.thy ===== *)
theory Audit_Log
  imports Json Files Scanner
begin

text \<open>
  Package \<open>internal/audit\<close>: the event record and its JSON line, the file logger (exclusion rules, the
  keyed hash chain, rotation, the restart that picks up the last hash) and \<open>VerifyLog\<close>. A
  time is its RFC 3339 text; reading one back (\<open>time.Parse\<close> and \<open>Format\<close>) and HMAC-SHA256 are
  parameters, as are the random identifiers and the clock.
\<close>

section \<open>Events and their JSON\<close>

record event =
  ev_ts :: string
  ev_id :: string
  ev_type :: string
  ev_identity :: string
  ev_action :: string
  ev_res_type :: string
  ev_res_id :: string
  ev_outcome :: string
  ev_peer :: string
  ev_detail :: "(string \<times> string) list"
  ev_prev :: string
  ev_hash :: string

definition zero_event :: event where
  "zero_event = \<lparr>ev_ts = ''0001-01-01T00:00:00Z'', ev_id = [], ev_type = [], ev_identity = [],
     ev_action = [], ev_res_type = [], ev_res_id = [], ev_outcome = [], ev_peer = [], ev_detail = [],
     ev_prev = [], ev_hash = []\<rparr>"

text \<open>
  \<open>json.Marshal(event)\<close>: the fields in order, those marked \<open>omitempty\<close> only when not empty; the
  detail map as its entries in key order.
\<close>

definition opt_field :: "string \<Rightarrow> string \<Rightarrow> (string \<times> json) list" where
  "opt_field k v = (if v = [] then [] else [(k, JStr v)])"

definition detail_members :: "(string \<times> string) list \<Rightarrow> (string \<times> json) list" where
  "detail_members d = map (\<lambda>(k, v). (k, JStr v)) d"

definition event_members :: "event \<Rightarrow> (string \<times> json) list" where
  "event_members e =
     [(''ts'', JStr (ev_ts e)), (''id'', JStr (ev_id e)), (''type'', JStr (ev_type e))]
      @ opt_field ''identity'' (ev_identity e) @ opt_field ''action'' (ev_action e)
      @ opt_field ''resource_type'' (ev_res_type e) @ opt_field ''resource_id'' (ev_res_id e)
      @ [(''outcome'', JStr (ev_outcome e))] @ opt_field ''peer'' (ev_peer e)
      @ (if ev_detail e = [] then [] else [(''detail'', JObj (detail_members (ev_detail e)))])
      @ [(''prev_hash'', JStr (ev_prev e)), (''hash'', JStr (ev_hash e))]"

definition event_line :: "event \<Rightarrow> string" where
  "event_line e = json_render (JObj (event_members e))"

text \<open>
  \<open>json.Unmarshal(line, &event)\<close>: \<open>canon\<close> reads a time and formats it again. The detail map
  keeps its entries in key order; a later entry replaces an earlier one of the same key.
\<close>

fun put_entry :: "string \<Rightarrow> string \<Rightarrow> (string \<times> string) list \<Rightarrow> (string \<times> string) list" where
  "put_entry k v [] = [(k, v)]"
| "put_entry k v ((j, w) # m) =
     (if j = k then (k, v) # m else if str_le k j then (k, v) # (j, w) # m else (j, w) # put_entry k v m)"

fun as_entries :: "(string \<times> json) list \<Rightarrow> (string \<times> string) list \<Rightarrow> error + (string \<times> string) list" where
  "as_entries [] m = Inr m"
| "as_entries ((k, v) # ms) m = res_bind (as_string v []) (\<lambda>s. as_entries ms (put_entry k s m))"

definition as_map :: "json \<Rightarrow> (string \<times> string) list \<Rightarrow> error + (string \<times> string) list" where
  "as_map v m = (case v of JNull \<Rightarrow> Inr [] | JObj ms \<Rightarrow> as_entries ms m | _ \<Rightarrow> Inl json_err)"

definition as_time :: "(string \<Rightarrow> string option) \<Rightarrow> json \<Rightarrow> string \<Rightarrow> error + string" where
  "as_time canon v x =
     (case v of
        JNull \<Rightarrow> Inr x
      | JStr s \<Rightarrow> (case canon s of Some t \<Rightarrow> Inr t | None \<Rightarrow> Inl json_err)
      | _ \<Rightarrow> Inl json_err)"

definition read_event :: "(string \<Rightarrow> string option) \<Rightarrow> string \<Rightarrow> error + event" where
  "read_event canon line =
     res_bind (json_members_of line) (\<lambda>ms.
     res_bind (json_field ''ts'' (as_time canon) ms (ev_ts zero_event)) (\<lambda>ts.
     res_bind (json_field ''id'' as_string ms []) (\<lambda>i.
     res_bind (json_field ''type'' as_string ms []) (\<lambda>ty.
     res_bind (json_field ''identity'' as_string ms []) (\<lambda>idn.
     res_bind (json_field ''action'' as_string ms []) (\<lambda>a.
     res_bind (json_field ''resource_type'' as_string ms []) (\<lambda>rt.
     res_bind (json_field ''resource_id'' as_string ms []) (\<lambda>ri.
     res_bind (json_field ''outcome'' as_string ms []) (\<lambda>out.
     res_bind (json_field ''peer'' as_string ms []) (\<lambda>pe.
     res_bind (json_field ''detail'' as_map ms []) (\<lambda>d.
     res_bind (json_field ''prev_hash'' as_string ms []) (\<lambda>pr.
     res_bind (json_field ''hash'' as_string ms []) (\<lambda>h.
       Inr \<lparr>ev_ts = ts, ev_id = i, ev_type = ty, ev_identity = idn, ev_action = a, ev_res_type = rt,
            ev_res_id = ri, ev_outcome = out, ev_peer = pe, ev_detail = d, ev_prev = pr, ev_hash = h\<rparr>)))))))))))))"

section \<open>The logger interface\<close>

text \<open>
  The part of \<open>audit.Logger\<close> the request path calls. A nil interface is \<open>None\<close>; a typed nil pointer
  is a logger whose methods panic where they read a field.
\<close>

record 'w audit_logger =
  should_log :: "string \<Rightarrow> string \<Rightarrow> string \<Rightarrow> string \<Rightarrow> bool go"
  log_event :: "event \<Rightarrow> 'w \<Rightarrow> 'w go"

section \<open>The file logger\<close>

record exclude_rule =
  ex_identity :: string
  ex_action :: string
  ex_resource :: string

record audit_config =
  ac_dir :: string
  ac_excludes :: "exclude_rule list"
  ac_max_mb :: int
  ac_max_days :: int

definition audit_DefaultConfig :: audit_config where
  "audit_DefaultConfig = \<lparr>ac_dir = ''/var/log/hummingbird/audit'', ac_excludes = [], ac_max_mb = 100, ac_max_days = 90\<rparr>"

text \<open>\<open>fl_open\<close>: the handle is open (on \<open>audit.log\<close>); a subscriber is the events in its channel.\<close>

record file_logger =
  fl_cfg :: audit_config
  fl_key :: string
  fl_prev :: string
  fl_open :: bool
  fl_subs :: "event list list"

definition log_path :: "audit_config \<Rightarrow> string" where
  "log_path cfg = path_join (ac_dir cfg) ''audit.log''"

definition key_path :: "audit_config \<Rightarrow> string" where
  "key_path cfg = path_join (ac_dir cfg) ''hmac.key''"

fun rule_excludes :: "string \<Rightarrow> string \<Rightarrow> string \<Rightarrow> exclude_rule \<Rightarrow> bool" where
  "rule_excludes i a r rule =
     (if ex_identity rule \<noteq> i then False
      else if ex_action rule \<noteq> [] \<and> ex_action rule \<noteq> a then False
      else if ex_resource rule \<noteq> [] \<and> ex_resource rule \<noteq> r then False
      else True)"

definition ShouldLog :: "audit_config \<Rightarrow> string \<Rightarrow> string \<Rightarrow> string \<Rightarrow> string \<Rightarrow> bool" where
  "ShouldLog cfg identity action resource outcome =
     (if outcome \<noteq> ''success'' then True
      else if identity = [] then True
      else \<not> list_ex (rule_excludes identity action resource) (ac_excludes cfg))"

definition hash_input :: "event \<Rightarrow> string" where
  "hash_input e = join_with ''|''
     [ev_ts e, ev_id e, ev_type e, ev_identity e, ev_action e, ev_res_type e, ev_res_id e,
      ev_outcome e, ev_peer e, ev_prev e]"

definition computeHash :: "(string \<Rightarrow> string \<Rightarrow> string) \<Rightarrow> string \<Rightarrow> event \<Rightarrow> string" where
  "computeHash hmac key e = hex_encode (hmac key (hash_input e))"

text \<open>\<open>splitLines\<close>: the pieces between newlines, without an empty last piece.\<close>

definition splitLines :: "string \<Rightarrow> string list" where
  "splitLines d =
     (let ps = split_on CHR 0x0A d in if last ps = [] then butlast ps else ps)"

fun last_hash :: "(string \<Rightarrow> string option) \<Rightarrow> string list \<Rightarrow> string" where
  "last_hash canon [] = ''genesis''"
| "last_hash canon (l # ls) =
     (if l = [] then last_hash canon ls
      else (case read_event canon l of Inr e \<Rightarrow> ev_hash e | Inl err \<Rightarrow> last_hash canon ls))"

definition read_size :: nat where
  "read_size = 8192"

definition readLastHash :: "(string \<Rightarrow> string option) \<Rightarrow> string \<Rightarrow> fs \<Rightarrow> string \<times> fs" where
  "readLastHash canon p s =
     (case ReadFile p s of
        (Inl e, s) \<Rightarrow> (''genesis'', s)
      | (Inr d, s) \<Rightarrow>
          (if d = [] then ''genesis''
           else last_hash canon (rev (splitLines (drop (length d - read_size) d))), s))"

text \<open>
  Opening for appending creates the file, and a write to the open handle adds at its end. The
  handle's file always has the log's path here: nothing else renames it while it is open.
\<close>

definition OpenAppend :: "string \<Rightarrow> fs \<Rightarrow> error option \<times> fs" where
  "OpenAppend p s =
     (case next_fault s of
        Fault e \<Rightarrow> (Some e, tick s)
      | Partial n e \<Rightarrow> (Some e, tick s)
      | NoFault \<Rightarrow>
          if is_dir s p then (Some ErrIsDir, tick s)
          else if \<not> is_dir s (path_dir p) then (Some ErrNotExist, tick s)
          else if file_at s p = None then (None, put_file p [] (tick s))
          else (None, tick s))"

definition Append :: "string \<Rightarrow> string \<Rightarrow> fs \<Rightarrow> error option \<times> fs" where
  "Append p d s =
     (case file_at s p of
        None \<Rightarrow> (None, tick s)
      | Some old \<Rightarrow>
          (case next_fault s of
             Fault e \<Rightarrow> (Some e, tick s)
           | Partial n e \<Rightarrow> (Some e, put_file p (old @ take n d) (tick s))
           | NoFault \<Rightarrow> (None, put_file p (old @ d) (tick s))))"

definition NewFileLogger ::
    "(string \<Rightarrow> string option) \<Rightarrow> (error + string) \<Rightarrow> audit_config \<Rightarrow> fs \<Rightarrow> (error + file_logger) \<times> fs" where
  "NewFileLogger canon rand32 cfg s =
     (case MkdirAll (ac_dir cfg) s of
        (Some e, s) \<Rightarrow> (Inl (Wrap ''create audit dir'' e), s)
      | (None, s) \<Rightarrow>
          (case OpenAppend (log_path cfg) s of
             (Some e, s) \<Rightarrow> (Inl (Wrap ''open audit log'' e), s)
           | (None, s) \<Rightarrow>
               (let finish = (\<lambda>key s.
                      case readLastHash canon (log_path cfg) s of (h, s) \<Rightarrow>
                        (Inr \<lparr>fl_cfg = cfg, fl_key = key, fl_prev = h, fl_open = True, fl_subs = []\<rparr>, s));
                    fresh = (\<lambda>s. case rand32 of
                        Inl e \<Rightarrow> (Inl (Wrap ''generate HMAC key'' e), s)
                      | Inr key \<Rightarrow>
                          (case WriteFile (key_path cfg) key s of
                             (Some e, s) \<Rightarrow> (Inl (Wrap ''write HMAC key'' e), s)
                           | (None, s) \<Rightarrow> finish key s))
                in case ReadFile (key_path cfg) s of
                     (Inl e, s) \<Rightarrow> fresh s
                   | (Inr k, s) \<Rightarrow> if length k = 32 then finish k s else fresh s)))"

section \<open>Rotation\<close>

text \<open>\<open>int64(MaxSizeMB) * 1024 * 1024\<close> wraps.\<close>

definition wrap64 :: "int \<Rightarrow> int" where
  "wrap64 x = (x + 2 ^ 63) mod 2 ^ 64 - 2 ^ 63"

definition max_bytes :: "audit_config \<Rightarrow> int" where
  "max_bytes cfg = wrap64 (wrap64 (wrap64 (ac_max_mb cfg) * 1024) * 1024)"

definition rotated :: "string \<Rightarrow> nat \<Rightarrow> string" where
  "rotated p i = p @ ''.'' @ show_nat i"

text \<open>The loop \<open>for i := 4; i >= 1; i--\<close>.\<close>

fun shift :: "string \<Rightarrow> nat \<Rightarrow> fs \<Rightarrow> fs" where
  "shift p 0 s = s"
| "shift p (Suc i) s = shift p i (snd (Rename (rotated p (Suc i)) (rotated p (Suc (Suc i))) s))"

text \<open>
  Removing old files. \<open>entry.Info\<close> fails for a file that went away; a file is old when its
  modification time is before the cutoff.
\<close>

fun remove_old :: "string \<Rightarrow> int \<Rightarrow> (string \<times> bool) list \<Rightarrow> fs \<Rightarrow> fs" where
  "remove_old d cutoff [] s = s"
| "remove_old d cutoff ((name, dir) # es) s =
     (if dir \<or> name = ''hmac.key'' then remove_old d cutoff es s
      else (case map_of (fs_files s) (path_join d name) of
          None \<Rightarrow> remove_old d cutoff es s
        | Some f \<Rightarrow>
            if f_time f < cutoff then remove_old d cutoff es (snd (Remove (path_join d name) s))
            else remove_old d cutoff es s))"

definition rotate_files :: "audit_config \<Rightarrow> int \<Rightarrow> fs \<Rightarrow> fs" where
  "rotate_files cfg cutoff s =
     (let p = log_path cfg; s = snd (Rename p (rotated p 1) (shift p 4 s)) in
      if ac_max_days cfg > 0 then
        (case ReadDir (ac_dir cfg) s of
           (Inl e, s) \<Rightarrow> s
         | (Inr es, s) \<Rightarrow> remove_old (ac_dir cfg) cutoff es s)
      else s)"

definition maybeRotate :: "int \<Rightarrow> file_logger \<Rightarrow> fs \<Rightarrow> file_logger \<times> fs" where
  "maybeRotate cutoff l s =
     (let cfg = fl_cfg l in
      if ac_max_mb cfg \<le> 0 then (l, s)
      else if \<not> fl_open l then (l, s)
      else (case file_at s (log_path cfg) of
          None \<Rightarrow> (l, s)
        | Some d \<Rightarrow>
            if int (length d) < max_bytes cfg then (l, s)
            else (case OpenAppend (log_path cfg) (rotate_files cfg cutoff s) of
                (Some e, s) \<Rightarrow> (l\<lparr>fl_open := False\<rparr>, s)
              | (None, s) \<Rightarrow> (l\<lparr>fl_open := True\<rparr>, s))))"

section \<open>Logging\<close>

definition chan_cap :: nat where
  "chan_cap = 256"

definition notify :: "event \<Rightarrow> event list \<Rightarrow> event list" where
  "notify e ch = (if length ch < chan_cap then ch @ [e] else ch)"

definition generateID :: "string \<Rightarrow> string" where
  "generateID bytes = hex_encode bytes"

text \<open>The event as \<open>Log\<close> completes it: time, identifier, the previous hash and its own.\<close>

definition stamp ::
    "(string \<Rightarrow> string \<Rightarrow> string) \<Rightarrow> string \<Rightarrow> string \<Rightarrow> file_logger \<Rightarrow> event \<Rightarrow> event" where
  "stamp hmac ts bytes l e =
     (let e = e\<lparr>ev_ts := ts, ev_id := generateID bytes, ev_prev := fl_prev l\<rparr> in
      e\<lparr>ev_hash := computeHash hmac (fl_key l) e\<rparr>)"

definition Log ::
    "(string \<Rightarrow> string \<Rightarrow> string) \<Rightarrow> string \<Rightarrow> string \<Rightarrow> int \<Rightarrow> event \<Rightarrow> file_logger \<times> fs \<Rightarrow> file_logger \<times> fs" where
  "Log hmac ts bytes cutoff e st =
     (case st of (l, s) \<Rightarrow>
      let e = stamp hmac ts bytes l e;
          (l, s) = maybeRotate cutoff (l\<lparr>fl_prev := ev_hash e\<rparr>) s;
          s = (if fl_open l then snd (Append (log_path (fl_cfg l)) (event_line e @ [CHR 0x0A]) s) else s)
      in (l\<lparr>fl_subs := map (notify e) (fl_subs l)\<rparr>, s))"

definition Subscribe :: "file_logger \<Rightarrow> file_logger" where
  "Subscribe l = l\<lparr>fl_subs := fl_subs l @ [[]]\<rparr>"

definition Close :: "file_logger \<Rightarrow> file_logger" where
  "Close l = l\<lparr>fl_key := replicate (length (fl_key l)) (CHR 0x00), fl_subs := [], fl_open := False\<rparr>"

section \<open>Verification\<close>

record verify_result =
  vr_total :: nat
  vr_valid :: nat
  vr_broken :: nat
  vr_first :: nat
  vr_invalid :: nat

definition zero_result :: verify_result where
  "zero_result = \<lparr>vr_total = 0, vr_valid = 0, vr_broken = 0, vr_first = 0, vr_invalid = 0\<rparr>"

text \<open>
  \<open>bufio.Scanner\<close> with a buffer of \<open>2 ^ 20\<close> bytes: lines without their line ends, up to the first one
  that does not fit; the flag says that there was one.
\<close>

definition max_line :: nat where
  "max_line = 2 ^ 20"

definition fits :: "string \<Rightarrow> bool" where
  "fits l \<longleftrightarrow> length l < max_line"

definition scan_lines :: "string \<Rightarrow> string list \<times> bool" where
  "scan_lines d =
     (let ls = splitLines d in (map drop_cr (takeWhile fits ls), \<not> list_all fits ls))"

definition broke :: "verify_result \<Rightarrow> verify_result" where
  "broke r = (if vr_first r = 0 then r\<lparr>vr_first := vr_total r\<rparr> else r)"

definition verify_line ::
    "(string \<Rightarrow> string option) \<Rightarrow> (string \<Rightarrow> string \<Rightarrow> string) \<Rightarrow> string \<Rightarrow> string \<Rightarrow>
     verify_result \<times> string \<Rightarrow> verify_result \<times> string" where
  "verify_line canon hmac key line st =
     (case st of (r, prev) \<Rightarrow>
      if line = [] then (r, prev)
      else let r = r\<lparr>vr_total := vr_total r + 1\<rparr> in
        (case read_event canon line of
           Inl err \<Rightarrow> (r\<lparr>vr_invalid := vr_invalid r + 1\<rparr>, prev)
         | Inr e \<Rightarrow>
             let r = (if ev_prev e \<noteq> prev then broke (r\<lparr>vr_broken := vr_broken r + 1\<rparr>) else r);
                 r = (if ev_hash e \<noteq> computeHash hmac key e
                      then broke (r\<lparr>vr_invalid := vr_invalid r + 1\<rparr>)
                      else r\<lparr>vr_valid := vr_valid r + 1\<rparr>)
             in (r, ev_hash e)))"

definition verify_lines ::
    "(string \<Rightarrow> string option) \<Rightarrow> (string \<Rightarrow> string \<Rightarrow> string) \<Rightarrow> string \<Rightarrow> string list \<Rightarrow> verify_result" where
  "verify_lines canon hmac key ls = fst (fold (verify_line canon hmac key) ls (zero_result, ''genesis''))"

text \<open>The result is returned with the scanner's error.\<close>

definition VerifyLog ::
    "(string \<Rightarrow> string option) \<Rightarrow> (string \<Rightarrow> string \<Rightarrow> string) \<Rightarrow> string \<Rightarrow> string \<Rightarrow> fs \<Rightarrow>
     (error + verify_result \<times> error option) \<times> fs" where
  "VerifyLog canon hmac logp keyp s =
     (case ReadFile keyp s of
        (Inl e, s) \<Rightarrow> (Inl (Wrap ''read HMAC key'' e), s)
      | (Inr key, s) \<Rightarrow>
          if length key \<noteq> 32 then (Inl (MsgS ''invalid HMAC key length: '' (show_nat (length key)) []), s)
          else (case ReadFile logp s of
              (Inl e, s) \<Rightarrow> (Inl (Wrap ''open audit log'' e), s)
            | (Inr d, s) \<Rightarrow>
                (case scan_lines d of (ls, too_long) \<Rightarrow>
                  (Inr (verify_lines canon hmac key ls,
                        if too_long then Some (Ext ''bufio.Scanner: token too long'') else None), s))))"

section \<open>An event's line reads back\<close>

text \<open>
  \<open>event_ok\<close>: every string is valid UTF-8 (JSON replaces anything else), the time is in canonical
  form, and the detail map is given as its entries in key order.
\<close>

definition event_strings :: "event \<Rightarrow> string list" where
  "event_strings e =
     [ev_ts e, ev_id e, ev_type e, ev_identity e, ev_action e, ev_res_type e, ev_res_id e, ev_outcome e,
      ev_peer e, ev_prev e, ev_hash e] @ map fst (ev_detail e) @ map snd (ev_detail e)"

definition in_key_order :: "(string \<times> string) list \<Rightarrow> bool" where
  "in_key_order m \<longleftrightarrow> sorted_wrt (\<lambda>a b. str_le (fst a) (fst b) \<and> fst a \<noteq> fst b) m"

definition event_ok :: "(string \<Rightarrow> string option) \<Rightarrow> event \<Rightarrow> bool" where
  "event_ok canon e \<longleftrightarrow>
     list_all valid_utf8 (event_strings e) \<and> canon (ev_ts e) = Some (ev_ts e) \<and> in_key_order (ev_detail e)"

declare json_fold.simps [simp del]

lemma json_field_append:
  "json_field f dec (xs @ ys) x = res_bind (json_field f dec xs x) (json_field f dec ys)"
  by (induction f dec xs x rule: json_field.induct) (auto simp: res_bind_def split: sum.splits)

lemma json_field_opt:
  "json_field f as_string (opt_field k v) x =
     Inr (if json_fold k = json_fold f \<and> v \<noteq> [] then v else x)"
  "json_fold k \<noteq> json_fold f \<Longrightarrow> json_field f dec (opt_field k v) y = Inr y"
  by (simp_all add: opt_field_def as_string_def)

lemma field_names [simp]:
  "json_fold ''ts'' = ''TS''" "json_fold ''id'' = ''ID''" "json_fold ''type'' = ''TYPE''"
  "json_fold ''identity'' = ''IDENTITY''" "json_fold ''action'' = ''ACTION''"
  "json_fold ''resource_type'' = ''RESOURCE_TYPE''" "json_fold ''resource_id'' = ''RESOURCE_ID''"
  "json_fold ''outcome'' = ''OUTCOME''" "json_fold ''peer'' = ''PEER''" "json_fold ''detail'' = ''DETAIL''"
  "json_fold ''prev_hash'' = ''PREV_HASH''" "json_fold ''hash'' = ''HASH''"
  by code_simp+

lemma field_names_utf8:
  "list_all valid_utf8 [''ts'', ''id'', ''type'', ''identity'', ''action'', ''resource_type'', ''resource_id'',
     ''outcome'', ''peer'', ''detail'', ''prev_hash'', ''hash'']"
  by code_simp

lemma members_render:
  assumes "json_ok (JObj ms)" "json_depth (JObj ms) \<le> max_depth"
  shows "json_members_of (json_render (JObj ms)) = Inr ms"
  using json_parse_render[OF assms] by (simp only: json_members_of_def option.case json.case)

lemma obj_depth:
  assumes "\<And>k v. (k, v) \<in> set ms \<Longrightarrow> json_depth v \<le> n"
  shows "json_depth (JObj ms) \<le> Suc n"
proof -
  have "Max (set (0 # map (\<lambda>(k, v). json_depth v) ms)) \<le> n"
    using assms by (intro Max.boundedI) auto
  then show ?thesis by simp
qed

text \<open>The members: their keys are the field names, their values strings or the detail object.\<close>

lemma event_members_cases:
  assumes "(k, v) \<in> set (event_members e)"
  obtains s where "v = JStr s" "s \<in> set (event_strings e)"
  | "v = JObj (detail_members (ev_detail e))"
  using assms by (auto simp: event_members_def opt_field_def event_strings_def split: if_splits)

lemma event_members_keys:
  "(k, v) \<in> set (event_members e) \<Longrightarrow> valid_utf8 k"
  using field_names_utf8
  by (auto simp: event_members_def opt_field_def split: if_splits simp del: valid_utf8.simps)

lemma event_members_of_line:
  assumes "event_ok canon e"
  shows "json_members_of (event_line e) = Inr (event_members e)"
  unfolding event_line_def
proof (rule members_render)
  have ok: "\<forall>s\<in>set (event_strings e). valid_utf8 s"
    using assms by (simp add: event_ok_def list_all_iff)
  then have detail: "valid_utf8 k \<and> valid_utf8 v" if "(k, v) \<in> set (ev_detail e)" for k v
    using that by (auto simp: event_strings_def rev_image_eqI)
  have "json_ok v" if "(k, v) \<in> set (event_members e)" for k v
    using that ok detail by (cases rule: event_members_cases) (auto simp: detail_members_def split: prod.splits)
  then show "json_ok (JObj (event_members e))" using event_members_keys by auto
  have "json_depth v \<le> 1" if "(k, v) \<in> set (event_members e)" for k v
    using that
  proof (cases rule: event_members_cases)
    case 2
    have "json_depth (JObj (detail_members (ev_detail e))) \<le> Suc 0"
      by (rule obj_depth) (auto simp: detail_members_def)
    with 2 show ?thesis by simp
  qed simp
  then have "json_depth (JObj (event_members e)) \<le> Suc 1" by (rule obj_depth)
  also have "\<dots> \<le> max_depth" by (simp add: max_depth_def)
  finally show "json_depth (JObj (event_members e)) \<le> max_depth" .
qed

lemma str_le_antisym: "str_le a b \<Longrightarrow> str_le b a \<Longrightarrow> a = b"
proof (induction a b rule: str_le.induct)
  case (1 t)
  then show ?case by (cases t) simp_all
qed auto

lemma put_entry_last:
  "\<forall>j\<in>fst ` set m. str_le j k \<and> j \<noteq> k \<Longrightarrow> put_entry k v m = m @ [(k, v)]"
  by (induction k v m rule: put_entry.induct) (auto dest: str_le_antisym)

lemma as_entries_sorted:
  assumes "in_key_order (m @ d)"
  shows "as_entries (detail_members d) m = Inr (m @ d)"
  using assms unfolding detail_members_def
proof (induction d arbitrary: m)
  case (Cons x d)
  obtain k v where x: "x = (k, v)" by fastforce
  from Cons.prems have "\<forall>j\<in>fst ` set m. str_le j k \<and> j \<noteq> k"
    by (auto simp: in_key_order_def sorted_wrt_append x)
  then have "put_entry k v m = m @ [(k, v)]" by (rule put_entry_last)
  with Cons.IH[of "m @ [(k, v)]"] Cons.prems show ?case
    by (simp add: x as_string_def)
qed simp

lemma json_field_detail:
  "json_field f dec (if d = [] then [] else [(''detail'', JObj ms)]) x =
     (if json_fold f = ''DETAIL'' \<and> d \<noteq> [] then dec (JObj ms) x else Inr x)"
  by (simp add: res_bind_def split: sum.splits)

lemma json_field_nil: "json_field f dec [] x = Inr x"
  by simp

lemma json_field_string:
  "json_field f as_string ((k, JStr s) # ms) x =
     json_field f as_string ms (if json_fold k = json_fold f then s else x)"
  by (simp add: as_string_def)

lemma json_field_time:
  "canon s = Some s \<Longrightarrow> json_fold k = json_fold f \<Longrightarrow>
    json_field f (as_time canon) ((k, JStr s) # ms) x = json_field f (as_time canon) ms s"
  by (simp add: as_time_def)

lemma json_field_skip:
  "json_fold k \<noteq> json_fold f \<Longrightarrow> json_field f dec ((k, v) # ms) x = json_field f dec ms x"
  by simp

lemmas event_field_simps =
  json_field_append json_field_opt json_field_detail json_field_nil json_field_string json_field_skip

lemma event_fields:
  assumes "event_ok canon e"
  shows "json_field ''ts'' (as_time canon) (event_members e) x = Inr (ev_ts e)"
    and "json_field ''id'' as_string (event_members e) [] = Inr (ev_id e)"
    and "json_field ''type'' as_string (event_members e) [] = Inr (ev_type e)"
    and "json_field ''identity'' as_string (event_members e) [] = Inr (ev_identity e)"
    and "json_field ''action'' as_string (event_members e) [] = Inr (ev_action e)"
    and "json_field ''resource_type'' as_string (event_members e) [] = Inr (ev_res_type e)"
    and "json_field ''resource_id'' as_string (event_members e) [] = Inr (ev_res_id e)"
    and "json_field ''outcome'' as_string (event_members e) [] = Inr (ev_outcome e)"
    and "json_field ''peer'' as_string (event_members e) [] = Inr (ev_peer e)"
    and "json_field ''detail'' as_map (event_members e) [] = Inr (ev_detail e)"
    and "json_field ''prev_hash'' as_string (event_members e) [] = Inr (ev_prev e)"
    and "json_field ''hash'' as_string (event_members e) [] = Inr (ev_hash e)"
proof -
  have c: "canon (ev_ts e) = Some (ev_ts e)" and d: "as_map (JObj (detail_members (ev_detail e))) [] = Inr (ev_detail e)"
    using assms as_entries_sorted[of "[]"] by (simp_all add: event_ok_def as_map_def)
  show "json_field ''ts'' (as_time canon) (event_members e) x = Inr (ev_ts e)"
    by (simp add: event_members_def event_field_simps json_field_time[of canon, OF c] del: json_field.simps(2))
  show "json_field ''detail'' as_map (event_members e) [] = Inr (ev_detail e)"
    using d by (simp add: event_members_def event_field_simps del: json_field.simps(2))
qed (simp_all add: event_members_def event_field_simps del: json_field.simps(2) append.simps)

lemma read_event_line:
  assumes "event_ok canon e"
  shows "read_event canon (event_line e) = Inr e"
  by (simp only: read_event_def event_members_of_line[OF assms] event_fields[OF assms] res_bind_simps) simp

section \<open>Logs as lists of lines\<close>

definition log_text :: "event list \<Rightarrow> string" where
  "log_text es = concat (map (\<lambda>e. event_line e @ [CHR 0x0A]) es)"

lemma log_text_simps [simp]:
  "log_text [] = []" "log_text (es @ fs) = log_text es @ log_text fs"
  "log_text (e # es) = event_line e @ CHR 0x0A # log_text es"
  by (simp_all add: log_text_def)

lemma event_line_ok:
  assumes "event_ok canon e"
  shows "CHR 0x0A \<notin> set (event_line e)" "drop_cr (event_line e) = event_line e" "event_line e \<noteq> []"
proof -
  have ok: "\<forall>s\<in>set (event_strings e). valid_utf8 s"
    using assms by (simp add: event_ok_def list_all_iff)
  then have detail: "valid_utf8 k \<and> valid_utf8 v" if "(k, v) \<in> set (ev_detail e)" for k v
    using that by (auto simp: event_strings_def rev_image_eqI)
  have "json_ok v" if "(k, v) \<in> set (event_members e)" for k v
    using that ok detail by (cases rule: event_members_cases) (auto simp: detail_members_def split: prod.splits)
  then have "json_ok (JObj (event_members e))" using event_members_keys by auto
  from printable_render[OF this] have "\<forall>d\<in>set (event_line e). printable d"
    unfolding event_line_def by blast
  moreover have "\<not> printable CHR 0x0A" by (simp add: printable_def byte_def)
  ultimately show "CHR 0x0A \<notin> set (event_line e)" by blast
  obtain m where "event_line e = m @ ''}''"
    unfolding event_line_def json_render.simps by (metis append_assoc)
  then show "drop_cr (event_line e) = event_line e" "event_line e \<noteq> []" by (simp_all add: drop_cr_def)
qed

lemma split_log_text:
  assumes "\<forall>e\<in>set es. event_ok canon e"
  shows "split_on CHR 0x0A (log_text es) = map event_line es @ [[]]"
  using assms event_line_ok(1) by (induction es) (auto simp: split_on_append)

lemma splitLines_log_text:
  assumes "\<forall>e\<in>set es. event_ok canon e"
  shows "splitLines (log_text es) = map event_line es"
  by (simp add: splitLines_def split_log_text[OF assms])

lemma scan_log_text:
  assumes "\<forall>e\<in>set es. event_ok canon e \<and> fits (event_line e)"
  shows "scan_lines (log_text es) = (map event_line es, False)"
proof -
  have "takeWhile fits (map event_line es) = map event_line es"
    using assms by (induction es) auto
  moreover have "map drop_cr (map event_line es) = map event_line es"
    using assms event_line_ok(2) by auto
  moreover have "list_all fits (map event_line es)" using assms by (auto simp: list_all_iff)
  moreover have "splitLines (log_text es) = map event_line es" using assms splitLines_log_text by blast
  ultimately show ?thesis by (simp only: scan_lines_def Let_def not_True_eq_False)
qed

section \<open>Chains\<close>

text \<open>
  The specification of a good log: every event is signed with the key and names the hash of the
  event before it, the first one \<open>genesis\<close>.
\<close>

fun chained :: "(string \<Rightarrow> string \<Rightarrow> string) \<Rightarrow> string \<Rightarrow> string \<Rightarrow> event list \<Rightarrow> bool" where
  "chained hmac key prev [] = True"
| "chained hmac key prev (e # es) =
     (ev_prev e = prev \<and> ev_hash e = computeHash hmac key e \<and> chained hmac key (ev_hash e) es)"

definition last_of :: "string \<Rightarrow> event list \<Rightarrow> string" where
  "last_of prev es = (if es = [] then prev else ev_hash (last es))"

lemma last_of_simps [simp]:
  "last_of p [] = p" "last_of p (e # es) = last_of (ev_hash e) es" "last_of p (es @ [e]) = ev_hash e"
  by (simp_all add: last_of_def)

lemma chained_append:
  "chained hmac key p (es @ fs) \<longleftrightarrow> chained hmac key p es \<and> chained hmac key (last_of p es) fs"
  by (induction es arbitrary: p) (auto simp: last_of_def)

text \<open>One line of verification; the count of breaks never goes down.\<close>

definition faults_of :: "verify_result \<Rightarrow> nat" where
  "faults_of r = vr_broken r + vr_invalid r"

lemma broke_simps [simp]:
  "vr_total (broke r) = vr_total r" "vr_valid (broke r) = vr_valid r" "vr_broken (broke r) = vr_broken r"
  "vr_invalid (broke r) = vr_invalid r"
  by (simp_all add: broke_def)

lemma verify_line_mono:
  "faults_of r \<le> faults_of (fst (verify_line canon hmac key l (r, p)))"
  by (auto simp: verify_line_def faults_of_def Let_def split: sum.splits)

lemma verify_fold_mono:
  "faults_of (fst st) \<le> faults_of (fst (fold (verify_line canon hmac key) ls st))"
proof (induction ls arbitrary: st)
  case (Cons l ls)
  have "faults_of (fst st) \<le> faults_of (fst (verify_line canon hmac key l st))"
    using verify_line_mono[of "fst st" canon hmac key l "snd st"] by simp
  also have "\<dots> \<le> faults_of (fst (fold (verify_line canon hmac key) ls (verify_line canon hmac key l st)))"
    by (rule Cons.IH)
  finally show ?case by simp
qed simp

text \<open>On a chained list of events verification counts every event as valid.\<close>

lemma verify_chained:
  assumes "\<forall>e\<in>set es. read_event canon (event_line e) = Inr e \<and> event_line e \<noteq> []"
    and "chained hmac key p es"
  shows "fold (verify_line canon hmac key) (map event_line es) (r, p) =
    (r\<lparr>vr_total := vr_total r + length es, vr_valid := vr_valid r + length es\<rparr>, last_of p es)"
  using assms
proof (induction es arbitrary: r p)
  case (Cons e es)
  then have "verify_line canon hmac key (event_line e) (r, p) =
      (r\<lparr>vr_total := vr_total r + 1, vr_valid := vr_valid r + 1\<rparr>, ev_hash e)"
    by (simp add: verify_line_def Let_def)
  moreover have "fold (verify_line canon hmac key) (map event_line es)
      (r\<lparr>vr_total := vr_total r + 1, vr_valid := vr_valid r + 1\<rparr>, ev_hash e) =
      (r\<lparr>vr_total := vr_total r + length (e # es), vr_valid := vr_valid r + length (e # es)\<rparr>,
       last_of (ev_hash e) es)"
  proof -
    from Cons.prems have "\<forall>e\<in>set es. read_event canon (event_line e) = Inr e \<and> event_line e \<noteq> []"
      and "chained hmac key (ev_hash e) es" unfolding chained.simps by (simp, blast)
    from Cons.IH[OF this] show ?thesis by simp
  qed
  ultimately show ?case by simp
qed simp

text \<open>Conversely, a log that verifies without a fault is a chained list of events.\<close>

definition events_of :: "(string \<Rightarrow> string option) \<Rightarrow> string list \<Rightarrow> event list" where
  "events_of canon ls =
     List.map_filter (\<lambda>l. if l = [] then None
       else (case read_event canon l of Inr e \<Rightarrow> Some e | Inl err \<Rightarrow> None)) ls"

lemma events_of_simps:
  "events_of canon [] = []"
  "events_of canon (l # ls) = (if l = [] then events_of canon ls
     else (case read_event canon l of Inr e \<Rightarrow> e # events_of canon ls | Inl err \<Rightarrow> events_of canon ls))"
  by (simp_all add: events_of_def List.map_filter_def split: sum.splits)

lemma verify_clean_chained:
  assumes "faults_of (fst (fold (verify_line canon hmac key) ls (r, p))) = faults_of r"
  shows "chained hmac key p (events_of canon ls)"
  using assms
proof (induction ls arbitrary: r p)
  case (Cons l ls)
  obtain r' p' where st: "verify_line canon hmac key l (r, p) = (r', p')" by fastforce
  have "faults_of r \<le> faults_of r'" using verify_line_mono[of r canon hmac key l p] st by simp
  moreover have "faults_of r' \<le> faults_of (fst (fold (verify_line canon hmac key) ls (r', p')))"
    using verify_fold_mono[of "(r', p')"] by simp
  ultimately have eq: "faults_of r' = faults_of r"
    and rest: "faults_of (fst (fold (verify_line canon hmac key) ls (r', p'))) = faults_of r'"
    using Cons.prems st by simp_all
  show ?case
  proof (cases "l = [] \<or> (\<exists>err. read_event canon l = Inl err)")
    case True
    with st eq have "events_of canon (l # ls) = events_of canon ls \<and> p' = p"
      by (auto simp: events_of_simps verify_line_def Let_def)
    with Cons.IH[OF rest] show ?thesis by simp
  next
    case False
    then obtain e where e: "l \<noteq> []" "read_event canon l = Inr e"
      by (cases "read_event canon l") auto
    with st eq have "ev_prev e = p" "ev_hash e = computeHash hmac key e" "p' = ev_hash e"
      by (auto simp: verify_line_def Let_def faults_of_def split: if_splits)
    with Cons.IH[OF rest] e show ?thesis by (simp add: events_of_simps)
  qed
qed (simp add: events_of_simps)

lemma verify_lines_clean:
  assumes "vr_broken (verify_lines canon hmac key ls) = 0" "vr_invalid (verify_lines canon hmac key ls) = 0"
  shows "chained hmac key ''genesis'' (events_of canon ls)"
  using assms by (intro verify_clean_chained[of canon hmac key ls zero_result])
    (simp add: verify_lines_def faults_of_def zero_result_def)

section \<open>The logger keeps a chained log\<close>

lemma valid_utf8_ascii: "\<forall>c\<in>set s. ascii c \<Longrightarrow> valid_utf8 s"
  by (induction s) auto

declare valid_utf8.simps [simp del]

lemma alnum_ascii: "is_alnum c \<Longrightarrow> ascii c"
  using alnum_graphic[of c] by (simp add: graphic_def ascii_def)

lemma valid_utf8_hex [simp]: "valid_utf8 (hex_encode x)"
  using hex_encode_alnum alnum_ascii by (blast intro: valid_utf8_ascii)

lemma valid_utf8_genesis [simp]: "valid_utf8 ''genesis''"
  by code_simp

text \<open>What a caller of \<open>Log\<close> has to give for the event to be written faithfully.\<close>

type_synonym log_call = "string \<times> string \<times> int \<times> event"

fun call_ok :: "(string \<Rightarrow> string option) \<Rightarrow> log_call \<Rightarrow> bool" where
  "call_ok canon (ts, bytes, cutoff, e) =
     (canon ts = Some ts \<and> list_all valid_utf8 ([ts, ev_type e, ev_identity e, ev_action e, ev_res_type e,
        ev_res_id e, ev_outcome e, ev_peer e] @ map fst (ev_detail e) @ map snd (ev_detail e))
      \<and> in_key_order (ev_detail e))"

fun log_all ::
    "(string \<Rightarrow> string \<Rightarrow> string) \<Rightarrow> log_call list \<Rightarrow> file_logger \<times> fs \<Rightarrow> file_logger \<times> fs" where
  "log_all hmac [] st = st"
| "log_all hmac ((ts, bytes, cutoff, e) # cs) st = log_all hmac cs (Log hmac ts bytes cutoff e st)"

definition log_inv ::
    "(string \<Rightarrow> string option) \<Rightarrow> (string \<Rightarrow> string \<Rightarrow> string) \<Rightarrow> file_logger \<Rightarrow> fs \<Rightarrow> event list \<Rightarrow> bool" where
  "log_inv canon hmac l s es \<longleftrightarrow>
     fl_open l \<and> file_at s (log_path (fl_cfg l)) = Some (log_text es) \<and> (\<forall>e\<in>set es. event_ok canon e)
     \<and> chained hmac (fl_key l) ''genesis'' es \<and> fl_prev l = last_of ''genesis'' es"

lemma stamp_simps [simp]:
  "ev_prev (stamp hmac ts b l e) = fl_prev l"
  "ev_hash (stamp hmac ts b l e) = computeHash hmac (fl_key l) (stamp hmac ts b l e)"
  by (simp_all add: stamp_def Let_def computeHash_def hash_input_def)

lemma last_of_valid:
  assumes "\<forall>e\<in>set es. event_ok canon e"
  shows "valid_utf8 (last_of ''genesis'' es)"
  using assms by (cases es rule: rev_cases) (auto simp: event_ok_def event_strings_def)

lemma stamp_ok:
  assumes "call_ok canon (ts, b, c, e)" "log_inv canon hmac l s es"
  shows "event_ok canon (stamp hmac ts b l e)"
  using assms last_of_valid[of es canon]
  by (simp add: event_ok_def event_strings_def stamp_def Let_def generateID_def computeHash_def log_inv_def
      in_key_order_def)

lemma log_inv_subs [simp]: "log_inv canon hmac (l\<lparr>fl_subs := x\<rparr>) s es = log_inv canon hmac l s es"
  by (simp add: log_inv_def)

text \<open>Writing to the open log when it is not rotated.\<close>

lemma Log_append:
  assumes inv: "log_inv canon hmac l s es" and calm: "calm s" and ok: "call_ok canon (ts, b, c, e)"
    and stay: "maybeRotate c (l\<lparr>fl_prev := ev_hash (stamp hmac ts b l e)\<rparr>) s
      = (l\<lparr>fl_prev := ev_hash (stamp hmac ts b l e)\<rparr>, s)"
    and l': "Log hmac ts b c e (l, s) = (l', s')"
  shows "log_inv canon hmac l' s' (es @ [stamp hmac ts b l e]) \<and> calm s'
    \<and> fl_cfg l' = fl_cfg l \<and> fl_key l' = fl_key l
    \<and> (\<forall>q. q \<noteq> log_path (fl_cfg l) \<longrightarrow> file_at s' q = file_at s q)"
proof -
  let ?e = "stamp hmac ts b l e"
  have "Append (log_path (fl_cfg l)) (event_line ?e @ [CHR 0x0A]) s =
      (None, put_file (log_path (fl_cfg l)) (log_text (es @ [?e])) s)"
    using inv calm by (simp add: Append_def log_inv_def)
  with inv l' stay have "s' = put_file (log_path (fl_cfg l)) (log_text (es @ [?e])) s"
    and "l' = l\<lparr>fl_prev := ev_hash ?e, fl_subs := map (notify ?e) (fl_subs l)\<rparr>"
    by (auto simp: Log_def Let_def log_inv_def simp del: stamp_simps)
  with inv calm stamp_ok[OF ok inv] show ?thesis
    by (simp add: log_inv_def chained_append)
qed

lemma log_all_append:
  assumes "log_inv canon hmac l s es" "calm s" "\<forall>c\<in>set cs. call_ok canon c" "ac_max_mb (fl_cfg l) \<le> 0"
    and "log_all hmac cs (l, s) = (l', s')"
  shows "\<exists>fs. length fs = length cs \<and> log_inv canon hmac l' s' (es @ fs) \<and> calm s'
    \<and> fl_cfg l' = fl_cfg l \<and> fl_key l' = fl_key l
    \<and> (\<forall>q. q \<noteq> log_path (fl_cfg l) \<longrightarrow> file_at s' q = file_at s q)"
  using assms
proof (induction cs arbitrary: l s es)
  case Nil
  then show ?case by auto
next
  case (Cons c cs)
  obtain ts b cut e where c: "c = (ts, b, cut, e)" by (metis prod_cases4)
  obtain l1 s1 where l1: "Log hmac ts b cut e (l, s) = (l1, s1)" by fastforce
  have "maybeRotate cut (l\<lparr>fl_prev := x\<rparr>) s = (l\<lparr>fl_prev := x\<rparr>, s)" for x
    using Cons.prems(4) by (simp add: maybeRotate_def)
  from Log_append[OF Cons.prems(1,2) _ this l1] Cons.prems(3) c
  have step: "log_inv canon hmac l1 s1 (es @ [stamp hmac ts b l e])" "calm s1" "fl_cfg l1 = fl_cfg l"
    "fl_key l1 = fl_key l" "\<forall>q. q \<noteq> log_path (fl_cfg l) \<longrightarrow> file_at s1 q = file_at s q"
    by auto
  from Cons.IH[OF step(1,2)] Cons.prems c l1 step(3) obtain fs where fs: "length fs = length cs"
    "log_inv canon hmac l' s' ((es @ [stamp hmac ts b l e]) @ fs)" "calm s'" "fl_cfg l' = fl_cfg l1"
    "fl_key l' = fl_key l1" "\<forall>q. q \<noteq> log_path (fl_cfg l1) \<longrightarrow> file_at s' q = file_at s1 q"
    by auto
  with step show ?case by (intro exI[of _ "stamp hmac ts b l e # fs"]) simp
qed

lemma key_log_differ [simp]: "key_path cfg \<noteq> log_path cfg" "log_path cfg \<noteq> key_path cfg"
  by (simp_all add: key_path_def log_path_def plain_name_def)

lemma VerifyLog_chained:
  assumes "log_inv canon hmac l s es" "calm s" "file_at s (key_path (fl_cfg l)) = Some (fl_key l)"
    and "length (fl_key l) = 32" "\<forall>e\<in>set es. fits (event_line e)"
  shows "VerifyLog canon hmac (log_path (fl_cfg l)) (key_path (fl_cfg l)) s =
    (Inr (zero_result\<lparr>vr_total := length es, vr_valid := length es\<rparr>, None), s)"
proof -
  have ok: "\<forall>e\<in>set es. event_ok canon e" and logf: "file_at s (log_path (fl_cfg l)) = Some (log_text es)"
    and ch: "chained hmac (fl_key l) ''genesis'' es"
    using assms(1) by (simp_all add: log_inv_def)
  have "scan_lines (log_text es) = (map event_line es, False)"
    using scan_log_text ok assms(5) by blast
  moreover have "\<forall>e\<in>set es. read_event canon (event_line e) = Inr e \<and> event_line e \<noteq> []"
    using ok read_event_line event_line_ok(3) by blast
  from verify_chained[OF this ch] have "verify_lines canon hmac (fl_key l) (map event_line es) =
      zero_result\<lparr>vr_total := length es, vr_valid := length es\<rparr>"
    by (simp add: verify_lines_def zero_result_def)
  ultimately show ?thesis
    using calm_ops(1)[OF assms(2) assms(3)] calm_ops(1)[OF assms(2) logf] assms(4)
    by (simp add: VerifyLog_def)
qed

section \<open>Properties of the chain\<close>

text \<open>
  C3: what \<open>Log\<close> writes, \<open>VerifyLog\<close> accepts: after any calls on a chained log that is not rotated,
  with valid UTF-8 and lines below one megabyte, every event is counted valid, none is broken.
\<close>

theorem audit_log_verifies:
  assumes "log_inv canon hmac l s es" "calm s" "\<forall>c\<in>set cs. call_ok canon c" "ac_max_mb (fl_cfg l) \<le> 0"
    and "file_at s (key_path (fl_cfg l)) = Some (fl_key l)" "length (fl_key l) = 32"
    and "log_all hmac cs (l, s) = (l', s')"
    and "\<forall>x\<in>set (splitLines (the (file_at s' (log_path (fl_cfg l))))). fits x"
  shows "fst (VerifyLog canon hmac (log_path (fl_cfg l)) (key_path (fl_cfg l)) s') =
    Inr (\<lparr>vr_total = length es + length cs, vr_valid = length es + length cs, vr_broken = 0,
          vr_first = 0, vr_invalid = 0\<rparr>, None)"
proof -
  from log_all_append[OF assms(1-4,7)] obtain fs where fs: "length fs = length cs"
    "log_inv canon hmac l' s' (es @ fs)" "calm s'" "fl_cfg l' = fl_cfg l" "fl_key l' = fl_key l"
    "file_at s' (key_path (fl_cfg l)) = Some (fl_key l)"
    using assms(5) by auto
  have "\<forall>e\<in>set (es @ fs). fits (event_line e)"
    using assms(8) fs(2,4) splitLines_log_text[of "es @ fs" canon] by (auto simp: log_inv_def)
  from VerifyLog_chained[OF fs(2,3) _ _ this] fs assms(6) show ?thesis by (simp add: zero_result_def)
qed

text \<open>The last field of the hashed text is the previous hash, which has no separator in it.\<close>

definition hash_text :: "string \<Rightarrow> bool" where
  "hash_text h \<longleftrightarrow> h = ''genesis'' \<or> (\<exists>x. h = hex_encode x)"

lemma hash_text_no_bar: "hash_text h \<Longrightarrow> CHR ''|'' \<notin> set h"
  using hex_encode_alnum[of "CHR ''|''"]
  by (auto simp: hash_text_def is_alnum_def is_alpha_def is_digit_def is_lower_def is_upper_def byte_def)

lemma hash_not_genesis: "hex_encode x \<noteq> ''genesis''"
proof
  assume "hex_encode x = ''genesis''"
  then have "hex_decode ''genesis'' = Some x" using hex_decode_encode[of x] by simp
  moreover have "hex_decode ''genesis'' = None" by code_simp
  ultimately show False by simp
qed

lemma last_piece:
  assumes "p @ c # x = q @ c # y" "c \<notin> set x" "c \<notin> set y"
  shows "x = y"
proof -
  have "takeWhile (\<lambda>d. d \<noteq> c) (rev x @ c # rev p) = rev x" "takeWhile (\<lambda>d. d \<noteq> c) (rev y @ c # rev q) = rev y"
    using assms(2,3) by (intro takeWhile_append_stop; auto)+
  moreover have "rev x @ c # rev p = rev y @ c # rev q"
    using arg_cong[OF assms(1), of rev] by simp
  ultimately show ?thesis by simp
qed

lemma hash_input_bar: "\<exists>p. hash_input e = p @ CHR ''|'' # ev_prev e"
proof
  show "hash_input e = join_with ''|''
     [ev_ts e, ev_id e, ev_type e, ev_identity e, ev_action e, ev_res_type e, ev_res_id e, ev_outcome e, ev_peer e]
     @ CHR ''|'' # ev_prev e"
    by (simp add: hash_input_def)
qed

lemma hash_input_prev:
  assumes "hash_input e = hash_input f" "hash_text (ev_prev e)" "hash_text (ev_prev f)"
  shows "ev_prev e = ev_prev f"
proof -
  obtain p q where "p @ CHR ''|'' # ev_prev e = q @ CHR ''|'' # ev_prev f"
    using assms(1) hash_input_bar[of e] hash_input_bar[of f] by force
  moreover have "CHR ''|'' \<notin> set (ev_prev e)" "CHR ''|'' \<notin> set (ev_prev f)"
    using assms(2,3) hash_text_no_bar by auto
  ultimately show ?thesis by (rule last_piece)
qed

lemma chained_hash_text:
  "chained hmac key p es \<Longrightarrow> hash_text p \<Longrightarrow> hash_text (last_of p es) \<and> (\<forall>e\<in>set es. hash_text (ev_prev e))"
proof (induction es arbitrary: p)
  case (Cons e es)
  then have "hash_text (ev_hash e)" by (auto simp: hash_text_def computeHash_def)
  with Cons show ?case by auto
qed simp

lemma chains_agree:
  assumes "chained hmac key ''genesis'' es" "chained hmac key ''genesis'' fs"
    and "inj_on (hmac key) (hash_input ` (set es \<union> set fs))"
    and "last_of ''genesis'' es = last_of ''genesis'' fs"
  shows "map hash_input es = map hash_input fs"
  using assms
proof (induction es arbitrary: fs rule: rev_induct)
  case Nil
  then show ?case
    using hash_not_genesis by (cases fs rule: rev_cases) (auto simp: chained_append computeHash_def)
next
  case (snoc e es)
  show ?case
  proof (cases fs rule: rev_cases)
    case Nil
    with snoc.prems show ?thesis
      using hash_not_genesis by (auto simp: chained_append computeHash_def)
  next
    case (snoc gs f)
    note fs = this
    note e = snoc.prems(1)[unfolded chained_append] and f = snoc.prems(2)[unfolded fs chained_append]
    have "hex_encode (hmac key (hash_input e)) = hex_encode (hmac key (hash_input f))"
      using snoc.prems(4) fs e f by (simp add: computeHash_def)
    then have "hmac key (hash_input e) = hmac key (hash_input f)"
      by (metis hex_decode_encode option.inject)
    then have eq: "hash_input e = hash_input f"
      by (rule inj_onD[OF snoc.prems(3)]) (auto simp: fs)
    have "hash_text ''genesis''" by (simp add: hash_text_def)
    then have "hash_text (ev_prev e)" "hash_text (ev_prev f)"
      using chained_hash_text[OF snoc.prems(1)] chained_hash_text[OF snoc.prems(2)] fs by auto
    with eq have "ev_prev e = ev_prev f" by (rule hash_input_prev)
    with e f have "last_of ''genesis'' es = last_of ''genesis'' gs" by simp
    moreover have "inj_on (hmac key) (hash_input ` (set es \<union> set gs))"
      using snoc.prems(3) fs by (auto intro: inj_on_subset)
    ultimately have "map hash_input es = map hash_input gs"
      using snoc.IH[of gs] e f by simp
    with eq fs show ?thesis by simp
  qed
qed

text \<open>
  C11: the last hash commits to the whole log: two logs that verify without a fault under one key
  and end in the same hash have the same signed texts, event by event, when the HMAC does not
  collide on them. So nothing before the last event was changed, removed, added or moved.
\<close>

theorem audit_log_commits:
  assumes "vr_broken (verify_lines canon hmac key ls) = 0" "vr_invalid (verify_lines canon hmac key ls) = 0"
    and "vr_broken (verify_lines canon hmac key ms) = 0" "vr_invalid (verify_lines canon hmac key ms) = 0"
    and "last_of ''genesis'' (events_of canon ls) = last_of ''genesis'' (events_of canon ms)"
    and "inj_on (hmac key) (hash_input ` (set (events_of canon ls) \<union> set (events_of canon ms)))"
  shows "map hash_input (events_of canon ls) = map hash_input (events_of canon ms)"
  by (rule chains_agree[OF verify_lines_clean[OF assms(1,2)] verify_lines_clean[OF assms(3,4)] assms(6,5)])

text \<open>
  cutting events off the end is not noticed: every beginning of a log that verifies without a
  fault verifies without a fault.
\<close>

theorem audit_truncation_unnoticed:
  assumes "vr_broken (verify_lines canon hmac key (ls @ ms)) = 0"
    and "vr_invalid (verify_lines canon hmac key (ls @ ms)) = 0"
  shows "vr_broken (verify_lines canon hmac key ls) = 0 \<and> vr_invalid (verify_lines canon hmac key ls) = 0"
proof -
  let ?st = "fold (verify_line canon hmac key) ls (zero_result, ''genesis'')"
  have "faults_of (fst ?st) \<le> faults_of (fst (fold (verify_line canon hmac key) ms ?st))"
    by (rule verify_fold_mono)
  with assms show ?thesis by (simp add: verify_lines_def faults_of_def)
qed

text \<open>
  an event is left out exactly when it is a success of a named identity and some rule names this
  identity and does not name another action or resource; failures and events without an
  identity are always logged.
\<close>

theorem should_log_iff:
  "\<not> ShouldLog cfg i a r outcome \<longleftrightarrow>
     outcome = ''success'' \<and> i \<noteq> [] \<and>
     (\<exists>rule\<in>set (ac_excludes cfg). ex_identity rule = i \<and> ex_action rule \<in> {[], a} \<and> ex_resource rule \<in> {[], r})"
  by (auto simp: ShouldLog_def list_ex_iff)

text \<open>
  the detail map is not under the hash: changing, adding or removing details of an event leaves
  the verification of its line as it is.
\<close>

theorem audit_detail_unprotected:
  assumes "event_ok canon e" "event_ok canon (e\<lparr>ev_detail := d\<rparr>)"
  shows "verify_line canon hmac key (event_line (e\<lparr>ev_detail := d\<rparr>)) st
    = verify_line canon hmac key (event_line e) st"
  using read_event_line[OF assms(1)] read_event_line[OF assms(2)]
    event_line_ok(3)[OF assms(1)] event_line_ok(3)[OF assms(2)]
  by (simp add: verify_line_def computeHash_def hash_input_def cong: option.case_cong)

section \<open>Rotation\<close>

lemma rename_calm:
  assumes "calm s" "\<not> is_dir s q" "p \<noteq> q"
  shows "file_at (snd (Rename p q s)) x =
      (if file_at s p = None then file_at s x
       else if x = q then file_at s p else if x = p then None else file_at s x)"
    and "calm (snd (Rename p q s))" "is_dir (snd (Rename p q s)) y = is_dir s y"
  using assms
  by (auto simp: Rename_def file_at_def is_dir_def calm_def next_fault_def tick_def update_conv' delete_conv'
      split: option.splits)

lemma show_nat_inject [simp]: "show_nat i = show_nat j \<longleftrightarrow> i = j"
  by (metis digits_val_show)

lemma rotated_simps [simp]:
  "rotated p i = rotated p j \<longleftrightarrow> i = j" "rotated p i \<noteq> p" "p \<noteq> rotated p i"
  by (auto simp: rotated_def dest: arg_cong[of _ _ length])

lemma shift_calm:
  assumes "calm s" "\<And>k. \<not> is_dir s (rotated p k)"
  shows "calm (shift p n s)" "is_dir (shift p n s) y = is_dir s y"
  using assms
  by (induction n arbitrary: s) (simp_all add: rename_calm)

lemma shift_frame:
  assumes "calm s" "\<And>k. \<not> is_dir s (rotated p k)" "\<And>k. 0 < k \<Longrightarrow> k \<le> Suc n \<Longrightarrow> x \<noteq> rotated p k"
  shows "file_at (shift p n s) x = file_at s x"
  using assms
proof (induction n arbitrary: s)
  case (Suc n)
  let ?t = "snd (Rename (rotated p (Suc n)) (rotated p (Suc (Suc n))) s)"
  have "file_at (shift p n ?t) x = file_at ?t x"
    using Suc.prems by (intro Suc.IH) (simp_all add: rename_calm)
  also have "\<dots> = file_at s x" using Suc.prems by (simp add: rename_calm)
  finally show ?case by simp
qed simp

lemma shift_moves:
  assumes "calm s" "\<And>k. \<not> is_dir s (rotated p k)" "0 < k" "k \<le> n" "file_at s (rotated p k) = Some d"
  shows "file_at (shift p n s) (rotated p (Suc k)) = Some d"
  using assms
proof (induction n arbitrary: s)
  case (Suc n)
  let ?t = "snd (Rename (rotated p (Suc n)) (rotated p (Suc (Suc n))) s)"
  have t: "calm ?t" "\<And>k. \<not> is_dir ?t (rotated p k)" using Suc.prems by (simp_all add: rename_calm)
  show ?case
  proof (cases "k = Suc n")
    case True
    then have "file_at ?t (rotated p (Suc k)) = Some d" using Suc.prems by (simp add: rename_calm)
    moreover have "file_at (shift p n ?t) (rotated p (Suc k)) = file_at ?t (rotated p (Suc k))"
      using True by (intro shift_frame[OF t]) simp
    ultimately show ?thesis by simp
  next
    case False
    then have "file_at ?t (rotated p k) = Some d" using Suc.prems by (simp add: rename_calm)
    with Suc.IH[OF t] False Suc.prems show ?thesis by simp
  qed
qed simp

text \<open>Rotating without an age limit: every file moves up one place.\<close>

lemma rotate_files_calm:
  assumes "calm s" "\<And>k. \<not> is_dir s (rotated (log_path cfg) k)" "ac_max_days cfg \<le> 0"
    and "file_at s (log_path cfg) = Some d"
  shows "calm (rotate_files cfg c s)" "is_dir (rotate_files cfg c s) y = is_dir s y"
    and "file_at (rotate_files cfg c s) (log_path cfg) = None"
    and "file_at (rotate_files cfg c s) (rotated (log_path cfg) 1) = Some d"
    and "0 < k \<Longrightarrow> k \<le> 4 \<Longrightarrow> file_at s (rotated (log_path cfg) k) = Some x \<Longrightarrow>
      file_at (rotate_files cfg c s) (rotated (log_path cfg) (Suc k)) = Some x"
proof -
  let ?t = "shift (log_path cfg) 4 s"
  have t: "calm ?t" "is_dir ?t y = is_dir s y" for y
    using shift_calm[OF assms(1,2)] by blast+
  have "file_at ?t (log_path cfg) = Some d"
    using shift_frame[OF assms(1,2), where x = "log_path cfg"] assms(4) by simp
  moreover have "rotate_files cfg c s = snd (Rename (log_path cfg) (rotated (log_path cfg) 1) ?t)"
    using assms(3) by (simp add: rotate_files_def Let_def)
  moreover note rename_calm[OF t(1), of "rotated (log_path cfg) 1" "log_path cfg"]
  ultimately show "calm (rotate_files cfg c s)" "is_dir (rotate_files cfg c s) y = is_dir s y"
    "file_at (rotate_files cfg c s) (log_path cfg) = None"
    "file_at (rotate_files cfg c s) (rotated (log_path cfg) 1) = Some d"
    and "0 < k \<Longrightarrow> k \<le> 4 \<Longrightarrow> file_at s (rotated (log_path cfg) k) = Some x \<Longrightarrow>
      file_at (rotate_files cfg c s) (rotated (log_path cfg) (Suc k)) = Some x"
    using t assms(1,2) shift_moves[OF assms(1,2), of k 4 x] by simp_all
qed


section \<open>Restart\<close>

lemma split_log_tail:
  assumes "event_ok canon e" "length (event_line e) < read_size"
  shows "\<exists>ls. splitLines (drop (length (log_text (es @ [e])) - read_size) (log_text (es @ [e]))) = ls @ [event_line e]"
proof -
  let ?x = "log_text es" and ?l = "event_line e" and ?n = "length (log_text (es @ [e])) - read_size"
  have n: "drop ?n (log_text (es @ [e])) = drop ?n ?x @ ?l @ [CHR 0x0A]"
    using assms(2) by simp
  have nl: "CHR 0x0A \<notin> set ?l" using event_line_ok(1)[OF assms(1)] .
  show ?thesis
  proof (cases "drop ?n ?x = []")
    case True
    then show ?thesis using nl by (simp only: n) (simp add: splitLines_def split_on_append split_on_single)
  next
    case False
    obtain fs f where "es = fs @ [f]" using False by (cases es rule: rev_cases) auto
    then have "last ?x = CHR 0x0A" "?x \<noteq> []" by simp_all
    then have "last (drop ?n ?x) = CHR 0x0A" using False by simp
    then obtain y where "drop ?n ?x = y @ [CHR 0x0A]"
      using False by (metis append_butlast_last_id)
    then have "drop ?n (log_text (es @ [e])) = y @ CHR 0x0A # ?l @ CHR 0x0A # []" using n by simp
    moreover have "split_on CHR 0x0A (y @ CHR 0x0A # ?l @ CHR 0x0A # []) = split_on CHR 0x0A y @ [?l, []]"
    proof -
      have "split_on c (a @ c # b) = split_on c a @ split_on c b" for a b :: string and c
        by (induction c a rule: split_on.induct) (auto split: list.splits)
      then show ?thesis using nl by (simp add: split_on_single)
    qed
    ultimately show ?thesis by (simp add: splitLines_def butlast_append)
  qed
qed

lemma readLastHash_log:
  assumes "calm s" "file_at s p = Some (log_text es)" "\<forall>e\<in>set es. event_ok canon e"
    and "es \<noteq> [] \<longrightarrow> length (event_line (last es)) < read_size"
  shows "readLastHash canon p s = (last_of ''genesis'' es, s)"
proof (cases es rule: rev_cases)
  case Nil
  with assms calm_ops(1)[OF assms(1,2)] show ?thesis by (simp add: readLastHash_def)
next
  case (snoc fs e)
  with assms obtain ls where
    "splitLines (drop (length (log_text es) - read_size) (log_text es)) = ls @ [event_line e]"
    using split_log_tail[of canon e fs] by auto
  moreover have "read_event canon (event_line e) = Inr e" "event_line e \<noteq> []"
    using assms(3) snoc read_event_line event_line_ok(3) by auto
  moreover have "log_text es \<noteq> []" using snoc by simp
  ultimately show ?thesis
    using calm_ops(1)[OF assms(1,2)] snoc by (simp add: readLastHash_def del: log_text_simps)
qed

text \<open>
  a logger started on an existing log and key takes up the chain where the log ends, so that what
  it writes next continues a log that verifies.
\<close>

theorem audit_restart_resumes:
  assumes "calm s" "MkdirAll (ac_dir cfg) s = (None, s1)" "\<not> is_dir s1 (log_path cfg)"
    and "is_dir s1 (path_dir (log_path cfg))"
    and "file_at s (log_path cfg) = Some (log_text es)" "file_at s (key_path cfg) = Some key" "length key = 32"
    and "\<forall>e\<in>set es. event_ok canon e" "chained hmac key ''genesis'' es"
    and "es \<noteq> [] \<longrightarrow> length (event_line (last es)) < read_size"
  shows "\<exists>l. NewFileLogger canon rand cfg s = (Inr l, s1) \<and> log_inv canon hmac l s1 es
    \<and> fl_key l = key \<and> fl_cfg l = cfg"
proof -
  have calm: "calm s1" and files: "file_at s1 q = file_at s q" for q
    using assms(1,2) mkdir_calm[of s "ac_dir cfg"] mkdir_files[of "ac_dir cfg" s q] by auto
  then have "file_at s1 (log_path cfg) = Some (log_text es)" "file_at s1 (key_path cfg) = Some key"
    using assms(5,6) by simp_all
  moreover from this have "OpenAppend (log_path cfg) s1 = (None, s1)"
    using calm assms(3,4) by (simp add: OpenAppend_def)
  moreover have "ReadFile (key_path cfg) s1 = (Inr key, s1)"
    using calm_ops(1)[OF calm] calculation(2) by blast
  moreover have "readLastHash canon (log_path cfg) s1 = (last_of ''genesis'' es, s1)"
    using readLastHash_log[OF calm calculation(1) assms(8,10)] .
  ultimately show ?thesis
    using assms(2,7,8,9) by (simp add: NewFileLogger_def Let_def log_inv_def)
qed

section \<open>Examples\<close>

text \<open>A node with an empty log, a key of 32 bytes, and one event.\<close>

definition test_key :: string where
  "test_key = replicate 32 CHR ''k''"

definition test_cfg :: "int \<Rightarrow> audit_config" where
  "test_cfg mb = \<lparr>ac_dir = ''/a'', ac_excludes = [], ac_max_mb = mb, ac_max_days = 0\<rparr>"

definition test_logger :: "int \<Rightarrow> string \<Rightarrow> file_logger" where
  "test_logger mb prev = \<lparr>fl_cfg = test_cfg mb, fl_key = test_key, fl_prev = prev, fl_open = True, fl_subs = []\<rparr>"

definition test_log_fs :: "string \<Rightarrow> fs" where
  "test_log_fs d =
     \<lparr>fs_files = [(''/a/audit.log'', \<lparr>f_data = d, f_time = 0\<rparr>), (''/a/hmac.key'', \<lparr>f_data = test_key, f_time = 0\<rparr>)],
      fs_dirs = [''/a'', ''/''], fs_now = 1, fs_faults = []\<rparr>"

definition test_event :: event where
  "test_event = zero_event\<lparr>ev_type := ''boot'', ev_outcome := ''success''\<rparr>"

definition test_call :: log_call where
  "test_call = (''2024-01-01T00:00:00Z'', ''A'', 0, test_event)"

abbreviation test_hmac :: "string \<Rightarrow> string \<Rightarrow> string" where
  "test_hmac k m \<equiv> ''x''"

lemma test_audit_paths [simp]:
  "log_path (test_cfg mb) = ''/a/audit.log''" "key_path (test_cfg mb) = ''/a/hmac.key''"
  "path_dir ''/a/audit.log'' = ''/a''"
proof -
  have "path_join ''/a'' ''audit.log'' = ''/a/audit.log''" "path_join ''/a'' ''hmac.key'' = ''/a/hmac.key''"
    by code_simp+
  then show "log_path (test_cfg mb) = ''/a/audit.log''" "key_path (test_cfg mb) = ''/a/hmac.key''"
    by (simp_all add: log_path_def key_path_def test_cfg_def)
  show "path_dir ''/a/audit.log'' = ''/a''" by code_simp
qed

lemma test_logger_simps [simp]:
  "fl_cfg (test_logger mb p) = test_cfg mb" "fl_key (test_logger mb p) = test_key" "fl_open (test_logger mb p)"
  "fl_prev (test_logger mb p) = p" "ac_max_mb (test_cfg mb) = mb" "ac_max_days (test_cfg mb) = 0"
  "length test_key = 32"
  by (simp_all add: test_logger_def test_cfg_def test_key_def)

lemma test_log_fs_simps [simp]:
  "calm (test_log_fs d)" "file_at (test_log_fs d) ''/a/audit.log'' = Some d"
  "file_at (test_log_fs d) ''/a/hmac.key'' = Some test_key"
  "is_dir (test_log_fs d) q \<longleftrightarrow> q = ''/a'' \<or> q = ''/''"
  by (auto simp: test_log_fs_def calm_def file_at_def is_dir_def)

lemma test_call_ok [simp]: "call_ok Some test_call"
  by code_simp

lemma test_stamp: "stamp test_hmac ''2024-01-01T00:00:00Z'' ''A'' (test_logger mb ''genesis'') test_event =
    \<lparr>ev_ts = ''2024-01-01T00:00:00Z'', ev_id = ''41'', ev_type = ''boot'', ev_identity = [],
     ev_action = [], ev_res_type = [], ev_res_id = [], ev_outcome = ''success'', ev_peer = [], ev_detail = [],
     ev_prev = ''genesis'', ev_hash = ''78''\<rparr>"
proof -
  have "hex_encode ''A'' = ''41''" "hex_encode ''x'' = ''78''" by code_simp+
  then show ?thesis
    by (simp add: stamp_def test_event_def zero_event_def Let_def generateID_def computeHash_def)
qed

definition test_stamped :: event where
  "test_stamped = \<lparr>ev_ts = ''2024-01-01T00:00:00Z'', ev_id = ''41'', ev_type = ''boot'', ev_identity = [],
     ev_action = [], ev_res_type = [], ev_res_id = [], ev_outcome = ''success'', ev_peer = [], ev_detail = [],
     ev_prev = ''genesis'', ev_hash = ''78''\<rparr>"

lemma test_line: "event_line test_stamped =
    ''{\"ts\":\"2024-01-01T00:00:00Z\",\"id\":\"41\",\"type\":\"boot\",\"outcome\":\"success\",\"prev_hash\":\"genesis\",\"hash\":\"78\"}''"
  by code_simp

lemma test_stamped_simps:
  "stamp test_hmac ''2024-01-01T00:00:00Z'' ''A'' (test_logger mb ''genesis'') test_event = test_stamped"
  "event_ok Some test_stamped" "fits (event_line test_stamped)" "length (event_line test_stamped) < read_size"
  "read_event Some (event_line test_stamped) = Inr test_stamped" "event_line test_stamped \<noteq> []"
proof -
  show "stamp test_hmac ''2024-01-01T00:00:00Z'' ''A'' (test_logger mb ''genesis'') test_event = test_stamped"
    by (simp add: test_stamp test_stamped_def)
  show "event_ok Some test_stamped" by code_simp
  then show "read_event Some (event_line test_stamped) = Inr test_stamped" by (rule read_event_line)
  show "fits (event_line test_stamped)" "length (event_line test_stamped) < read_size" "event_line test_stamped \<noteq> []"
    by (simp_all add: test_line fits_def max_line_def read_size_def)
qed

lemma test_chained: "chained test_hmac test_key ''genesis'' [test_stamped]"
proof -
  have "hex_encode ''x'' = ''78''" by code_simp
  then show ?thesis by (simp add: computeHash_def test_stamped_def)
qed

lemma test_inv: "log_inv Some test_hmac (test_logger mb ''genesis'') (test_log_fs []) []"
  by (simp add: log_inv_def)

lemma test_inv1: "log_inv Some test_hmac (test_logger mb ''78'') (test_log_fs (log_text [test_stamped])) [test_stamped]"
  using test_chained test_stamped_simps by (simp add: log_inv_def) (simp add: test_stamped_def)

definition test_log_after :: "file_logger \<times> fs" where
  "test_log_after = log_all test_hmac [test_call] (test_logger 0 ''genesis'', test_log_fs [])"

lemma test_log_after_file:
  "file_at (snd test_log_after) ''/a/audit.log'' = Some (event_line test_stamped @ [CHR 0x0A])"
  by (simp add: test_log_after_def test_call_def Log_def Let_def maybeRotate_def test_stamped_simps(1) Append_def)

theorem audit_log_verifies_witness:
  "fst (VerifyLog Some test_hmac ''/a/audit.log'' ''/a/hmac.key'' (snd test_log_after)) =
    Inr (\<lparr>vr_total = 1, vr_valid = 1, vr_broken = 0, vr_first = 0, vr_invalid = 0\<rparr>, None)"
proof -
  have "splitLines (event_line test_stamped @ [CHR 0x0A]) = [event_line test_stamped]"
    using splitLines_log_text[of "[test_stamped]" Some] test_stamped_simps(2) by simp
  then show ?thesis
    using audit_log_verifies[OF test_inv[of 0], of "[test_call]" "fst test_log_after" "snd test_log_after"]
      test_stamped_simps(3)
    by (simp add: test_log_after_file) (simp add: test_log_after_def)
qed

theorem audit_log_commits_witness:
  "map hash_input (events_of Some [event_line test_stamped]) = map hash_input (events_of Some [[], event_line test_stamped])"
proof -
  have v: "verify_lines Some test_hmac test_key [event_line test_stamped] =
      \<lparr>vr_total = 1, vr_valid = 1, vr_broken = 0, vr_first = 0, vr_invalid = 0\<rparr>"
    using verify_chained[of "[test_stamped]" Some test_hmac test_key "''genesis''" zero_result]
      test_stamped_simps(5,6) test_chained
    by (simp add: verify_lines_def zero_result_def del: chained.simps)
  moreover have "verify_lines Some test_hmac test_key [[], event_line test_stamped] =
      verify_lines Some test_hmac test_key [event_line test_stamped]"
    by (simp add: verify_lines_def verify_line_def)
  moreover have "events_of Some [event_line test_stamped] = [test_stamped]"
    "events_of Some [[], event_line test_stamped] = [test_stamped]"
    using test_stamped_simps(5,6) by (simp_all add: events_of_simps)
  ultimately show ?thesis
    by (intro audit_log_commits[where hmac = test_hmac and key = test_key]) (simp_all add: inj_on_def)
qed

theorem audit_truncation_unnoticed_witness:
  "vr_broken (verify_lines Some test_hmac test_key []) = 0 \<and> vr_invalid (verify_lines Some test_hmac test_key []) = 0"
proof (rule audit_truncation_unnoticed)
  have "verify_lines Some test_hmac test_key [event_line test_stamped] =
      \<lparr>vr_total = 1, vr_valid = 1, vr_broken = 0, vr_first = 0, vr_invalid = 0\<rparr>"
    using verify_chained[of "[test_stamped]" Some test_hmac test_key "''genesis''" zero_result]
      test_stamped_simps(5,6) test_chained
    by (simp add: verify_lines_def zero_result_def del: chained.simps)
  then show "vr_broken (verify_lines Some test_hmac test_key ([] @ [event_line test_stamped])) = 0"
    "vr_invalid (verify_lines Some test_hmac test_key ([] @ [event_line test_stamped])) = 0" by simp_all
qed

theorem audit_detail_unprotected_witness:
  "verify_line Some test_hmac test_key (event_line (test_stamped\<lparr>ev_detail := [(''k'', ''v'')]\<rparr>)) (zero_result, ''genesis'')
    = verify_line Some test_hmac test_key (event_line test_stamped) (zero_result, ''genesis'')"
  by (rule audit_detail_unprotected[OF test_stamped_simps(2)]) code_simp

lemma test_rotated_dirs: "\<not> is_dir (test_log_fs d) (rotated ''/a/audit.log'' k)"
  by (simp add: rotated_def)

text \<open>A limit that wraps to zero bytes: every event rotates.\<close>

lemma test_wrap: "max_bytes (test_cfg (2 ^ 44)) = 0"
  by (simp add: max_bytes_def wrap64_def)


theorem audit_restart_resumes_witness:
  "\<exists>l. NewFileLogger Some (Inr []) (test_cfg 0) (test_log_fs (log_text [test_stamped])) =
      (Inr l, test_log_fs (log_text [test_stamped]))
    \<and> log_inv Some test_hmac l (test_log_fs (log_text [test_stamped])) [test_stamped]
    \<and> fl_key l = test_key \<and> fl_cfg l = test_cfg 0"
proof (rule audit_restart_resumes)
  have "ancestors ''/a'' = [''/a'', ''/'']" by code_simp
  then show "MkdirAll (ac_dir (test_cfg 0)) (test_log_fs (log_text [test_stamped])) =
      (None, test_log_fs (log_text [test_stamped]))"
    by (simp add: MkdirAll_def test_cfg_def next_fault_def tick_def test_log_fs_def file_at_def)
qed (use test_chained test_stamped_simps in \<open>auto simp del: log_text_simps chained.simps\<close>)

theorem should_log_iff_witness:
  "\<not> ShouldLog \<lparr>ac_dir = ''/a'', ac_excludes = [\<lparr>ex_identity = ''bot'', ex_action = [], ex_resource = []\<rparr>],
      ac_max_mb = 0, ac_max_days = 0\<rparr> ''bot'' ''core:GetHealth'' ''*'' ''success''"
  unfolding should_log_iff by simp

end
