(* ===== verification/Handler.thy ===== *)
theory Handler
  imports Regex Authz Audit_Log
begin

text \<open>
  Package \<open>internal/handler\<close>: the checks every remote call goes through. An action is a string
  \<open>plugin:VerbNoun\<close> that is checked when the handler is built; \<open>Execute\<close> then asks for an identity, a
  valid resource and the authorizer's decision before it runs the function, and writes one
  audit event. The world \<open>'w\<close> is whatever the function and the logger change. The locale \<open>guarded\<close>
  states what unary and streaming handlers have in common and is interpreted on both.
\<close>

section \<open>Actions\<close>

definition allowedVerbs :: "string list" where
  "allowedVerbs = [''Get'', ''Describe'', ''List'', ''Stream'', ''Put'', ''Start'', ''Stop'', ''Restart'',
     ''Stage'', ''Rollback'', ''Bootstrap'']"

definition actionRe :: rexp where
  "actionRe =
     Seq (Plus (Cls is_lower)) (Seq (Lit '':'')
       (Seq (Seq (Cls is_upper) (Plus (Cls is_lower))) (Seq (Cls is_upper) (Star (Cls is_alpha)))))"

text \<open>The second group of a match: the capital after the colon and the small letters after it.\<close>

definition action_verb :: "string \<Rightarrow> string" where
  "action_verb a =
     (let r = tl (dropWhile (\<lambda>c. c \<noteq> CHR '':'') a) in hd r # takeWhile is_lower (tl r))"

definition validateAction :: "unicode \<Rightarrow> string \<Rightarrow> unit go" where
  "validateAction uc a =
     (if \<not> matches actionRe a then
        Panic (''handler: action '' @ go_quote uc a @ '' must match <plugin>:<Verb><Noun> (e.g., services:StartService)'')
      else if action_verb a \<notin> set allowedVerbs then
        Panic (''handler: unknown verb '' @ go_quote uc (action_verb a) @ '' in action '' @ go_quote uc a
          @ '' (allowed: Get, Describe, List, Stream, Put, Start, Stop, Restart, Stage, Rollback, Bootstrap)'')
      else Ret ())"

definition Action :: "unicode \<Rightarrow> string \<Rightarrow> string \<Rightarrow> string \<Rightarrow> string go" where
  "Action uc plugin verb noun =
     (let a = plugin @ '':'' @ verb @ noun in go_bind (validateAction uc a) (\<lambda>_. Ret a))"

section \<open>Handlers\<close>

record 'w deps =
  d_authz :: "authorizer option"
  d_audit :: "'w audit_logger option"

text \<open>
  A unary function returns its response together with an error, as in Go; a streaming function sends
  its responses through \<open>send\<close>, which acts on the world and may fail.
\<close>

record ('q, 'r, 'w) unary =
  u_action :: string
  u_resource :: "'q \<Rightarrow> resource"
  u_fn :: "rctx \<Rightarrow> 'q \<Rightarrow> 'w \<Rightarrow> (('r \<times> error option) \<times> 'w) go"

record ('q, 'r, 'w) server_stream =
  s_action :: string
  s_resource :: "'q \<Rightarrow> resource"
  s_fn :: "rctx \<Rightarrow> 'q \<Rightarrow> ('r \<Rightarrow> 'w \<Rightarrow> error option \<times> 'w) \<Rightarrow> 'w \<Rightarrow> (error option \<times> 'w) go"

text \<open>The constructors: a nil extractor or function (\<open>None\<close>) panics.\<close>

definition NewUnary ::
    "unicode \<Rightarrow> string \<Rightarrow> ('q \<Rightarrow> resource) option \<Rightarrow>
     (rctx \<Rightarrow> 'q \<Rightarrow> 'w \<Rightarrow> (('r \<times> error option) \<times> 'w) go) option \<Rightarrow> ('q, 'r, 'w) unary go" where
  "NewUnary uc a res fn =
     go_bind (validateAction uc a) (\<lambda>_.
       (case res of
          None \<Rightarrow> Panic ''handler: resource extractor required''
        | Some r \<Rightarrow>
            (case fn of
               None \<Rightarrow> Panic ''handler: function required''
             | Some f \<Rightarrow> Ret \<lparr>u_action = a, u_resource = r, u_fn = f\<rparr>)))"

definition NewReadOnly ::
    "unicode \<Rightarrow> string \<Rightarrow> (rctx \<Rightarrow> 'q \<Rightarrow> 'w \<Rightarrow> (('r \<times> error option) \<times> 'w) go) option \<Rightarrow> ('q, 'r, 'w) unary go" where
  "NewReadOnly uc a fn = NewUnary uc a (Some (\<lambda>_. ThisNode)) fn"

definition NewServerStream ::
    "unicode \<Rightarrow> string \<Rightarrow> ('q \<Rightarrow> resource) option \<Rightarrow>
     (rctx \<Rightarrow> 'q \<Rightarrow> ('r \<Rightarrow> 'w \<Rightarrow> error option \<times> 'w) \<Rightarrow> 'w \<Rightarrow> (error option \<times> 'w) go) option \<Rightarrow>
     ('q, 'r, 'w) server_stream go" where
  "NewServerStream uc a res fn =
     go_bind (validateAction uc a) (\<lambda>_.
       (case res of
          None \<Rightarrow> Panic ''handler: resource extractor required''
        | Some r \<Rightarrow>
            (case fn of
               None \<Rightarrow> Panic ''handler: function required''
             | Some f \<Rightarrow> Ret \<lparr>s_action = a, s_resource = r, s_fn = f\<rparr>)))"

definition NewReadOnlyStream ::
    "unicode \<Rightarrow> string \<Rightarrow>
     (rctx \<Rightarrow> 'q \<Rightarrow> ('r \<Rightarrow> 'w \<Rightarrow> error option \<times> 'w) \<Rightarrow> 'w \<Rightarrow> (error option \<times> 'w) go) option \<Rightarrow>
     ('q, 'r, 'w) server_stream go" where
  "NewReadOnlyStream uc a fn = NewServerStream uc a (Some (\<lambda>_. ThisNode)) fn"

definition peerAddr :: "'x ctx_scheme \<Rightarrow> string" where
  "peerAddr c = (case ctx_peer c of Some p \<Rightarrow> peer_addr p | None \<Rightarrow> [])"

definition rpc_event :: "string \<Rightarrow> string \<Rightarrow> resource \<Rightarrow> string \<Rightarrow> string \<Rightarrow> event" where
  "rpc_event i a res outcome addr =
     zero_event\<lparr>ev_type := ''rpc.'' @ a, ev_identity := i, ev_action := a, ev_res_type := r_type res,
       ev_res_id := r_id res, ev_outcome := outcome, ev_peer := addr\<rparr>"

definition emitAudit ::
    "'w audit_logger option \<Rightarrow> string \<Rightarrow> string \<Rightarrow> resource \<Rightarrow> string \<Rightarrow> string \<Rightarrow> 'w \<Rightarrow> 'w go" where
  "emitAudit logger i a res outcome addr w =
     (case logger of
        None \<Rightarrow> Ret w
      | Some l \<Rightarrow>
          go_bind (should_log l i a (r_id res) outcome) (\<lambda>b.
            if \<not> b then Ret w else log_event l (rpc_event i a res outcome addr) w))"

section \<open>Execute\<close>

definition Execute ::
    "('q, 'r, 'w) unary \<Rightarrow> 'r \<Rightarrow> rctx \<Rightarrow> 'w deps \<Rightarrow> 'q \<Rightarrow> 'w \<Rightarrow> (('r \<times> error option) \<times> 'w) go" where
  "Execute h zero c deps req w =
     (let addr = peerAddr c;
          refuse = (\<lambda>e w. Ret ((zero, Some e), w)) in
      (case IdentityFromContext c of
         None \<Rightarrow>
           go_bind (emitAudit (d_audit deps) [] (u_action h) ThisNode ''unauthenticated'' addr w)
             (refuse (Status Unauthenticated ''no identity in context''))
       | Some i \<Rightarrow>
           (let res = u_resource h req in
            (case resource_validate res of
               Some e \<Rightarrow> refuse (StatusOf InvalidArgument ''invalid resource'' e) w
             | None \<Rightarrow>
                 (case d_authz deps of
                    None \<Rightarrow>
                      go_bind (emitAudit (d_audit deps) (id_name i) (u_action h) res ''denied'' addr w)
                        (refuse (Status PermissionDenied ''no authorizer configured''))
                  | Some az \<Rightarrow>
                      (case authorize az (ctx.truncate c) i (u_action h) res of
                         Inl e \<Rightarrow>
                           go_bind (emitAudit (d_audit deps) (id_name i) (u_action h) res ''error'' addr w)
                             (refuse (Status Internal ''authorization error''))
                       | Inr d \<Rightarrow>
                           if d \<noteq> Allow then
                             go_bind (emitAudit (d_audit deps) (id_name i) (u_action h) res ''denied'' addr w)
                               (refuse (Status PermissionDenied ''access denied''))
                           else
                             go_bind (u_fn h c req w) (\<lambda>((resp, fnErr), w).
                               go_bind (emitAudit (d_audit deps) (id_name i) (u_action h) res
                                   (if fnErr \<noteq> None then ''error'' else ''success'') addr w)
                                 (\<lambda>w. Ret ((resp, fnErr), w)))))))))"

definition stream_Execute ::
    "('q, 'r, 'w) server_stream \<Rightarrow> rctx \<Rightarrow> 'w deps \<Rightarrow> 'q \<Rightarrow> ('r \<Rightarrow> 'w \<Rightarrow> error option \<times> 'w) \<Rightarrow> 'w \<Rightarrow>
     (error option \<times> 'w) go" where
  "stream_Execute h c deps req send w =
     (let addr = peerAddr c;
          refuse = (\<lambda>e w. Ret (Some e, w)) in
      (case IdentityFromContext c of
         None \<Rightarrow>
           go_bind (emitAudit (d_audit deps) [] (s_action h) ThisNode ''unauthenticated'' addr w)
             (refuse (Status Unauthenticated ''no identity in context''))
       | Some i \<Rightarrow>
           (let res = s_resource h req in
            (case resource_validate res of
               Some e \<Rightarrow> refuse (StatusOf InvalidArgument ''invalid resource'' e) w
             | None \<Rightarrow>
                 (case d_authz deps of
                    None \<Rightarrow>
                      go_bind (emitAudit (d_audit deps) (id_name i) (s_action h) res ''denied'' addr w)
                        (refuse (Status PermissionDenied ''no authorizer configured''))
                  | Some az \<Rightarrow>
                      (case authorize az (ctx.truncate c) i (s_action h) res of
                         Inl e \<Rightarrow>
                           go_bind (emitAudit (d_audit deps) (id_name i) (s_action h) res ''error'' addr w)
                             (refuse (Status Internal ''authorization error''))
                       | Inr d \<Rightarrow>
                           if d \<noteq> Allow then
                             go_bind (emitAudit (d_audit deps) (id_name i) (s_action h) res ''denied'' addr w)
                               (refuse (Status PermissionDenied ''access denied''))
                           else
                             go_bind (s_fn h c req send w) (\<lambda>(fnErr, w).
                               go_bind (emitAudit (d_audit deps) (id_name i) (s_action h) res
                                   (if fnErr \<noteq> None then ''error'' else ''success'') addr w)
                                 (\<lambda>w. Ret (fnErr, w)))))))))"

section \<open>The gate: an abstract specification\<close>

text \<open>
  What \<open>Execute\<close> decides before it runs the function: to refuse, with an error and at most one event
  to write (identity, resource and outcome), or to admit an identity.
\<close>

datatype gate_result =
    Refuse "(string \<times> resource \<times> string) option" error
  | Admit identity

definition gate :: "rctx \<Rightarrow> authorizer option \<Rightarrow> string \<Rightarrow> resource \<Rightarrow> gate_result" where
  "gate c authz a res =
     (case IdentityFromContext c of
        None \<Rightarrow> Refuse (Some ([], ThisNode, ''unauthenticated'')) (Status Unauthenticated ''no identity in context'')
      | Some i \<Rightarrow>
          (case resource_validate res of
             Some e \<Rightarrow> Refuse None (StatusOf InvalidArgument ''invalid resource'' e)
           | None \<Rightarrow>
               (case authz of
                  None \<Rightarrow> Refuse (Some (id_name i, res, ''denied'')) (Status PermissionDenied ''no authorizer configured'')
                | Some az \<Rightarrow>
                    (case authorize az (ctx.truncate c) i a res of
                       Inl e \<Rightarrow> Refuse (Some (id_name i, res, ''error'')) (Status Internal ''authorization error'')
                     | Inr d \<Rightarrow>
                         if d \<noteq> Allow then Refuse (Some (id_name i, res, ''denied'')) (Status PermissionDenied ''access denied'')
                         else Admit i))))"

definition audit_opt ::
    "'w audit_logger option \<Rightarrow> string \<Rightarrow> string \<Rightarrow> (string \<times> resource \<times> string) option \<Rightarrow> 'w \<Rightarrow> 'w go" where
  "audit_opt logger a addr x w =
     (case x of None \<Rightarrow> Ret w | Some (i, res, outcome) \<Rightarrow> emitAudit logger i a res outcome addr w)"

text \<open>The errors a refusal carries: all of them have a gRPC code other than the function's own.\<close>

lemma gate_refusal_code:
  "gate c authz a res = Refuse x e \<Longrightarrow>
    status_code e \<in> {Some Unauthenticated, Some InvalidArgument, Some PermissionDenied, Some Internal}"
  by (auto simp: gate_def split: option.splits sum.splits if_splits)

lemma gate_admit_iff:
  "gate c authz a res = Admit i \<longleftrightarrow>
     IdentityFromContext c = Some i \<and> resource_validate res = None \<and>
     (\<exists>az. authz = Some az \<and> authorize az (ctx.truncate c) i a res = Inr Allow)"
  by (auto simp: gate_def split: option.splits sum.splits if_splits)

lemma gate_refusal_audit:
  assumes "gate c authz a res = Refuse x e"
  obtains "IdentityFromContext c = None" "x = Some ([], ThisNode, ''unauthenticated'')"
  | i where "IdentityFromContext c = Some i" "resource_validate res \<noteq> None" "x = None"
  | i out where "IdentityFromContext c = Some i" "resource_validate res = None"
      "x = Some (id_name i, res, out)" "out \<in> {''denied'', ''error''}"
  using assms by (auto simp: gate_def split: option.splits sum.splits if_splits)

text \<open>
  The contract both kinds of handler implement: \<open>exec\<close> runs \<open>run\<close> exactly when the gate admits, and
  writes one event with the outcome; \<open>failed\<close> tells whether the result is an error, \<open>refuse\<close> makes
  the result of a refusal.
\<close>

locale guarded =
  fixes run :: "'h \<Rightarrow> rctx \<Rightarrow> 'q \<Rightarrow> 'w \<Rightarrow> ('o \<times> 'w) go"
    and action :: "'h \<Rightarrow> string"
    and resource_of :: "'h \<Rightarrow> 'q \<Rightarrow> resource"
    and refuse :: "error \<Rightarrow> 'o"
    and failed :: "'o \<Rightarrow> bool"
    and exec :: "'h \<Rightarrow> rctx \<Rightarrow> 'w deps \<Rightarrow> 'q \<Rightarrow> 'w \<Rightarrow> ('o \<times> 'w) go"
  assumes exec_gate:
    "exec h c deps req w =
       (case gate c (d_authz deps) (action h) (resource_of h req) of
          Refuse x e \<Rightarrow> go_bind (audit_opt (d_audit deps) (action h) (peerAddr c) x w) (\<lambda>w. Ret (refuse e, w))
        | Admit i \<Rightarrow>
            go_bind (run h c req w) (\<lambda>(r, w).
              go_bind (emitAudit (d_audit deps) (id_name i) (action h) (resource_of h req)
                  (if failed r then ''error'' else ''success'') (peerAddr c) w) (\<lambda>w. Ret (r, w))))"
    and refuse_failed: "failed (refuse e)"
begin

text \<open>Two handlers that differ in their function only behave alike unless the gate admits.\<close>

lemma only_when_admitted:
  assumes "action g = action h" "resource_of g = resource_of h"
    and "exec g c deps req w \<noteq> exec h c deps req w"
  shows "\<exists>i. gate c (d_authz deps) (action h) (resource_of h req) = Admit i"
  using assms by (cases "gate c (d_authz deps) (action h) (resource_of h req)") (auto simp: exec_gate)

lemma success_admitted:
  assumes "exec h c deps req w = Ret (r, w')" "\<not> failed r"
  shows "\<exists>i u. gate c (d_authz deps) (action h) (resource_of h req) = Admit i \<and> run h c req w = Ret (r, u)"
  using assms refuse_failed
  by (auto simp: exec_gate outcome_simps split: gate_result.splits prod.splits)

lemma refused:
  assumes "gate c (d_authz deps) (action h) (resource_of h req) = Refuse x e"
    and "exec h c deps req w = Ret (r, w')"
  shows "r = refuse e"
  using assms by (auto simp: exec_gate outcome_simps)

text \<open>Nothing but the function and the logger can panic.\<close>

lemma exec_returns:
  assumes run: "returns (run h c req w)"
    and log: "\<And>i res outcome w. returns (emitAudit (d_audit deps) i (action h) res outcome (peerAddr c) w)"
  shows "returns (exec h c deps req w)"
proof (cases "gate c (d_authz deps) (action h) (resource_of h req)")
  case (Refuse x e)
  have "returns (audit_opt (d_audit deps) (action h) (peerAddr c) x w)"
    using log by (auto simp: audit_opt_def split: option.splits)
  with Refuse show ?thesis by (auto simp: exec_gate outcome_simps)
next
  case (Admit i)
  then show ?thesis
    using run log by (fastforce simp: exec_gate outcome_simps split: prod.splits)
qed

end

lemma emit_simps [outcome_simps]: "emitAudit None i a res out addr w = Ret w"
  by (simp add: emitAudit_def)

interpretation unary_handler: guarded
  u_fn u_action u_resource "\<lambda>e. (zero, Some e)" "\<lambda>(r, e). e \<noteq> None" "\<lambda>h. Execute h zero" for zero
proof (unfold_locales, goal_cases)
  case (1 h c deps req w)
  then show ?case
    by (auto simp: Execute_def gate_def audit_opt_def Let_def emitAudit_def
        split: option.splits sum.splits prod.splits intro!: arg_cong[where f = "go_bind _"])
qed simp

interpretation stream_handler: guarded
  "\<lambda>h c req w. s_fn h c req send w" s_action s_resource Some "\<lambda>e. e \<noteq> None"
  "\<lambda>h c deps req w. stream_Execute h c deps req send w" for send
proof (unfold_locales, goal_cases)
  case (1 h c deps req w)
  then show ?case
    by (auto simp: stream_Execute_def gate_def audit_opt_def Let_def emitAudit_def
        split: option.splits sum.splits prod.splits intro!: arg_cong[where f = "go_bind _"])
qed simp

section \<open>Recording loggers\<close>

text \<open>A logger that keeps its events in the world beside the rest of it, with a given exclusion.\<close>

definition recorder :: "(string \<Rightarrow> string \<Rightarrow> string \<Rightarrow> string \<Rightarrow> bool) \<Rightarrow> ('v \<times> event list) audit_logger" where
  "recorder S = \<lparr>should_log = (\<lambda>i a r out. Ret (S i a r out)), log_event = (\<lambda>e (v, es). Ret (v, es @ [e]))\<rparr>"

definition lift_fn ::
    "(rctx \<Rightarrow> 'q \<Rightarrow> 'v \<Rightarrow> (('r \<times> error option) \<times> 'v) go) \<Rightarrow>
     rctx \<Rightarrow> 'q \<Rightarrow> 'v \<times> event list \<Rightarrow> (('r \<times> error option) \<times> 'v \<times> event list) go" where
  "lift_fn f c req w = (case w of (v, es) \<Rightarrow> go_bind (f c req v) (\<lambda>(r, v). Ret (r, v, es)))"

lemma emit_recorder:
  "emitAudit (Some (recorder S)) i a res out addr (v, es) =
     Ret (v, if S i a (r_id res) out then es @ [rpc_event i a res out addr] else es)"
  by (simp add: emitAudit_def recorder_def)

section \<open>Properties\<close>

text \<open>
  C1: a handler's function has no influence on anything unless the caller has an identity, the
  resource is valid, and a configured authorizer answered \<open>Allow\<close> for this action on it.
\<close>

theorem unary_fail_closed:
  assumes "Execute (h\<lparr>u_fn := f\<rparr>) zero c deps req w \<noteq> Execute (h\<lparr>u_fn := g\<rparr>) zero c deps req w"
  shows "\<exists>i az. IdentityFromContext c = Some i \<and> resource_validate (u_resource h req) = None
    \<and> d_authz deps = Some az \<and> authorize az (ctx.truncate c) i (u_action h) (u_resource h req) = Inr Allow"
  using unary_handler.only_when_admitted[OF _ _ assms] by (simp add: gate_admit_iff)

text \<open>
  a call that is refused gets an error, with one of four codes, and the zero response, whatever
  the function is; a call that succeeds got the function's own response.
\<close>

theorem unary_result:
  assumes "Execute h zero c deps req w = Ret ((r, err), w')"
  shows "(\<exists>i u. gate c (d_authz deps) (u_action h) (u_resource h req) = Admit i
        \<and> u_fn h c req w = Ret ((r, err), u))
    \<or> (r = zero \<and> (\<exists>e. err = Some e \<and>
        status_code e \<in> {Some Unauthenticated, Some InvalidArgument, Some PermissionDenied, Some Internal}))"
proof (cases "gate c (d_authz deps) (u_action h) (u_resource h req)")
  case (Refuse x e)
  with unary_handler.refused[OF Refuse assms] gate_refusal_code[OF Refuse] show ?thesis by simp
next
  case (Admit i)
  then show ?thesis
    using assms by (auto simp: unary_handler.exec_gate outcome_simps split: prod.splits)
qed

text \<open>
  C18: a streaming handler is the unary handler whose function sends the responses and returns only
  the error: same checks, same order, same audit.
\<close>

theorem stream_is_unary:
  "stream_Execute h c deps req send w =
     go_bind (Execute \<lparr>u_action = s_action h, u_resource = s_resource h,
         u_fn = (\<lambda>c q w. go_bind (s_fn h c q send w) (\<lambda>(e, w). Ret (((), e), w)))\<rparr> () c deps req w)
       (\<lambda>((r, e), w). Ret (e, w))"
  unfolding stream_handler.exec_gate unary_handler.exec_gate
  by (auto simp: go_bind_assoc split: gate_result.splits prod.splits intro!: arg_cong[where f = "go_bind _"])

text \<open>
  C2: with the exclusion rules of \<open>ShouldLog\<close>, every call that fails is audited exactly once, with the
  action, the caller and an outcome that is not success, except a call whose resource is
  invalid, which is not audited at all; a call that succeeds is audited once unless excluded.
\<close>

theorem audit_exactly_once:
  assumes "Execute (h\<lparr>u_fn := lift_fn f\<rparr>) zero c
      \<lparr>d_authz = az, d_audit = Some (recorder (ShouldLog cfg))\<rparr> req (v, es) = Ret ((r, err), v', es')"
  shows "if err = None then
      (\<exists>i. IdentityFromContext c = Some i \<and>
        es' = (if ShouldLog cfg (id_name i) (u_action h) (r_id (u_resource h req)) ''success''
          then es @ [rpc_event (id_name i) (u_action h) (u_resource h req) ''success'' (peerAddr c)] else es))
    else if IdentityFromContext c \<noteq> None \<and> resource_validate (u_resource h req) \<noteq> None then es' = es
    else (\<exists>e. es' = es @ [e] \<and> ev_outcome e \<in> {''unauthenticated'', ''denied'', ''error''}
        \<and> ev_action e = u_action h \<and> ev_peer e = peerAddr c
        \<and> ev_identity e = (case IdentityFromContext c of None \<Rightarrow> [] | Some i \<Rightarrow> id_name i))"
proof (cases "gate c az (u_action h) (u_resource h req)")
  case (Refuse x e)
  then have err: "err = Some e" and es: "audit_opt (Some (recorder (ShouldLog cfg))) (u_action h) (peerAddr c) x (v, es) = Ret (v', es')"
    using assms by (auto simp: unary_handler.exec_gate outcome_simps)
  from Refuse show ?thesis
  proof (cases rule: gate_refusal_audit)
    case 1
    with err es show ?thesis by (auto simp: audit_opt_def emit_recorder ShouldLog_def rpc_event_def)
  next
    case (2 i)
    with err es show ?thesis by (simp add: audit_opt_def)
  next
    case (3 i out)
    then have "ShouldLog cfg (id_name i) (u_action h) (r_id (u_resource h req)) out"
      by (auto simp: ShouldLog_def)
    with 3 err es show ?thesis by (auto simp: audit_opt_def emit_recorder rpc_event_def)
  qed
next
  case (Admit i)
  then have adm: "IdentityFromContext c = Some i" "resource_validate (u_resource h req) = None"
    by (simp_all add: gate_admit_iff)
  from Admit assms have "es' = (if ShouldLog cfg (id_name i) (u_action h) (r_id (u_resource h req))
        (if err \<noteq> None then ''error'' else ''success'')
      then es @ [rpc_event (id_name i) (u_action h) (u_resource h req) (if err \<noteq> None then ''error'' else ''success'') (peerAddr c)]
      else es)"
    by (auto simp: unary_handler.exec_gate lift_fn_def go_bind_assoc emit_recorder outcome_simps
        split: prod.splits if_splits)
  with adm show ?thesis by (cases err) (auto simp: ShouldLog_def rpc_event_def)
qed

text \<open>
  without a logger, or with one that does not panic, a call panics only if its function does.
\<close>

theorem unary_no_panic:
  assumes "returns (u_fn h c req w)"
    and "d_audit deps = None \<or> (\<exists>l. d_audit deps = Some l \<and> (\<forall>i a r out. returns (should_log l i a r out))
      \<and> (\<forall>e v. returns (log_event l e v)))"
  shows "returns (Execute h zero c deps req w)"
proof (rule unary_handler.exec_returns[OF assms(1)])
  show "returns (emitAudit (d_audit deps) i (u_action h) res outcome (peerAddr c) v)" for i res outcome v
  proof (cases "d_audit deps")
    case None
    then show ?thesis by (simp add: emitAudit_def)
  next
    case (Some l)
    with assms(2) have l: "returns (should_log l i (u_action h) (r_id res) outcome)" "\<And>e. returns (log_event l e v)"
      by auto
    from l(1) obtain b where "should_log l i (u_action h) (r_id res) outcome = Ret b"
      unfolding returns_iff by blast
    with Some l(2) show ?thesis by (simp add: emitAudit_def)
  qed
qed

text \<open>The shape of an action that matches, and its verb.\<close>

lemma upper_not_lower: "is_upper c \<Longrightarrow> \<not> is_lower c"
  by (simp add: is_upper_def is_lower_def)

lemma lang_verb: "s \<in> lang (Seq (Cls is_upper) (Plus (Cls is_lower))) \<longleftrightarrow>
    (\<exists>u ls. s = u # ls \<and> is_upper u \<and> ls \<noteq> [] \<and> (\<forall>c\<in>set ls. is_lower c))"
  by (auto simp: lang_Seq_Cls simp del: lang.simps)

lemma lang_noun: "s \<in> lang (Seq (Cls is_upper) (Star (Cls is_alpha))) \<longleftrightarrow>
    s \<noteq> [] \<and> is_upper (hd s) \<and> (\<forall>c\<in>set s. is_alpha c)"
proof -
  have "is_upper c \<Longrightarrow> is_alpha c" for c by (simp add: is_alpha_def)
  then show ?thesis
    by (cases s) (auto simp: lang_Seq_Cls simp del: lang.simps simp: lang_Star_Cls[simplified])
qed

lemma action_lang:
  "matches actionRe a \<longleftrightarrow> (\<exists>p v n. a = p @ '':'' @ v @ n \<and> p \<noteq> [] \<and> (\<forall>c\<in>set p. is_lower c)
     \<and> (\<exists>u ls. v = u # ls \<and> is_upper u \<and> ls \<noteq> [] \<and> (\<forall>c\<in>set ls. is_lower c))
     \<and> n \<noteq> [] \<and> is_upper (hd n) \<and> (\<forall>c\<in>set n. is_alpha c))"
  unfolding matches_iff_lang actionRe_def lang_Seq_iff[of _ "Plus (Cls is_lower)"] lang_Seq_iff[of _ "Lit _"]
    lang_Seq_iff[of _ "Seq (Cls is_upper) (Plus (Cls is_lower))"] lang_verb lang_noun lang_Plus_Cls lang_Lit
  by (intro iffI; elim exE conjE singletonE; hypsubst?; (rule exI conjI refl | assumption | blast)+)

lemma action_verb_parts:
  assumes "\<forall>c\<in>set p. is_lower c" "\<forall>c\<in>set ls. is_lower c" "n \<noteq> []" "is_upper (hd n)"
  shows "action_verb (p @ '':'' @ (u # ls) @ n) = u # ls"
proof -
  have "\<not> is_lower CHR '':''" by (simp add: is_lower_def byte_def)
  then have "\<forall>c\<in>set p. c \<noteq> CHR '':''" using assms(1) by auto
  then have "dropWhile (\<lambda>c. c \<noteq> CHR '':'') (p @ CHR '':'' # u # ls @ n) = CHR '':'' # u # ls @ n"
    by (intro dropWhile_append_stop) auto
  moreover obtain m ns where "n = m # ns" using assms(3) by (cases n) auto
  then have "takeWhile is_lower (ls @ n) = ls"
    using assms(2,4) takeWhile_append_stop[of ls is_lower m ns] upper_not_lower[of m] by simp
  ultimately show ?thesis by (simp add: action_verb_def)
qed

lemma allowed_verb_shape:
  "v \<in> set allowedVerbs \<Longrightarrow> \<exists>u ls. v = u # ls \<and> is_upper u \<and> ls \<noteq> [] \<and> (\<forall>c\<in>set ls. is_lower c)"
proof -
  have "list_all (\<lambda>v. v \<noteq> [] \<and> is_upper (hd v) \<and> tl v \<noteq> [] \<and> list_all is_lower (tl v)) allowedVerbs"
    by code_simp
  moreover assume "v \<in> set allowedVerbs"
  ultimately show ?thesis by (cases v) (auto simp: list_all_iff)
qed

text \<open>
  an action is accepted exactly when it is a plugin name of small letters, a colon, one of the
  eleven verbs and a noun of letters that starts with a capital; building a handler with any other panics.
\<close>

theorem validate_action_iff:
  "validateAction uc a = Ret () \<longleftrightarrow>
     (\<exists>p v n. a = p @ '':'' @ v @ n \<and> p \<noteq> [] \<and> (\<forall>c\<in>set p. is_lower c) \<and> v \<in> set allowedVerbs
        \<and> n \<noteq> [] \<and> is_upper (hd n) \<and> (\<forall>c\<in>set n. is_alpha c))"
proof
  assume "validateAction uc a = Ret ()"
  then have m: "matches actionRe a" and v: "action_verb a \<in> set allowedVerbs"
    by (auto simp: validateAction_def split: if_splits)
  from m obtain p u ls n where a: "a = p @ '':'' @ (u # ls) @ n" "p \<noteq> []" "\<forall>c\<in>set p. is_lower c"
    "\<forall>c\<in>set ls. is_lower c" "n \<noteq> []" "is_upper (hd n)" "\<forall>c\<in>set n. is_alpha c"
    unfolding action_lang by blast
  with v action_verb_parts[OF a(3,4,5,6), of u]
  show "\<exists>p v n. a = p @ '':'' @ v @ n \<and> p \<noteq> [] \<and> (\<forall>c\<in>set p. is_lower c) \<and> v \<in> set allowedVerbs
        \<and> n \<noteq> [] \<and> is_upper (hd n) \<and> (\<forall>c\<in>set n. is_alpha c)"
    by metis
next
  assume "\<exists>p v n. a = p @ '':'' @ v @ n \<and> p \<noteq> [] \<and> (\<forall>c\<in>set p. is_lower c) \<and> v \<in> set allowedVerbs
        \<and> n \<noteq> [] \<and> is_upper (hd n) \<and> (\<forall>c\<in>set n. is_alpha c)"
  then obtain p v n where a: "a = p @ '':'' @ v @ n" "p \<noteq> []" "\<forall>c\<in>set p. is_lower c" "v \<in> set allowedVerbs"
    "n \<noteq> []" "is_upper (hd n)" "\<forall>c\<in>set n. is_alpha c" by blast
  from allowed_verb_shape[OF a(4)] obtain u ls where v: "v = u # ls" "is_upper u" "ls \<noteq> []" "\<forall>c\<in>set ls. is_lower c"
    by blast
  have "matches actionRe a" unfolding action_lang using a v by blast
  moreover have "action_verb a = v" using action_verb_parts[OF a(3) v(4) a(5,6)] a(1) v(1) by simp
  ultimately show "validateAction uc a = Ret ()" using a(4) by (simp add: validateAction_def)
qed

section \<open>Examples\<close>

definition test_ctx :: rctx where
  "test_ctx = \<lparr>ctx_peer = Some \<lparr>peer_addr = ''10.0.0.1'', peer_auth = NoAuth\<rparr>, ctx_metadata = None,
     ctx_identity = Some \<lparr>id_name = ''bob'', id_groups = [], id_meta = Map.empty\<rparr>, ctx_authz = None, ctx_checked = False\<rparr>"

definition test_unary :: "(rctx \<Rightarrow> unit \<Rightarrow> 'w \<Rightarrow> ((nat \<times> error option) \<times> 'w) go) \<Rightarrow> (unit, nat, 'w) unary" where
  "test_unary f = \<lparr>u_action = ''core:GetHealth'', u_resource = (\<lambda>_. ThisNode), u_fn = f\<rparr>"

theorem unary_fail_closed_witness:
  "\<exists>i az. IdentityFromContext test_ctx = Some i \<and> resource_validate (u_resource (test_unary (\<lambda>c q w. Ret ((0, None), w))) ()) = None
    \<and> Some AllowAll = Some az
    \<and> authorize az (ctx.truncate test_ctx) i (u_action (test_unary (\<lambda>c q w. Ret ((0, None), w)))) (u_resource (test_unary (\<lambda>c q w. Ret ((0, None), w))) ()) = Inr Allow"
proof -
  let ?h = "test_unary (\<lambda>c q w. Ret ((0, None), w)) :: (unit, nat, nat) unary"
  let ?d = "\<lparr>d_authz = Some AllowAll, d_audit = None\<rparr> :: nat deps"
  have "Execute (?h\<lparr>u_fn := \<lambda>c q w. Ret ((1, None), w)\<rparr>) 0 test_ctx ?d () 5
      \<noteq> Execute (?h\<lparr>u_fn := \<lambda>c q w. Ret ((2, None), w)\<rparr>) 0 test_ctx ?d () 5"
    by (simp add: Execute_def test_ctx_def test_unary_def IdentityFromContext_def AllowAll_def emitAudit_def Let_def)
  from unary_fail_closed[OF this] show ?thesis by (simp add: test_unary_def)
qed

theorem unary_result_witness:
  "(\<exists>i u. gate test_ctx None ''core:GetHealth'' ThisNode = Admit i
        \<and> u_fn (test_unary (\<lambda>c q w. Ret ((7, None), w))) test_ctx () (5 :: nat)
          = Ret ((0, Some (Status PermissionDenied ''no authorizer configured'')), u))
    \<or> ((0 :: nat) = 0 \<and> (\<exists>e. Some (Status PermissionDenied ''no authorizer configured'') = Some e \<and>
        status_code e \<in> {Some Unauthenticated, Some InvalidArgument, Some PermissionDenied, Some Internal}))"
proof -
  have "Execute (test_unary (\<lambda>c q w. Ret ((7, None), w))) 0 test_ctx \<lparr>d_authz = None, d_audit = None\<rparr> () (5 :: nat)
      = Ret ((0, Some (Status PermissionDenied ''no authorizer configured'')), 5)"
    by (simp add: Execute_def test_ctx_def test_unary_def IdentityFromContext_def emitAudit_def Let_def)
  from unary_result[OF this] show ?thesis by (simp add: test_unary_def)
qed

theorem audit_exactly_once_witness:
  "\<exists>e. [rpc_event ''bob'' ''core:GetHealth'' ThisNode ''error'' ''10.0.0.1''] = [] @ [e]
     \<and> ev_outcome e \<in> {''unauthenticated'', ''denied'', ''error''}"
proof -
  let ?h = "test_unary undefined :: (unit, nat, nat \<times> event list) unary"
  have "Execute (?h\<lparr>u_fn := lift_fn (\<lambda>c q w. Ret ((0, Some (Msg ''boom'')), w))\<rparr>) 0 test_ctx
      \<lparr>d_authz = Some AllowAll, d_audit = Some (recorder (ShouldLog audit_DefaultConfig))\<rparr> () (5, [])
    = Ret ((0, Some (Msg ''boom'')), 5, [rpc_event ''bob'' ''core:GetHealth'' ThisNode ''error'' ''10.0.0.1''])"
    by (simp add: Execute_def test_ctx_def test_unary_def IdentityFromContext_def emit_recorder Let_def
        AllowAll_def lift_fn_def ShouldLog_def peerAddr_def)
  from audit_exactly_once[OF this] show ?thesis
    by (simp add: test_unary_def test_ctx_def IdentityFromContext_def)
qed

theorem unary_no_panic_witness:
  "returns (Execute (test_unary (\<lambda>c q w. Ret ((7, None), w))) 0 test_ctx \<lparr>d_authz = None, d_audit = None\<rparr> () (5 :: nat))"
  by (rule unary_no_panic) (simp_all add: test_unary_def)

theorem validate_action_iff_witness:
  "validateAction \<lparr>uc_print = (\<lambda>n. True), uc_lower = (\<lambda>n. n)\<rparr> ''core:GetHealth'' = Ret ()"
proof -
  have "list_all is_lower ''core'' \<and> is_upper (hd ''Health'') \<and> list_all is_alpha ''Health'' \<and> ''Get'' \<in> set allowedVerbs"
    by code_simp
  then show ?thesis
    unfolding validate_action_iff
    by (intro exI[of _ "''core''"] exI[of _ "''Get''"] exI[of _ "''Health''"]) (simp add: list_all_iff)
qed

end
