(* ===== verification/Pki.thy ===== *)
theory Pki
  imports Files
begin

text \<open>
  Package \<open>internal/pki\<close>: creating the node's certificate authority and server certificate,
  loading them, issuing client certificates and signing certificate requests. The Go libraries
  \<open>crypto/ecdsa\<close>, \<open>crypto/x509\<close>, \<open>encoding/pem\<close> and the random and clock sources are the record
  \<open>crypto\<close>; certificates and keys in binary form are byte strings, keys and parsed requests
  are of the parameter types \<open>'k\<close> and \<open>'p\<close> (public keys). A template is what the code passes to
  \<open>x509.CreateCertificate\<close>; times are seconds.
\<close>

section \<open>The crypto libraries\<close>

datatype key_usage = UsageCertSign | UsageCRLSign | UsageDigitalSignature | UsageKeyEncipherment
datatype ext_usage = UsageServerAuth | UsageClientAuth

record template =
  t_serial :: nat
  t_org :: "string list"
  t_cn :: string
  t_not_before :: int
  t_not_after :: int
  t_usage :: "key_usage list"
  t_ext_usage :: "ext_usage list"
  t_is_ca :: bool
  t_max_path_len :: int
  t_dns :: "string list"
  t_ips :: "string list"

text \<open>A network interface as \<open>discoverSANs\<close> sees it: flags and addresses (\<open>None\<close>: not an \<open>IPNet\<close>).\<close>

record net_if =
  if_loopback :: bool
  if_up :: bool
  if_addrs :: "error + (string \<times> bool) option list"

text \<open>
  \<open>gen_key n\<close>, \<open>rand_int n\<close> and \<open>clock n\<close> are the n-th key generated, the n-th random number (below its
  bound, when reading random bytes succeeds) and the n-th clock reading (in milliseconds).
  \<open>create_cert template parent pub key\<close> signs; \<open>parse_cert\<close> reads a certificate back.
\<close>

record ('k, 'p) crypto =
  gen_key :: "nat \<Rightarrow> error + 'k"
  pub_of :: "'k \<Rightarrow> 'p"
  marshal_key :: "'k \<Rightarrow> error + string"
  parse_key :: "string \<Rightarrow> error + 'k"
  create_cert :: "template \<Rightarrow> template \<Rightarrow> 'p \<Rightarrow> 'k \<Rightarrow> error + string"
  parse_cert :: "string \<Rightarrow> error + template"
  create_csr :: "string list \<Rightarrow> string \<Rightarrow> 'k \<Rightarrow> error + string"
  parse_csr :: "string \<Rightarrow> error + 'p"
  csr_signed :: "string \<Rightarrow> error option"
  pem_encode :: "string \<Rightarrow> string \<Rightarrow> string"
  pem_decode :: "string \<Rightarrow> (string \<times> string) option"
  rand_int :: "nat \<Rightarrow> nat"
  clock :: "nat \<Rightarrow> int"
  os_hostname :: "error + string"
  net_ifs :: "error + net_if list"

definition minute :: int where "minute = 60"
definition hour :: int where "hour = 3600"

definition now_s :: "('k, 'p) crypto \<Rightarrow> nat \<Rightarrow> int" where
  "now_s cr n = clock cr n div 1000"

text \<open>\<open>newSerial\<close>: a number below \<open>2 ^ 128\<close>.\<close>

definition newSerial :: "('k, 'p) crypto \<Rightarrow> nat \<Rightarrow> nat" where
  "newSerial cr n = rand_int cr n mod 2 ^ 128"

section \<open>Files\<close>

definition caFile :: string where "caFile = ''ca.crt''"
definition caKeyFile :: string where "caKeyFile = ''ca.key''"
definition serverCertFile :: string where "serverCertFile = ''server.crt''"
definition serverKeyFile :: string where "serverKeyFile = ''server.key''"

lemma pki_names [simp]:
  "plain_name caFile" "plain_name caKeyFile" "plain_name serverCertFile" "plain_name serverKeyFile"
  by (simp_all add: plain_name_def caFile_def caKeyFile_def serverCertFile_def serverKeyFile_def)

text \<open>\<open>writePEM\<close>: truncating open and write, the effect of \<open>os.WriteFile\<close>.\<close>

definition writePEM :: "('k, 'p) crypto \<Rightarrow> string \<Rightarrow> string \<Rightarrow> string \<Rightarrow> fs \<Rightarrow> error option \<times> fs" where
  "writePEM cr p ty der s = WriteFile p (pem_encode cr ty der) s"

section \<open>Subject alternative names\<close>

definition iface_ips :: "net_if \<Rightarrow> string list" where
  "iface_ips i =
     (if if_loopback i \<or> \<not> if_up i then []
      else (case if_addrs i of
          Inl e \<Rightarrow> []
        | Inr as \<Rightarrow> map fst (filter (\<lambda>a. \<not> snd a) (map the (filter (\<lambda>a. a \<noteq> None) as)))))"

definition discoverSANs :: "('k, 'p) crypto \<Rightarrow> string list \<times> string list" where
  "discoverSANs cr =
     (let dns = [''localhost'', ''hb-agent''] @
            (case os_hostname cr of
               Inr h \<Rightarrow> if h \<noteq> [] \<and> h \<noteq> ''localhost'' then [h] else []
             | Inl e \<Rightarrow> []);
          ips = [''127.0.0.1'', ''::1'']
      in (case net_ifs cr of
            Inl e \<Rightarrow> (dns, ips)
          | Inr ifs \<Rightarrow> (dns, ips @ concat (map iface_ips ifs))))"

section \<open>Creating the authority\<close>

definition ca_template :: "('k, 'p) crypto \<Rightarrow> template" where
  "ca_template cr =
     \<lparr>t_serial = newSerial cr 0, t_org = [''hummingbird''], t_cn = ''hummingbird-ca'',
      t_not_before = now_s cr 0 - minute, t_not_after = now_s cr 1 + 10 * 365 * 24 * hour,
      t_usage = [UsageCertSign, UsageCRLSign], t_ext_usage = [], t_is_ca = True, t_max_path_len = 1,
      t_dns = [], t_ips = []\<rparr>"

definition server_template :: "('k, 'p) crypto \<Rightarrow> template" where
  "server_template cr =
     \<lparr>t_serial = newSerial cr 1, t_org = [''hummingbird''], t_cn = ''hb-agent'',
      t_not_before = now_s cr 2 - minute, t_not_after = now_s cr 3 + 5 * 365 * 24 * hour,
      t_usage = [UsageDigitalSignature, UsageKeyEncipherment], t_ext_usage = [UsageServerAuth],
      t_is_ca = False, t_max_path_len = 0,
      t_dns = fst (discoverSANs cr), t_ips = snd (discoverSANs cr)\<rparr>"

text \<open>
  Steps of \<open>Bootstrap\<close>, each ending the function on an error: \<open>fs_do t op k\<close> runs the file operation
  \<open>op\<close>, wraps its error with \<open>t\<close>, and goes on with \<open>k\<close>; \<open>try_do\<close> the same for a library call.
\<close>

definition fs_do :: "string \<Rightarrow> error option \<times> fs \<Rightarrow> (fs \<Rightarrow> error option \<times> fs) \<Rightarrow> error option \<times> fs" where
  "fs_do t r k = (case r of (Some e, s) \<Rightarrow> (Some (Wrap t e), s) | (None, s) \<Rightarrow> k s)"

definition try_do :: "string \<Rightarrow> error + 'a \<Rightarrow> fs \<Rightarrow> ('a \<Rightarrow> error option \<times> fs) \<Rightarrow> error option \<times> fs" where
  "try_do t r s k = (case r of Inl e \<Rightarrow> (Some (Wrap t e), s) | Inr x \<Rightarrow> k x)"

definition pki_server :: "('k, 'p) crypto \<Rightarrow> string \<Rightarrow> 'k \<Rightarrow> string \<Rightarrow> fs \<Rightarrow> error option \<times> fs" where
  "pki_server cr dir caKey caDER s =
     try_do ''parse CA cert'' (parse_cert cr caDER) s (\<lambda>caCert.
     try_do ''generate server key'' (gen_key cr 1) s (\<lambda>serverKey.
     try_do ''create server cert'' (create_cert cr (server_template cr) caCert (pub_of cr serverKey) caKey) s (\<lambda>der.
     fs_do ''write server cert'' (writePEM cr (path_join dir serverCertFile) ''CERTIFICATE'' der s) (\<lambda>s.
     try_do ''marshal server key'' (marshal_key cr serverKey) s (\<lambda>keyDER.
     fs_do ''write server key'' (writePEM cr (path_join dir serverKeyFile) ''EC PRIVATE KEY'' keyDER s) (\<lambda>s.
     (None, s)))))))"

definition pki_Bootstrap :: "('k, 'p) crypto \<Rightarrow> string \<Rightarrow> fs \<Rightarrow> error option \<times> fs" where
  "pki_Bootstrap cr dir s =
     fs_do ''create pki dir'' (MkdirAll dir s) (\<lambda>s.
     (case Stat (path_join dir caFile) s of
        (None, s) \<Rightarrow> (None, s)
      | (Some e, s) \<Rightarrow>
          try_do ''generate CA key'' (gen_key cr 0) s (\<lambda>caKey.
          try_do ''create CA cert'' (create_cert cr (ca_template cr) (ca_template cr) (pub_of cr caKey) caKey) s (\<lambda>caDER.
          fs_do ''write CA cert'' (writePEM cr (path_join dir caFile) ''CERTIFICATE'' caDER s) (\<lambda>s.
          try_do ''marshal CA key'' (marshal_key cr caKey) s (\<lambda>keyDER.
          fs_do ''write CA key'' (writePEM cr (path_join dir caKeyFile) ''EC PRIVATE KEY'' keyDER s) (\<lambda>s.
          pki_server cr dir caKey caDER s)))))))"

section \<open>Loading the server's TLS configuration\<close>

text \<open>
  \<open>tls.LoadX509KeyPair\<close> and \<open>AppendCertsFromPEM\<close> are library calls on file contents.
\<close>

record tls_config =
  tls_cert :: string
  tls_client_cas :: string
  tls_require_client :: bool
  tls_min_13 :: bool

definition LoadServerTLS ::
    "(string \<Rightarrow> string \<Rightarrow> error + string) \<Rightarrow> (string \<Rightarrow> bool) \<Rightarrow> string \<Rightarrow> fs \<Rightarrow>
     (error + tls_config) \<times> fs" where
  "LoadServerTLS key_pair is_pool dir s =
     (case ReadFile (path_join dir serverCertFile) s of
        (Inl e, s) \<Rightarrow> (Inl (Wrap ''load server keypair'' e), s)
      | (Inr c, s) \<Rightarrow>
          (case ReadFile (path_join dir serverKeyFile) s of
             (Inl e, s) \<Rightarrow> (Inl (Wrap ''load server keypair'' e), s)
           | (Inr k, s) \<Rightarrow>
               (case key_pair c k of
                  Inl e \<Rightarrow> (Inl (Wrap ''load server keypair'' e), s)
                | Inr cert \<Rightarrow>
                    (case ReadFile (path_join dir caFile) s of
                       (Inl e, s) \<Rightarrow> (Inl (Wrap ''read CA cert'' e), s)
                     | (Inr ca, s) \<Rightarrow>
                         if \<not> is_pool ca then (Inl (Msg ''parse CA cert''), s)
                         else (Inr \<lparr>tls_cert = cert, tls_client_cas = ca,
                                    tls_require_client = True, tls_min_13 = True\<rparr>, s)))))"

section \<open>Issuing client certificates\<close>

text \<open>The authority's certificate and key, read from their files: the start of both functions.\<close>

definition load_ca :: "('k, 'p) crypto \<Rightarrow> string \<Rightarrow> fs \<Rightarrow> (error + template \<times> 'k) \<times> fs" where
  "load_ca cr dir s =
     (case ReadFile (path_join dir caFile) s of
        (Inl e, s) \<Rightarrow> (Inl (Wrap ''read CA cert'' e), s)
      | (Inr certPEM, s) \<Rightarrow>
          (case ReadFile (path_join dir caKeyFile) s of
             (Inl e, s) \<Rightarrow> (Inl (Wrap ''read CA key'' e), s)
           | (Inr keyPEM, s) \<Rightarrow>
               ((case pem_decode cr certPEM of
                   None \<Rightarrow> Inl (Msg ''decode CA cert PEM: no PEM block found'')
                 | Some (ty, der) \<Rightarrow>
                     res_bind (wrap_err ''parse CA cert'' (parse_cert cr der)) (\<lambda>cert.
                     (case pem_decode cr keyPEM of
                        None \<Rightarrow> Inl (Msg ''decode CA key PEM: no PEM block found'')
                      | Some (ty, der) \<Rightarrow>
                          res_bind (wrap_err ''parse CA key'' (parse_key cr der)) (\<lambda>key. Inr (cert, key))))),
                s)))"

definition client_template :: "('k, 'p) crypto \<Rightarrow> string \<Rightarrow> nat \<Rightarrow> template" where
  "client_template cr cn n =
     \<lparr>t_serial = newSerial cr 0, t_org = [''hummingbird''], t_cn = cn,
      t_not_before = now_s cr n - minute, t_not_after = now_s cr (Suc n) + 365 * 24 * hour,
      t_usage = [UsageDigitalSignature], t_ext_usage = [UsageClientAuth], t_is_ca = False,
      t_max_path_len = 0, t_dns = [], t_ips = []\<rparr>"

definition GenerateClientCert ::
    "('k, 'p) crypto \<Rightarrow> string \<Rightarrow> string \<Rightarrow> fs \<Rightarrow> (error + string \<times> string) \<times> fs" where
  "GenerateClientCert cr dir cn s =
     (case load_ca cr dir s of (r, s) \<Rightarrow>
        (res_bind r (\<lambda>(caCert, caKey).
         res_bind (wrap_err ''generate client key'' (gen_key cr 0)) (\<lambda>key.
         res_bind (wrap_err ''create client cert''
                    (create_cert cr (client_template cr cn 0) caCert (pub_of cr key) caKey)) (\<lambda>der.
         res_bind (wrap_err ''marshal client key'' (marshal_key cr key)) (\<lambda>keyDER.
           Inr (pem_encode cr ''CERTIFICATE'' der, pem_encode cr ''EC PRIVATE KEY'' keyDER))))), s))"

text \<open>The common name of a bootstrapped client carries the clock in milliseconds.\<close>

definition show_int :: "int \<Rightarrow> string" where
  "show_int n = (if n < 0 then CHR ''-'' # show_nat (nat (- n)) else show_nat (nat n))"

definition bootstrap_cn :: "('k, 'p) crypto \<Rightarrow> string" where
  "bootstrap_cn cr = ''bootstrap-'' @ show_int (clock cr 0)"

definition SignCSR :: "('k, 'p) crypto \<Rightarrow> string \<Rightarrow> string \<Rightarrow> fs \<Rightarrow> (error + string) \<times> fs" where
  "SignCSR cr dir csrPEM s =
     (case load_ca cr dir s of (r, s) \<Rightarrow>
        (res_bind r (\<lambda>(caCert, caKey).
         (case pem_decode cr csrPEM of
            None \<Rightarrow> Inl (Msg ''decode CSR PEM: no PEM block found'')
          | Some (ty, der) \<Rightarrow>
              res_bind (wrap_err ''parse CSR'' (parse_csr cr der)) (\<lambda>pub.
              (case csr_signed cr der of
                 Some e \<Rightarrow> Inl (Wrap ''CSR signature invalid'' e)
               | None \<Rightarrow>
                   res_bind (wrap_err ''sign certificate''
                     (create_cert cr (client_template cr (bootstrap_cn cr) 1) caCert pub caKey)) (\<lambda>der.
                   Inr (pem_encode cr ''CERTIFICATE'' der)))))), s))"

definition GenerateCSR :: "('k, 'p) crypto \<Rightarrow> string \<Rightarrow> error + string \<times> string" where
  "GenerateCSR cr cn =
     res_bind (wrap_err ''generate key'' (gen_key cr 0)) (\<lambda>key.
     res_bind (wrap_err ''create CSR'' (create_csr cr [''hummingbird''] cn key)) (\<lambda>der.
     res_bind (wrap_err ''marshal key'' (marshal_key cr key)) (\<lambda>keyDER.
       Inr (pem_encode cr ''CERTIFICATE REQUEST'' der, pem_encode cr ''EC PRIVATE KEY'' keyDER))))"

section \<open>Facts\<close>

lemma fs_do_None_iff [outcome_simps]:
  "fs_do t r k = (None, s') \<longleftrightarrow> (\<exists>s. r = (None, s) \<and> k s = (None, s'))"
  by (auto simp: fs_do_def split: prod.splits option.splits)

lemma try_do_None_iff [outcome_simps]:
  "try_do t r s k = (None, s') \<longleftrightarrow> (\<exists>x. r = Inr x \<and> k x = (None, s'))"
  by (auto simp: try_do_def split: sum.splits)

lemma calm_write_done:
  "WriteFile p d s = (None, t) \<Longrightarrow> calm s \<Longrightarrow> t = put_file p d s"
  by (auto simp: WriteFile_def split: if_splits)

lemma calm_mkdir:
  assumes "MkdirAll p s = (None, t)" "calm s"
  shows "calm t" "file_at t q = file_at s q"
  using assms mkdir_calm[of s p] mkdir_files[of p s q] by auto

lemma pki_paths_differ [simp]:
  "caFile \<noteq> caKeyFile" "caKeyFile \<noteq> caFile" "serverCertFile \<noteq> caFile" "caFile \<noteq> serverCertFile"
  "serverCertFile \<noteq> caKeyFile" "caKeyFile \<noteq> serverCertFile" "serverKeyFile \<noteq> caFile"
  "caFile \<noteq> serverKeyFile" "serverKeyFile \<noteq> caKeyFile" "caKeyFile \<noteq> serverKeyFile"
  by (simp_all add: caFile_def caKeyFile_def serverCertFile_def serverKeyFile_def)

text \<open>Writing the server's files leaves the authority's files as they are.\<close>

lemma pki_server_keeps:
  assumes "pki_server cr dir caKey caDER s = (None, s')" "calm s"
  shows "calm s' \<and> file_at s' (path_join dir caFile) = file_at s (path_join dir caFile)
    \<and> file_at s' (path_join dir caKeyFile) = file_at s (path_join dir caKeyFile)"
  using assms
  by (auto simp: pki_server_def outcome_simps writePEM_def dest!: calm_write_done)

lemma load_ca_calm:
  assumes "calm s" "file_at s (path_join dir caFile) = Some c" "file_at s (path_join dir caKeyFile) = Some k"
    and "pem_decode cr c = Some (ty, der)" "parse_cert cr der = Inr cert"
    and "pem_decode cr k = Some (ty', der')" "parse_key cr der' = Inr key"
  shows "load_ca cr dir s = (Inr (cert, key), s)"
  using assms by (simp add: load_ca_def calm_ops)

section \<open>Properties\<close>


text \<open>
  once \<open>ca.crt\<close> exists, \<open>Bootstrap\<close> reports success and writes nothing; when an earlier run
  failed before \<open>server.crt\<close> was written, the server's configuration then cannot be loaded.
\<close>

theorem pki_bootstrap_not_resumed:
  assumes "calm s" "MkdirAll dir s = (None, s1)"
    and "file_at s (path_join dir caFile) = Some ca"
    and "file_at s (path_join dir serverCertFile) = None" "\<not> is_dir s1 (path_join dir serverCertFile)"
  shows "pki_Bootstrap cr dir s = (None, s1)
    \<and> LoadServerTLS key_pair is_pool dir s1 = (Inl (Wrap ''load server keypair'' ErrNotExist), s1)"
proof -
  note keep = calm_mkdir[OF assms(2,1)]
  have "Stat (path_join dir caFile) s1 = (None, s1)"
    using keep assms(3) by (intro calm_ops) auto
  moreover have "ReadFile (path_join dir serverCertFile) s1 = (Inl ErrNotExist, s1)"
    using keep assms(4,5) by (intro calm_ops) auto
  ultimately show ?thesis
    using assms(2) by (simp add: pki_Bootstrap_def fs_do_def LoadServerTLS_def)
qed


text \<open>
  A crypto library for examples: keys are numbers, a certificate is its subject's name, and a
  PEM block is its type and its bytes with a colon between.
\<close>

definition test_crypto :: "(nat, nat) crypto" where
  "test_crypto =
     \<lparr>gen_key = (\<lambda>n. Inr (n + 7)), pub_of = (\<lambda>k. k), marshal_key = (\<lambda>k. Inr (show_nat k)),
      parse_key = (\<lambda>s. Inr (digits_val 0 s)), create_cert = (\<lambda>t p pub k. Inr (t_cn t)),
      parse_cert = (\<lambda>s. Inr \<lparr>t_serial = 1, t_org = [], t_cn = s, t_not_before = 0, t_not_after = 1,
        t_usage = [], t_ext_usage = [], t_is_ca = False, t_max_path_len = 0, t_dns = [], t_ips = []\<rparr>),
      create_csr = (\<lambda>org cn k. Inr cn), parse_csr = (\<lambda>s. Inr 3), csr_signed = (\<lambda>s. None),
      pem_encode = (\<lambda>ty s. ty @ CHR '':'' # s),
      pem_decode = (\<lambda>s. case cut_at s CHR '':'' of (ty, d, f) \<Rightarrow> if f then Some (ty, d) else None),
      rand_int = (\<lambda>n. n), clock = (\<lambda>n. 5), os_hostname = Inr ''node'', net_ifs = Inr []\<rparr>"

definition test_pki_fs :: fs where
  "test_pki_fs =
     \<lparr>fs_files = [(''/d/ca.crt'', \<lparr>f_data = ''C:ca'', f_time = 0\<rparr>), (''/d/ca.key'', \<lparr>f_data = ''K:7'', f_time = 0\<rparr>)],
      fs_dirs = [''/d''], fs_now = 1, fs_faults = []\<rparr>"

lemma test_paths:
  "path_join ''/d'' caFile = ''/d/ca.crt''" "path_join ''/d'' caKeyFile = ''/d/ca.key''"
  by code_simp+

lemma test_load_ca: "load_ca test_crypto ''/d'' test_pki_fs =
    (Inr (\<lparr>t_serial = 1, t_org = [], t_cn = ''ca'', t_not_before = 0, t_not_after = 1, t_usage = [],
        t_ext_usage = [], t_is_ca = False, t_max_path_len = 0, t_dns = [], t_ips = []\<rparr>, 7), test_pki_fs)"
  by (simp add: load_ca_def test_paths ReadFile_def next_fault_def file_at_def test_pki_fs_def tick_def)
    (simp add: test_crypto_def cut_at_def byte_def)

lemma test_show: "show_nat 5 = ''5''"
  by code_simp

lemma test_sign: "fst (SignCSR test_crypto ''/d'' ''R:x'' test_pki_fs) = Inr ''CERTIFICATE:bootstrap-5''"
  by (simp add: SignCSR_def test_load_ca)
    (simp add: test_crypto_def client_template_def bootstrap_cn_def show_int_def cut_at_def test_show)


text \<open>A crypto library that reads back what it writes, and an empty node.\<close>

definition test_crypto2 :: "(nat, nat) crypto" where
  "test_crypto2 = test_crypto
     \<lparr>create_cert := (\<lambda>t p pub k. if t = ca_template test_crypto then Inr ''1''
        else if t = server_template test_crypto then Inr ''2'' else Inl (Msg [])),
      parse_cert := (\<lambda>s. if s = ''1'' then Inr (ca_template test_crypto) else Inr (server_template test_crypto)),
      pem_encode := (\<lambda>ty s. hex_encode ty @ CHR '':'' # s),
      pem_decode := (\<lambda>s. case cut_at s CHR '':'' of (t, d, f) \<Rightarrow>
        if f then map_option (\<lambda>ty. (ty, d)) (hex_decode t) else None)\<rparr>"

definition test_empty_fs :: fs where
  "test_empty_fs = \<lparr>fs_files = [], fs_dirs = [''/''], fs_now = 1, fs_faults = []\<rparr>"

lemma test_crypto2_templates [simp]:
  "ca_template test_crypto2 = ca_template test_crypto"
  "server_template test_crypto2 = server_template test_crypto"
  by (simp_all add: test_crypto2_def ca_template_def server_template_def newSerial_def now_s_def discoverSANs_def)

lemma test_crypto2_laws:
  "pem_decode test_crypto2 (pem_encode test_crypto2 ty d) = Some (ty, d)"
  "marshal_key test_crypto2 k = Inr d \<Longrightarrow> parse_key test_crypto2 d = Inr k"
  "create_cert test_crypto2 t p pub k = Inr d \<Longrightarrow> parse_cert test_crypto2 d = Inr t"
proof -
  have "CHR '':'' \<notin> set (hex_encode ty)"
    using hex_encode_alnum[of "CHR '':''" ty]
    by (auto simp: is_alnum_def is_alpha_def is_digit_def is_lower_def is_upper_def byte_def)
  then show "pem_decode test_crypto2 (pem_encode test_crypto2 ty d) = Some (ty, d)"
    by (simp add: test_crypto2_def cut_at_found)
  show "marshal_key test_crypto2 k = Inr d \<Longrightarrow> parse_key test_crypto2 d = Inr k"
    by (auto simp: test_crypto2_def test_crypto_def digits_val_show)
  show "create_cert test_crypto2 t p pub k = Inr d \<Longrightarrow> parse_cert test_crypto2 d = Inr t"
    by (auto simp: test_crypto2_def split: if_splits)
qed

lemma test_paths2:
  "path_join ''/d'' serverCertFile = ''/d/server.crt''" "path_join ''/d'' serverKeyFile = ''/d/server.key''"
  "path_dir ''/d/ca.crt'' = ''/d''" "path_dir ''/d/ca.key'' = ''/d''"
  "path_dir ''/d/server.crt'' = ''/d''" "path_dir ''/d/server.key'' = ''/d''"
  by code_simp+

lemma test_empty_simps [simp]: "calm test_empty_fs" "file_at test_empty_fs p = None"
  by (simp_all add: test_empty_fs_def calm_def file_at_def)

lemma test_mkdir: "MkdirAll ''/d'' test_empty_fs = (None, test_empty_fs\<lparr>fs_dirs := [''/d'', ''/'']\<rparr>)"
  by code_simp

lemma test_bootstrap: "fst (pki_Bootstrap test_crypto2 ''/d'' test_empty_fs) = None"
proof -
  let ?s = "test_empty_fs\<lparr>fs_dirs := [''/d'', ''/'']\<rparr>"
  have "calm ?s" by (simp add: calm_def test_empty_fs_def)
  moreover have "file_at ?s p = None" "is_dir ?s p \<longleftrightarrow> p = ''/d'' \<or> p = ''/''" for p
    by (auto simp: file_at_def is_dir_def test_empty_fs_def)
  moreover have "gen_key test_crypto2 n = Inr (n + 7)" "marshal_key test_crypto2 k = Inr (show_nat k)"
    "create_cert test_crypto2 (ca_template test_crypto) t p k = Inr ''1''"
    "create_cert test_crypto2 (server_template test_crypto) t p k = Inr ''2''"
    "parse_cert test_crypto2 ''1'' = Inr (ca_template test_crypto)" for n k t p
    by (simp_all add: test_crypto2_def test_crypto_def ca_template_def server_template_def)
  ultimately show ?thesis
    by (simp add: pki_Bootstrap_def pki_server_def fs_do_def try_do_def test_mkdir writePEM_def test_paths
        test_paths2 calm_ops)
qed


theorem pki_bootstrap_not_resumed_witness:
  "pki_Bootstrap test_crypto ''/d'' test_pki_fs = (None, test_pki_fs\<lparr>fs_dirs := [''/'', ''/d'']\<rparr>)
    \<and> LoadServerTLS (\<lambda>c k. Inr c) (\<lambda>c. True) ''/d'' (test_pki_fs\<lparr>fs_dirs := [''/'', ''/d'']\<rparr>) =
        (Inl (Wrap ''load server keypair'' ErrNotExist), test_pki_fs\<lparr>fs_dirs := [''/'', ''/d'']\<rparr>)"
  by (rule pki_bootstrap_not_resumed[where ca = "''C:ca''"]) (code_simp+)

end
