(* ===== verification/Bootstrap.thy ===== *)
theory Bootstrap
  imports Authn Pki
begin

text \<open>
  Package \<open>internal/bootstrap\<close>: the one-time enrolment token. The manager's state is its count of
  failed attempts, held in memory, and two files: the token's hash and the marker that the
  token is consumed. SHA-256 and the crypto libraries are parameters. A run of the manager is a
  list of requests; the lemmas show that the lockout holds whatever the files do, and that the
  token is good for one enrolment when writing the marker or removing the hash works.
\<close>

section \<open>The manager\<close>

definition tokenHashFile :: string where "tokenHashFile = ''bootstrap-token-hash''"
definition consumedFile :: string where "consumedFile = ''bootstrap-consumed''"
definition maxAttempts :: nat where "maxAttempts = 3"

lemma bootstrap_names [simp]: "plain_name tokenHashFile" "plain_name consumedFile"
  by (simp_all add: plain_name_def tokenHashFile_def consumedFile_def)

lemma bootstrap_names_differ [simp]:
  "tokenHashFile \<noteq> consumedFile" "consumedFile \<noteq> tokenHashFile"
  "tokenHashFile \<noteq> caFile" "tokenHashFile \<noteq> caKeyFile" "consumedFile \<noteq> caFile" "consumedFile \<noteq> caKeyFile"
  "caFile \<noteq> tokenHashFile" "caKeyFile \<noteq> tokenHashFile" "caFile \<noteq> consumedFile" "caKeyFile \<noteq> consumedFile"
  by (simp_all add: tokenHashFile_def consumedFile_def caFile_def caKeyFile_def)

record bootstrap_result =
  br_ca_cert :: string
  br_client_cert :: string

record bs_manager =
  bs_dir :: string
  bs_attempts :: nat

definition NewManager :: "string \<Rightarrow> bs_manager" where
  "NewManager dir = \<lparr>bs_dir = dir, bs_attempts = 0\<rparr>"

definition hash_path :: "bs_manager \<Rightarrow> string" where
  "hash_path m = path_join (bs_dir m) tokenHashFile"

definition marker_path :: "bs_manager \<Rightarrow> string" where
  "marker_path m = path_join (bs_dir m) consumedFile"

definition Enabled :: "bs_manager \<Rightarrow> fs \<Rightarrow> bool \<times> fs" where
  "Enabled m s =
     (case Stat (hash_path m) s of
        (Some e, s) \<Rightarrow> (False, s)
      | (None, s) \<Rightarrow> (case Stat (marker_path m) s of (r, s) \<Rightarrow> (r \<noteq> None, s)))"

definition consume :: "bs_manager \<Rightarrow> string \<Rightarrow> fs \<Rightarrow> fs" where
  "consume m reason s = snd (Remove (hash_path m) (snd (WriteFile (marker_path m) (reason @ [CHR 0x0A]) s)))"

text \<open>The stored hash as bytes.\<close>

definition stored_hash :: "string \<Rightarrow> string option" where
  "stored_hash d = hex_decode (trim_prefix (trim_space d) ''sha256:'')"

text \<open>
  The part of \<open>Bootstrap\<close> after the token is accepted. A signed certificate that does not
  parse makes the log statement read through a nil pointer, after the token is consumed.
\<close>

definition enrol ::
    "('k, 'p) crypto \<Rightarrow> bs_manager \<Rightarrow> string \<Rightarrow> fs \<Rightarrow> (error + bootstrap_result) go \<times> fs" where
  "enrol cr m csr s =
     (if csr = [] then (Ret (Inl (Msg ''CSR required'')), s)
      else (case ReadFile (path_join (bs_dir m) caFile) s of
          (Inl e, s) \<Rightarrow> (Ret (Inl (Wrap ''read CA cert'' e)), s)
        | (Inr ca, s) \<Rightarrow>
            (case SignCSR cr (bs_dir m) csr s of
               (Inl e, s) \<Rightarrow> (Ret (Inl (Wrap ''sign CSR'' e)), s)
             | (Inr client, s) \<Rightarrow>
                 (case pem_decode cr client of
                    None \<Rightarrow> (Ret (Inl (Msg ''internal error: invalid signed certificate'')),
                             consume m ''CSR signing produced invalid cert'' s)
                  | Some (ty, der) \<Rightarrow>
                      (case parse_cert cr der of
                         Inl e \<Rightarrow> (Panic ''nil pointer dereference'', consume m ''consumed'' s)
                       | Inr cert \<Rightarrow> (Ret (Inr \<lparr>br_ca_cert = ca, br_client_cert = client\<rparr>),
                                      consume m ''consumed'' s))))))"

definition locked_reason :: string where
  "locked_reason = ''locked out after too many failed attempts''"

definition Bootstrap ::
    "(string \<Rightarrow> string) \<Rightarrow> ('k, 'p) crypto \<Rightarrow> string \<Rightarrow> string \<Rightarrow> bs_manager \<Rightarrow> fs \<Rightarrow>
     (error + bootstrap_result) go \<times> bs_manager \<times> fs" where
  "Bootstrap sha256 cr token csr m s =
     (case Enabled m s of (en, s) \<Rightarrow>
        if \<not> en then (Ret (Inl (Msg ''bootstrap not available'')), m, s)
        else if bs_attempts m \<ge> maxAttempts then
          (Ret (Inl (Msg ''bootstrap locked: too many failed attempts'')), m, consume m locked_reason s)
        else (case ReadFile (hash_path m) s of
            (Inl e, s) \<Rightarrow> (Ret (Inl (Wrap ''read token hash'' e)), m, s)
          | (Inr d, s) \<Rightarrow>
              (case stored_hash d of
                 None \<Rightarrow> (Ret (Inl (Wrap ''decode token hash'' (Ext ''encoding/hex''))), m, s)
               | Some expected \<Rightarrow>
                   if \<not> constant_time_eq (sha256 token) expected then
                     (let m = m\<lparr>bs_attempts := bs_attempts m + 1\<rparr> in
                      (Ret (Inl (Msg ''bootstrap authentication failed'')), m,
                       if bs_attempts m \<ge> maxAttempts then consume m locked_reason s else s))
                   else (case enrol cr m csr s of (r, s) \<Rightarrow> (r, m, s)))))"

text \<open>The fingerprints of two certificates and the writer of the token's hash.\<close>

definition fingerprint ::
    "(string \<Rightarrow> string) \<Rightarrow> ('k, 'p) crypto \<Rightarrow> string \<Rightarrow> string \<Rightarrow> string \<Rightarrow> fs \<Rightarrow> (error + string) \<times> fs" where
  "fingerprint sha256 cr read_msg decode_msg p s =
     (case ReadFile p s of
        (Inl e, s) \<Rightarrow> (Inl (Wrap read_msg e), s)
      | (Inr pem, s) \<Rightarrow>
          ((case pem_decode cr pem of
              None \<Rightarrow> Inl (Msg decode_msg)
            | Some (ty, der) \<Rightarrow> Inr (''sha256:'' @ hex_encode (sha256 der))), s))"

definition CAFingerprint :: "(string \<Rightarrow> string) \<Rightarrow> ('k, 'p) crypto \<Rightarrow> string \<Rightarrow> fs \<Rightarrow> (error + string) \<times> fs" where
  "CAFingerprint sha256 cr dir =
     fingerprint sha256 cr ''read CA cert'' ''decode CA cert PEM'' (path_join dir caFile)"

definition ServerFingerprint :: "(string \<Rightarrow> string) \<Rightarrow> ('k, 'p) crypto \<Rightarrow> string \<Rightarrow> fs \<Rightarrow> (error + string) \<times> fs" where
  "ServerFingerprint sha256 cr dir =
     fingerprint sha256 cr ''read server cert'' ''decode server cert PEM'' (path_join dir serverCertFile)"

definition WriteTokenHash :: "(string \<Rightarrow> string) \<Rightarrow> string \<Rightarrow> string \<Rightarrow> fs \<Rightarrow> error option \<times> fs" where
  "WriteTokenHash sha256 dir token s =
     WriteFile (path_join dir tokenHashFile) (''sha256:'' @ hex_encode (sha256 token) @ [CHR 0x0A]) s"

section \<open>What enrolling and consuming change\<close>

lemma paths_differ [simp]: "marker_path m \<noteq> hash_path m" "hash_path m \<noteq> marker_path m"
  by (simp_all add: hash_path_def marker_path_def)

lemma attempts_path [simp]:
  "hash_path (m\<lparr>bs_attempts := k\<rparr>) = hash_path m" "marker_path (m\<lparr>bs_attempts := k\<rparr>) = marker_path m"
  by (simp_all add: hash_path_def marker_path_def)

text \<open>The state in which no token is accepted any more: marker there or hash gone.\<close>

definition spent :: "bs_manager \<Rightarrow> fs \<Rightarrow> bool" where
  "spent m s \<longleftrightarrow> (file_at s (hash_path m) = None \<and> \<not> is_dir s (hash_path m))
     \<or> file_at s (marker_path m) \<noteq> None \<or> is_dir s (marker_path m)"

lemma attempts_consume [simp]:
  "consume (m\<lparr>bs_attempts := k\<rparr>) r s = consume m r s" "spent (m\<lparr>bs_attempts := k\<rparr>) s = spent m s"
  by (simp_all add: consume_def spent_def)

lemma calm_consume: "calm s \<Longrightarrow> calm (consume m r s)"
  by (simp add: consume_def WriteFile_def Remove_def)

lemma enabled_calm: "calm s \<Longrightarrow> Enabled m s = (\<not> spent m s, s)"
  by (auto simp: Enabled_def Stat_def spent_def)

lemma spent_consume:
  assumes "calm s" "\<not> is_dir s (hash_path m)"
  shows "spent m (consume m r s)"
  using assms by (auto simp: spent_def consume_def Remove_def WriteFile_def)

lemma consume_dir [simp]: "is_dir (consume m r s) p = is_dir s p"
  by (simp add: consume_def)

text \<open>Reading the authority and signing only advance the fault oracle.\<close>

lemma load_ca_state: "snd (load_ca cr dir s) = tick s \<or> snd (load_ca cr dir s) = tick (tick s)"
  by (auto simp: load_ca_def split: prod.splits sum.splits dest!: reads_tickD)

lemma sign_state: "snd (SignCSR cr dir csr s) = tick s \<or> snd (SignCSR cr dir csr s) = tick (tick s)"
  using load_ca_state[of cr dir s] by (auto simp: SignCSR_def split: prod.splits)

lemma sign_stateD:
  assumes "SignCSR cr dir csr s = (r, t)"
  shows "file_at t p = file_at s p" "is_dir t p = is_dir s p" "calm s \<Longrightarrow> t = s"
  using sign_state[of cr dir csr s] assms by auto

text \<open>On a calm file system, enrolling changes no file or consumes the token.\<close>

lemma enrol_calm:
  assumes "calm s" "enrol cr m csr s = (r, t)"
  shows "(t = s \<and> (\<exists>e. r = Ret (Inl e))) \<or> (\<exists>why. t = consume m why s)"
  using assms
  by (auto simp: enrol_def split: if_splits prod.splits sum.splits option.splits
      dest!: reads_tickD sign_stateD(3))

lemma enrol_success:
  assumes "enrol cr m csr s = (Ret (Inr x), t)"
  shows "\<exists>s' s''. t = consume m ''consumed'' s' \<and> csr \<noteq> []
    \<and> fst (SignCSR cr (bs_dir m) csr s'') = Inr (br_client_cert x)
    \<and> file_at s (path_join (bs_dir m) caFile) = Some (br_ca_cert x)"
  using assms
  by (auto simp: enrol_def split: if_splits prod.splits sum.splits option.splits dest!: read_done)
    (metis fst_conv)

section \<open>Runs of the manager\<close>

text \<open>
  An event is a call of \<open>Bootstrap\<close> (with the crypto of that moment, the token, the request and
  the result) or a restart of the agent, which forgets the count of failed attempts.
\<close>

datatype ('k, 'p) bs_event =
    Try "('k, 'p) crypto" string string "(error + bootstrap_result) go"
  | Restart

inductive bs_step ::
    "(string \<Rightarrow> string) \<Rightarrow> bs_manager \<times> fs \<Rightarrow> ('k, 'p) bs_event \<Rightarrow> bs_manager \<times> fs \<Rightarrow> bool"
  for sha256
where
  try_step: "Bootstrap sha256 cr tok csr m s = (r, m', s') \<Longrightarrow> bs_step sha256 (m, s) (Try cr tok csr r) (m', s')"
| restart_step: "bs_step sha256 (m, s) Restart (NewManager (bs_dir m), s)"

inductive bs_run ::
    "(string \<Rightarrow> string) \<Rightarrow> bs_manager \<times> fs \<Rightarrow> ('k, 'p) bs_event list \<Rightarrow> bs_manager \<times> fs \<Rightarrow> bool"
  for sha256
where
  run_nil: "bs_run sha256 st [] st"
| run_cons: "bs_step sha256 st e st' \<Longrightarrow> bs_run sha256 st' es st'' \<Longrightarrow> bs_run sha256 st (e # es) st''"

inductive_cases bs_tryE: "bs_step sha256 (m, s) (Try cr tok csr r) st"
inductive_cases bs_restartE: "bs_step sha256 (m, s) Restart st"
inductive_cases bs_stepE: "bs_step sha256 (m, s) e st"
inductive_cases bs_run_nilE: "bs_run sha256 st [] st'"
inductive_cases bs_run_consE: "bs_run sha256 st (e # es) st''"

fun enrolled :: "('k, 'p) bs_event \<Rightarrow> bool" where
  "enrolled (Try cr tok csr (Ret (Inr x))) = True"
| "enrolled _ = False"

definition auth_failure :: error where
  "auth_failure = Msg ''bootstrap authentication failed''"

fun guessed_wrong :: "('k, 'p) bs_event \<Rightarrow> bool" where
  "guessed_wrong (Try cr tok csr (Ret (Inl e))) = (e = auth_failure)"
| "guessed_wrong _ = False"

text \<open>One step: what it does to a spent token and to the count of failures.\<close>

lemma Bootstrap_dir: "Bootstrap sha256 cr tok csr m s = (r, m', s') \<Longrightarrow> bs_dir m' = bs_dir m"
  by (auto simp: Bootstrap_def Let_def split: prod.splits sum.splits option.splits if_splits)

lemma enrol_errors:
  "enrol cr m csr s = (Ret (Inl e), t) \<Longrightarrow> e \<noteq> auth_failure"
  by (auto simp: enrol_def auth_failure_def split: if_splits prod.splits sum.splits option.splits)

lemma Bootstrap_attempts:
  assumes "Bootstrap sha256 cr tok csr m s = (r, m', s')"
  shows "(bs_attempts m' = bs_attempts m + 1 \<and> bs_attempts m < maxAttempts \<and> r = Ret (Inl auth_failure))
    \<or> (bs_attempts m' = bs_attempts m \<and> r \<noteq> Ret (Inl auth_failure))"
  using assms enrol_errors[of cr m csr]
  by (auto simp: Bootstrap_def auth_failure_def Let_def
      split: prod.splits sum.splits option.splits if_splits)

lemma Bootstrap_locked:
  assumes "Bootstrap sha256 cr tok csr m s = (r, m', s')" "maxAttempts \<le> bs_attempts m"
  shows "\<exists>e. r = Ret (Inl e)"
  using assms by (auto simp: Bootstrap_def split: prod.splits if_splits)

lemma Bootstrap_spent:
  assumes "Bootstrap sha256 cr tok csr m s = (r, m', s')" "calm s" "spent m s"
  shows "r = Ret (Inl (Msg ''bootstrap not available'')) \<and> m' = m \<and> s' = s"
  using assms by (simp add: Bootstrap_def enabled_calm)

lemma Bootstrap_calm:
  assumes "Bootstrap sha256 cr tok csr m s = (r, m', s')" "calm s" "\<not> is_dir s (hash_path m)"
  shows "calm s'" "\<not> is_dir s' (hash_path m')"
    and "enrolled (Try cr tok csr r) \<Longrightarrow> spent m' s'"
    and "maxAttempts \<le> bs_attempts m' \<Longrightarrow> bs_attempts m < maxAttempts \<Longrightarrow> spent m' s'"
proof -
  have "calm s' \<and> \<not> is_dir s' (hash_path m') \<and> (enrolled (Try cr tok csr r) \<longrightarrow> spent m' s')
      \<and> (maxAttempts \<le> bs_attempts m' \<longrightarrow> bs_attempts m < maxAttempts \<longrightarrow> spent m' s')"
  proof (cases "\<exists>t d. enrol cr m csr s = (r, t) \<and> m' = m \<and> s' = t")
    case True
    then show ?thesis
      using assms enrol_calm[of s cr m csr r s'] by (auto simp: calm_consume spent_consume)
  next
    case False
    with assms show ?thesis
      by (auto simp: Bootstrap_def enabled_calm Let_def calm_consume spent_consume
          split: prod.splits sum.splits option.splits if_splits dest!: reads_tickD)
  qed
  then show "calm s'" "\<not> is_dir s' (hash_path m')"
    and "enrolled (Try cr tok csr r) \<Longrightarrow> spent m' s'"
    and "maxAttempts \<le> bs_attempts m' \<Longrightarrow> bs_attempts m < maxAttempts \<Longrightarrow> spent m' s'" by auto
qed

text \<open>A run: counting failures, and staying spent.\<close>

lemma locked_run:
  assumes "bs_run sha256 st es st'" "maxAttempts \<le> bs_attempts (fst st)" "Restart \<notin> set es"
  shows "\<forall>e\<in>set es. \<not> enrolled e \<and> \<not> guessed_wrong e"
  using assms
proof (induction rule: bs_run.induct)
  case (run_cons st e st' es st'')
  from run_cons.hyps(1) run_cons.prems show ?case
  proof (cases rule: bs_step.cases)
    case (try_step cr tok csr m s r m' s')
    with run_cons.prems Bootstrap_locked[OF try_step(4)] obtain err where "r = Ret (Inl err)" by auto
    moreover have "maxAttempts \<le> bs_attempts m'" "r \<noteq> Ret (Inl auth_failure)"
      using Bootstrap_attempts[OF try_step(4)] run_cons.prems(1) try_step(1) by auto
    ultimately show ?thesis using run_cons.IH run_cons.prems(2) try_step by auto
  qed auto
qed simp

lemma run_counts:
  assumes "bs_run sha256 st es st'" "bs_attempts (fst st) \<le> maxAttempts" "Restart \<notin> set es"
  shows "bs_attempts (fst st') = bs_attempts (fst st) + length (filter guessed_wrong es)
    \<and> bs_attempts (fst st') \<le> maxAttempts"
  using assms
proof (induction rule: bs_run.induct)
  case (run_cons st e st' es st'')
  from run_cons.hyps(1) run_cons.prems show ?case
  proof (cases rule: bs_step.cases)
    case (try_step cr tok csr m s r m' s')
    have "guessed_wrong e \<longleftrightarrow> r = Ret (Inl auth_failure)"
      unfolding try_step(2) by (cases "Try cr tok csr r" rule: guessed_wrong.cases) auto
    moreover have "bs_attempts m' \<le> maxAttempts"
      using Bootstrap_attempts[OF try_step(4)] run_cons.prems(1) try_step(1) by auto
    ultimately show ?thesis
      using run_cons.IH run_cons.prems(2) try_step(1,3) Bootstrap_attempts[OF try_step(4)] by auto
  qed auto
qed simp

lemma restart_simps [simp]:
  "hash_path (NewManager (bs_dir m)) = hash_path m" "spent (NewManager (bs_dir m)) s = spent m s"
  by (simp_all add: NewManager_def hash_path_def spent_def marker_path_def)

lemma step_calm:
  assumes "bs_step sha256 (m, s) e (m', s')" "calm s" "\<not> is_dir s (hash_path m)"
  shows "calm s' \<and> \<not> is_dir s' (hash_path m') \<and> (spent m s \<longrightarrow> spent m' s' \<and> \<not> enrolled e)
    \<and> (enrolled e \<longrightarrow> spent m' s')"
  using assms(1)
proof (cases rule: bs_step.cases)
  case (try_step cr tok csr r)
  have "calm s' \<and> \<not> is_dir s' (hash_path m')"
    using Bootstrap_calm(1,2)[OF try_step(2) assms(2,3)] by simp
  moreover have "spent m s \<Longrightarrow> spent m' s' \<and> \<not> enrolled e"
    using Bootstrap_spent[OF try_step(2) assms(2)] try_step(1) by simp
  moreover have "enrolled e \<Longrightarrow> spent m' s'"
    using Bootstrap_calm(3)[OF try_step(2) assms(2,3)] try_step(1) by simp
  ultimately show ?thesis by blast
next
  case restart_step
  with assms(2,3) show ?thesis by simp
qed

lemma spent_run:
  assumes "bs_run sha256 st es st'" "calm (snd st)" "\<not> is_dir (snd st) (hash_path (fst st))"
    and "spent (fst st) (snd st)"
  shows "filter enrolled es = []"
  using assms
proof (induction rule: bs_run.induct)
  case (run_cons st e st' es st'')
  then show ?case using step_calm[of sha256 "fst st" "snd st" e "fst st'" "snd st'"] by simp
qed simp

section \<open>Properties\<close>

text \<open>
  C13: on a file system without faults, a token enrols at most one client, whatever requests
  come, with whatever tokens, in whatever order, and however often the agent is restarted.
\<close>

theorem bootstrap_enrols_once:
  assumes "bs_run sha256 (NewManager dir, s) es st" "calm s" "\<not> is_dir s (path_join dir tokenHashFile)"
  shows "length (filter enrolled es) \<le> 1"
proof -
  have "length (filter enrolled es) \<le> 1"
    if "bs_run sha256 st0 es st" "calm (snd st0)" "\<not> is_dir (snd st0) (hash_path (fst st0))" for st0
    using that
  proof (induction rule: bs_run.induct)
    case (run_cons st e st' es st'')
    then show ?case
      using step_calm[of sha256 "fst st" "snd st" e "fst st'" "snd st'"] spent_run[of sha256 st' es st'']
      by (cases "enrolled e") auto
  qed simp
  from this[OF assms(1)] assms(2,3) show ?thesis by (simp add: NewManager_def hash_path_def)
qed

text \<open>
  as long as the agent runs, at most three wrong tokens are ever compared with the stored
  hash, and after the third nothing enrols, whatever faults the file system has.
\<close>

theorem bootstrap_lockout:
  assumes "bs_run sha256 (NewManager dir, s) (es @ fs) st" "Restart \<notin> set (es @ fs)"
  shows "length (filter guessed_wrong (es @ fs)) \<le> 3
    \<and> (length (filter guessed_wrong es) = 3 \<longrightarrow> filter enrolled fs = [])"
proof (intro conjI impI)
  show "length (filter guessed_wrong (es @ fs)) \<le> 3"
    using run_counts[OF assms(1) _ assms(2)] by (simp add: NewManager_def maxAttempts_def)
  have split: "\<exists>mid. bs_run sha256 st0 es mid \<and> bs_run sha256 mid fs st"
    if "bs_run sha256 st0 (es @ fs) st" for st0
    using that
    by (induction es arbitrary: st0) (auto intro: bs_run.intros elim!: bs_run_consE, blast intro: run_cons)
  from split[OF assms(1)] obtain mid
    where mid: "bs_run sha256 (NewManager dir, s) es mid" "bs_run sha256 mid fs st" by blast
  assume "length (filter guessed_wrong es) = 3"
  with run_counts[OF mid(1)] assms(2) have "maxAttempts \<le> bs_attempts (fst mid)"
    by (simp add: NewManager_def maxAttempts_def)
  from locked_run[OF mid(2) this] assms(2) show "filter enrolled fs = []" by simp
qed

text \<open>The file \<open>WriteTokenHash\<close> writes holds the hash of its token.\<close>

lemma stored_hash_written [go_string]:
  "stored_hash (''sha256:'' @ hex_encode h @ [CHR 0x0A]) = Some h"
proof -
  let ?s = "''sha256:'' @ hex_encode h"
  have "graphic (hd ?s)" by (simp add: graphic_def byte_def)
  moreover have "graphic (last ?s)"
  proof (cases "hex_encode h = []")
    case True
    then show ?thesis by (simp add: graphic_def byte_def)
  next
    case False
    then show ?thesis using hex_encode_alnum[OF last_in_set[OF False]] alnum_graphic by simp
  qed
  ultimately have "trim_space (?s @ [CHR 0x0A]) = ?s" by (intro trim_space_line) auto
  then have "stored_hash (''sha256:'' @ hex_encode h @ [CHR 0x0A]) = hex_decode (trim_prefix ?s ''sha256:'')"
    by (simp only: stored_hash_def append_assoc)
  also have "\<dots> = Some h" by (simp only: trim_prefix_append hex_decode_encode)
  finally show ?thesis .
qed

text \<open>
  C14: a successful enrolment had a token whose SHA-256 is the stored hash, fewer than three failures
  before it, a request, and gives back the contents of \<open>ca.crt\<close> and a certificate \<open>SignCSR\<close>
  issued for this request.
\<close>

theorem bootstrap_sound:
  assumes "Bootstrap sha256 cr tok csr m s = (Ret (Inr x), m', s')"
  shows "(\<exists>d. file_at s (hash_path m) = Some d \<and> stored_hash d = Some (sha256 tok))
    \<and> bs_attempts m < maxAttempts \<and> m' = m \<and> csr \<noteq> []
    \<and> file_at s (path_join (bs_dir m) caFile) = Some (br_ca_cert x)
    \<and> (\<exists>t. fst (SignCSR cr (bs_dir m) csr t) = Inr (br_client_cert x))"
proof -
  from assms obtain t u d where t: "Enabled m s = (True, t)" "ReadFile (hash_path m) t = (Inr d, u)"
    and d: "stored_hash d = Some (sha256 tok)" "bs_attempts m < maxAttempts"
    and e: "enrol cr m csr u = (Ret (Inr x), s')" "m' = m"
    by (auto simp: Bootstrap_def Let_def split: prod.splits sum.splits option.splits if_splits)
  from t(1) have "file_at t p = file_at s p" for p
    by (auto simp: Enabled_def split: prod.splits option.splits dest!: reads_tickD)
  with t(2) read_done[OF t(2)] have "file_at s (hash_path m) = Some d" "file_at u p = file_at s p" for p
    by (auto dest!: reads_tickD)
  with d e enrol_success[OF e(1)] show ?thesis by auto
qed

text \<open>A stored token is accepted, and consumed, when nothing stands in the way.\<close>

lemma Bootstrap_accepts:
  assumes calm: "calm s" and live: "\<not> spent m s" "bs_attempts m < maxAttempts"
    and hash: "file_at s (hash_path m) = Some d" "stored_hash d = Some (sha256 tok)"
    and ca: "file_at s (path_join (bs_dir m) caFile) = Some ca" and csr: "csr \<noteq> []"
    and sign: "fst (SignCSR cr (bs_dir m) csr s) = Inr pem"
    and parses: "pem_decode cr pem = Some (ty, der)" "parse_cert cr der = Inr cert"
  shows "Bootstrap sha256 cr tok csr m s =
    (Ret (Inr \<lparr>br_ca_cert = ca, br_client_cert = pem\<rparr>), m, consume m ''consumed'' s)"
proof -
  obtain u where u: "SignCSR cr (bs_dir m) csr s = (Inr pem, u)"
    using sign by (metis prod.collapse)
  with calm have "u = s" by (auto dest: sign_stateD(3))
  with u calm_ops(1)[OF calm ca] csr parses have "enrol cr m csr s =
      (Ret (Inr \<lparr>br_ca_cert = ca, br_client_cert = pem\<rparr>), consume m ''consumed'' s)"
    by (simp add: enrol_def)
  then show ?thesis
    using live calm hash calm_ops(1)[OF calm hash(1)] by (simp add: Bootstrap_def enabled_calm)
qed

text \<open>
  the token given to \<open>WriteTokenHash\<close> is the one \<open>Bootstrap\<close> accepts, with any request \<open>SignCSR\<close>
  signs into a certificate that parses; afterwards the token is spent.
\<close>

theorem bootstrap_roundtrip:
  assumes "WriteTokenHash sha256 dir tok s0 = (None, s)" "calm s0"
    and "file_at s0 (path_join dir consumedFile) = None"
    and "\<not> is_dir s0 (path_join dir consumedFile)"
    and "file_at s0 (path_join dir caFile) = Some ca" "csr \<noteq> []"
    and "fst (SignCSR cr dir csr s) = Inr pem" "pem_decode cr pem = Some (ty, der)" "parse_cert cr der = Inr cert"
  shows "\<exists>t. Bootstrap sha256 cr tok csr (NewManager dir) s =
      (Ret (Inr \<lparr>br_ca_cert = ca, br_client_cert = pem\<rparr>), NewManager dir, t) \<and> spent (NewManager dir) t"
proof -
  let ?m = "NewManager dir"
  have paths: "hash_path ?m = path_join dir tokenHashFile" "marker_path ?m = path_join dir consumedFile"
    "bs_dir ?m = dir" "bs_attempts ?m = 0"
    by (simp_all add: hash_path_def marker_path_def NewManager_def)
  from assms(1,2) have s: "s = put_file (hash_path ?m) (''sha256:'' @ hex_encode (sha256 tok) @ [CHR 0x0A]) s0"
    and nodir: "\<not> is_dir s0 (hash_path ?m)"
    by (auto simp: WriteTokenHash_def WriteFile_def paths split: if_splits)
  then have hash: "file_at s (hash_path ?m) = Some (''sha256:'' @ hex_encode (sha256 tok) @ [CHR 0x0A])"
    and calm: "calm s" "\<not> is_dir s (hash_path ?m)"
    and ca: "file_at s (path_join dir caFile) = Some ca"
    and live: "\<not> spent ?m s"
    using assms(2-5) by (simp_all add: spent_def paths)
  have "Bootstrap sha256 cr tok csr ?m s =
      (Ret (Inr \<lparr>br_ca_cert = ca, br_client_cert = pem\<rparr>), ?m, consume ?m ''consumed'' s)"
    using assms(6-9) ca stored_hash_written[of "sha256 tok"]
    by (intro Bootstrap_accepts[OF calm(1) live _ hash]) (simp_all add: paths maxAttempts_def del: append.simps)
  with spent_consume[OF calm] show ?thesis by blast
qed

text \<open>
  An example: the authority of \<open>Pki\<close>, the identity as SHA-256, and the token \<open>T\<close>, whose hash is
  written first.
\<close>

definition test_bs_fs :: fs where
  "test_bs_fs = snd (WriteTokenHash (\<lambda>x. x) ''/d'' ''T'' test_pki_fs)"

lemma test_bs_paths:
  "path_join ''/d'' tokenHashFile = ''/d/bootstrap-token-hash''"
  "path_join ''/d'' consumedFile = ''/d/bootstrap-consumed''"
  "path_dir ''/d/bootstrap-token-hash'' = ''/d''" "path_dir ''/d/bootstrap-consumed'' = ''/d''"
  by code_simp+

lemma test_bs_simps [simp]:
  "calm test_pki_fs" "calm test_bs_fs" "\<not> is_dir test_bs_fs (path_join ''/d'' tokenHashFile)"
  "WriteTokenHash (\<lambda>x. x) ''/d'' ''T'' test_pki_fs = (None, test_bs_fs)"
  by (simp_all add: test_bs_fs_def WriteTokenHash_def WriteFile_def calm_def next_fault_def test_bs_paths
      is_dir_def test_pki_fs_def put_file_def tick_def)

lemma test_bs_sign: "fst (SignCSR test_crypto ''/d'' ''R:x'' test_bs_fs) = Inr ''CERTIFICATE:bootstrap-5''"
proof -
  have "file_at test_bs_fs (path_join ''/d'' caFile) = Some ''C:ca''"
    "file_at test_bs_fs (path_join ''/d'' caKeyFile) = Some ''K:7''"
    by (simp_all add: test_bs_fs_def WriteTokenHash_def WriteFile_def next_fault_def is_dir_def tick_def
        test_paths test_bs_paths put_file_def file_at_def test_pki_fs_def)
  from load_ca_calm[OF test_bs_simps(2) this, of test_crypto] show ?thesis
    by (simp add: SignCSR_def)
      (simp add: test_crypto_def client_template_def bootstrap_cn_def show_int_def cut_at_def test_show)
qed

lemma test_bs_file: "file_at test_bs_fs (path_join ''/d'' tokenHashFile) =
    Some (''sha256:'' @ hex_encode ''T'' @ [CHR 0x0A])"
  by (simp add: test_bs_fs_def WriteTokenHash_def WriteFile_def next_fault_def is_dir_def tick_def
      test_bs_paths put_file_def file_at_def test_pki_fs_def)

lemma test_bs_live: "\<not> spent (NewManager ''/d'') test_bs_fs"
  by (simp add: spent_def NewManager_def hash_path_def marker_path_def test_bs_fs_def WriteTokenHash_def
      WriteFile_def next_fault_def is_dir_def tick_def test_bs_paths put_file_def file_at_def test_pki_fs_def)

lemma test_bs_ca: "file_at test_bs_fs (path_join ''/d'' caFile) = Some ''C:ca''"
  by (simp add: test_bs_fs_def WriteTokenHash_def WriteFile_def next_fault_def is_dir_def tick_def
      test_paths test_bs_paths put_file_def file_at_def test_pki_fs_def)

lemma test_bs_parse:
  "pem_decode test_crypto ''CERTIFICATE:bootstrap-5'' = Some (''CERTIFICATE'', ''bootstrap-5'')"
  by (simp add: test_crypto_def cut_at_def)

lemma test_bs_cert: "\<exists>c. parse_cert test_crypto x = Inr c"
  by (simp add: test_crypto_def)

lemma test_bs_ok: "Bootstrap (\<lambda>x. x) test_crypto ''T'' ''R:x'' (NewManager ''/d'') test_bs_fs =
    (Ret (Inr \<lparr>br_ca_cert = ''C:ca'', br_client_cert = ''CERTIFICATE:bootstrap-5''\<rparr>), NewManager ''/d'',
     consume (NewManager ''/d'') ''consumed'' test_bs_fs)"
proof -
  obtain c where "parse_cert test_crypto ''bootstrap-5'' = Inr c" using test_bs_cert by blast
  then show ?thesis
    using test_bs_file test_bs_ca test_bs_sign stored_hash_written[of "''T''"]
    by (intro Bootstrap_accepts[OF _ test_bs_live _ _ _ _ _ _ test_bs_parse])
      (simp_all add: NewManager_def hash_path_def maxAttempts_def)
qed

theorem bootstrap_enrols_once_witness:
  "length (filter enrolled [Try test_crypto ''T'' ''R:x''
     (Ret (Inr \<lparr>br_ca_cert = ''C:ca'', br_client_cert = ''CERTIFICATE:bootstrap-5''\<rparr>)), Restart]) \<le> 1"
  by (rule bootstrap_enrols_once[OF run_cons[OF try_step[OF test_bs_ok] run_cons[OF restart_step run_nil]]])
    simp_all

theorem bootstrap_sound_witness:
  "(\<exists>d. file_at test_bs_fs (hash_path (NewManager ''/d'')) = Some d \<and> stored_hash d = Some ''T'')
    \<and> bs_attempts (NewManager ''/d'') < maxAttempts \<and> NewManager ''/d'' = NewManager ''/d'' \<and> ''R:x'' \<noteq> []
    \<and> file_at test_bs_fs (path_join (bs_dir (NewManager ''/d'')) caFile) = Some ''C:ca''
    \<and> (\<exists>t. fst (SignCSR test_crypto (bs_dir (NewManager ''/d'')) ''R:x'' t) = Inr ''CERTIFICATE:bootstrap-5'')"
  using bootstrap_sound[OF test_bs_ok] by simp

theorem bootstrap_roundtrip_witness:
  "\<exists>t. Bootstrap (\<lambda>x. x) test_crypto ''T'' ''R:x'' (NewManager ''/d'') test_bs_fs =
      (Ret (Inr \<lparr>br_ca_cert = ''C:ca'', br_client_cert = ''CERTIFICATE:bootstrap-5''\<rparr>), NewManager ''/d'', t)
    \<and> spent (NewManager ''/d'') t"
proof -
  obtain c where "parse_cert test_crypto ''bootstrap-5'' = Inr c" using test_bs_cert by blast
  then show ?thesis
    by (intro bootstrap_roundtrip[OF test_bs_simps(4,1) _ _ _ _ test_bs_sign test_bs_parse])
      (simp_all add: test_bs_paths test_paths test_pki_fs_def file_at_def is_dir_def)
qed

text \<open>Three wrong tokens against the same node.\<close>

definition test_guess :: "bs_manager \<times> fs \<Rightarrow> bs_manager \<times> fs" where
  "test_guess st = snd (Bootstrap (\<lambda>x. x) test_crypto ''bad'' ''R:x'' (fst st) (snd st))"

lemma test_guess_fails:
  assumes "calm s" "\<not> spent m s" "file_at s (hash_path m) = Some (''sha256:'' @ hex_encode ''T'' @ [CHR 0x0A])"
    and "bs_attempts m < 3"
  shows "\<exists>s'. Bootstrap (\<lambda>x. x) test_crypto ''bad'' ''R:x'' m s =
      (Ret (Inl auth_failure), m\<lparr>bs_attempts := bs_attempts m + 1\<rparr>, s') \<and> (bs_attempts m < 2 \<longrightarrow> s' = s)"
  using assms stored_hash_written[of "''T''"] calm_ops(1)[OF assms(1,3)]
  by (simp add: Bootstrap_def enabled_calm Let_def maxAttempts_def auth_failure_def)

theorem bootstrap_lockout_witness:
  "length (filter guessed_wrong (replicate 3 (Try test_crypto ''bad'' ''R:x'' (Ret (Inl auth_failure))))) \<le> 3"
proof -
  let ?e = "Try test_crypto ''bad'' ''R:x'' (Ret (Inl auth_failure))"
  let ?m = "\<lambda>k. NewManager ''/d''\<lparr>bs_attempts := k\<rparr>"
  have fail: "\<exists>s'. bs_step (\<lambda>x. x) (?m k, test_bs_fs) ?e (?m (Suc k), s') \<and> (k < 2 \<longrightarrow> s' = test_bs_fs)"
    if "k < 3" for k
  proof -
    have live: "\<not> spent (?m k) test_bs_fs" using test_bs_live by simp
    have "\<exists>s'. Bootstrap (\<lambda>x. x) test_crypto ''bad'' ''R:x'' (?m k) test_bs_fs =
        (Ret (Inl auth_failure), ?m (Suc k), s') \<and> (k < 2 \<longrightarrow> s' = test_bs_fs)"
      using test_guess_fails[OF test_bs_simps(2) live] test_bs_file that
      by (simp add: NewManager_def hash_path_def)
    then show ?thesis by (blast intro: try_step)
  qed
  obtain s' where "bs_step (\<lambda>x. x) (?m 2, test_bs_fs) ?e (?m 3, s')"
    using fail[of 2] by auto
  moreover have "bs_step (\<lambda>x. x) (?m 1, test_bs_fs) ?e (?m 2, test_bs_fs)"
    using fail[of 1] by (auto simp: eval_nat_numeral)
  moreover have "bs_step (\<lambda>x. x) (NewManager ''/d'', test_bs_fs) ?e (?m 1, test_bs_fs)"
    using fail[of 0] by (simp add: NewManager_def)
  ultimately have "bs_run (\<lambda>x. x) (NewManager ''/d'', test_bs_fs) [?e, ?e, ?e] (?m 3, s')"
    by (blast intro: bs_run.intros)
  then show ?thesis
    using bootstrap_lockout[of "\<lambda>x. x" "''/d''" test_bs_fs "[?e, ?e, ?e]" "[]" "(?m 3, s')"]
    by (simp add: numeral_3_eq_3)
qed

end
