(* ===== verification/Config_Store.thy ===== *)
theory Config_Store
  imports Files
begin

text \<open>
  The interface between the configuration applier and the two managers it writes through
  (\<open>network.Manager\<close> and \<open>kargs.Manager\<close>): a store writes a value under a directory and reads one back.
  \<open>owns d p\<close> are the paths the store under directory \<open>d\<close> may touch, \<open>good d x\<close> the values it keeps, and
  \<open>shown x y\<close> relates a written value to what is read. The locale \<open>disjoint_stores\<close> is two stores
  side by side. \<open>Kargs\<close> and \<open>Network\<close> interpret \<open>config_store\<close>, \<open>Machine_Config\<close> interprets
  \<open>disjoint_stores\<close>.
\<close>

definition or_default :: "string \<Rightarrow> string \<Rightarrow> string" where
  "or_default d dir = (if dir = [] then d else dir)"

text \<open>Two states that agree on a set of paths, the second with at least the directories of the first.\<close>

definition agree :: "(string \<Rightarrow> bool) \<Rightarrow> fs \<Rightarrow> fs \<Rightarrow> bool" where
  "agree P s t \<longleftrightarrow> (\<forall>p. P p \<longrightarrow> file_at t p = file_at s p) \<and> (\<forall>p. is_dir s p \<longrightarrow> is_dir t p)"

lemma agree_refl [simp]: "agree P s s"
  by (simp add: agree_def)

lemma agree_trans: "agree P s t \<Longrightarrow> agree P t u \<Longrightarrow> agree P s u"
  by (simp add: agree_def)

lemma agreeD: "agree P s t \<Longrightarrow> P p \<Longrightarrow> file_at t p = file_at s p"
  by (simp add: agree_def)

locale config_store =
  fixes put :: "string \<Rightarrow> 'a \<Rightarrow> fs \<Rightarrow> error option \<times> fs"
    and get :: "string \<Rightarrow> fs \<Rightarrow> (error + 'a) \<times> fs"
    and owns :: "string \<Rightarrow> string \<Rightarrow> bool"
    and good :: "string \<Rightarrow> 'a \<Rightarrow> bool"
    and shown :: "'a \<Rightarrow> 'a \<Rightarrow> bool"
  assumes write_frame: "agree (\<lambda>p. \<not> owns d p) s (snd (put d x s))"
    and write_calm: "calm s \<Longrightarrow> calm (snd (put d x s))"
    and read_calm: "calm s \<Longrightarrow> snd (get d s) = s"
    and read_back: "calm s \<Longrightarrow> good d x \<Longrightarrow> put d x s = (None, t) \<Longrightarrow> calm u \<Longrightarrow> agree (owns d) t u
      \<Longrightarrow> \<exists>y. get d u = (Inr y, u) \<and> shown x y"
begin

lemma reads_what_is_written:
  assumes "calm s" "good d x" "put d x s = (None, t)"
  shows "\<exists>y. get d t = (Inr y, t) \<and> shown x y"
proof -
  have "calm t" using write_calm[OF assms(1), of d x] assms(3) by simp
  with read_back[OF assms] show ?thesis by simp
qed

lemma last_write_wins:
  assumes "calm s" "good d y" "put d x s = (e, t)" "put d y t = (None, u)"
  shows "\<exists>z. get d u = (Inr z, u) \<and> shown y z"
  using reads_what_is_written[of t d y u] write_calm[OF assms(1), of d x] assms by simp

end

locale disjoint_stores =
  one: config_store put1 get1 owns1 good1 shown1 + two: config_store put2 get2 owns2 good2 shown2
  for put1 :: "string \<Rightarrow> 'a \<Rightarrow> fs \<Rightarrow> error option \<times> fs"
    and get1 :: "string \<Rightarrow> fs \<Rightarrow> (error + 'a) \<times> fs"
    and owns1 :: "string \<Rightarrow> string \<Rightarrow> bool"
    and good1 :: "string \<Rightarrow> 'a \<Rightarrow> bool"
    and shown1 :: "'a \<Rightarrow> 'a \<Rightarrow> bool"
    and put2 :: "string \<Rightarrow> 'b \<Rightarrow> fs \<Rightarrow> error option \<times> fs"
    and get2 :: "string \<Rightarrow> fs \<Rightarrow> (error + 'b) \<times> fs"
    and owns2 :: "string \<Rightarrow> string \<Rightarrow> bool"
    and good2 :: "string \<Rightarrow> 'b \<Rightarrow> bool"
    and shown2 :: "'b \<Rightarrow> 'b \<Rightarrow> bool" +
  assumes apart: "\<not> (owns1 d p \<and> owns2 e p)"
begin

lemma second_keeps_first: "agree (owns1 d) s (snd (put2 e y s))"
  using two.write_frame[of e s y] apart by (auto simp: agree_def)

lemma both_read_back:
  assumes "calm s" "good1 d x" "put1 d x s = (None, t)"
    and "calm t'" "agree (owns1 d) t t'" "good2 e y" "put2 e y t' = (None, u)"
    and "calm v" "agree (\<lambda>p. owns1 d p \<or> owns2 e p) u v"
  shows "\<exists>x' y'. get1 d v = (Inr x', v) \<and> shown1 x x' \<and> get2 e v = (Inr y', v) \<and> shown2 y y'"
proof -
  have "agree (owns1 d) t' u" using second_keeps_first[of d t' e y] assms(7) by simp
  with assms(5,9) have "agree (owns1 d) t v" "agree (owns2 e) u v" by (auto simp: agree_def)
  with one.read_back[OF assms(1-3,8)] two.read_back[OF assms(4,6,7,8)] show ?thesis by blast
qed

end

text \<open>The frame conditions of the file operations, as agreement.\<close>

lemma agree_write: "\<not> P p \<Longrightarrow> agree P s (snd (WriteFile p d s))"
  unfolding agree_def by (metis write_frame write_dir)

lemma agree_remove: "\<not> P p \<Longrightarrow> agree P s (snd (Remove p s))"
  unfolding agree_def by (metis remove_frame remove_dir)

lemma mkdir_keeps: "is_dir s q \<Longrightarrow> is_dir (snd (MkdirAll p s)) q"
  by (simp add: MkdirAll_def is_dir_def split: fault.splits)

lemma agree_mkdir: "agree P s (snd (MkdirAll p s))"
  by (simp add: agree_def mkdir_keeps)

lemma agree_mono: "agree P s t \<Longrightarrow> (\<And>p. Q p \<Longrightarrow> P p) \<Longrightarrow> agree Q s t"
  by (auto simp: agree_def)

lemma calm_write: "calm s \<Longrightarrow> calm (snd (WriteFile p d s))"
  by (auto simp: WriteFile_def)

lemma calm_remove: "calm s \<Longrightarrow> calm (snd (Remove p s))"
  by (auto simp: Remove_def)

lemma frameD:
  "WriteFile p d s = (e, t) \<Longrightarrow> \<not> P p \<Longrightarrow> agree P s t" "Remove p s = (e, t) \<Longrightarrow> \<not> P p \<Longrightarrow> agree P s t"
  "MkdirAll p s = (e, t) \<Longrightarrow> agree P s t"
  by (metis agree_write snd_conv) (metis agree_remove snd_conv, metis agree_mkdir snd_conv)

lemma calmD:
  "WriteFile p d s = (e, t) \<Longrightarrow> calm s \<Longrightarrow> calm t" "Remove p s = (e, t) \<Longrightarrow> calm s \<Longrightarrow> calm t"
  "MkdirAll p s = (e, t) \<Longrightarrow> calm s \<Longrightarrow> calm t"
  by (metis calm_write snd_conv) (metis calm_remove snd_conv, metis mkdir_calm snd_conv)

lemma doneD: "WriteFile p d s = (None, t) \<Longrightarrow> file_at t p = Some d"
  using write_done[of p d s] by simp

text \<open>A cleaned directory is the directory of the files in it.\<close>

lemma path_dir_of_join:
  assumes "plain_name f" "path_clean d = d" "d \<noteq> []"
  shows "path_dir (path_join d f) = d"
proof -
  let ?E = "clean_elems (has_prefix d ''/'') [] (split_on CHR ''/'' d)"
  have "dropWhile (\<lambda>c. c \<noteq> CHR ''/'') (rev f @ rev (dir_prefix d)) = rev (dir_prefix d)"
    using assms(1) by (auto simp: dropWhile_append plain_name_def dir_prefix_def Let_def split: if_splits)
  then have "path_dir (path_join d f) =
      (if dir_prefix d = [] then ''.'' else if dir_prefix d = ''/'' then ''/'' else butlast (dir_prefix d))"
    using assms(1) by (simp add: path_join_plain path_dir_def)
  moreover have "d = (if has_prefix d ''/'' then CHR ''/'' # join_with ''/'' ?E
      else if join_with ''/'' ?E = [] then ''.'' else join_with ''/'' ?E)"
    using assms(2,3) by (simp add: path_clean_def Let_def)
  ultimately show ?thesis
    using assms(3) by (auto simp: dir_prefix_def Let_def butlast_append split: if_splits)
qed

end
