(* ===== verification/Kargs.thy ===== *)
theory Kargs
  imports Config_Store
begin

text \<open>
  Package \<open>internal/system/kargs\<close>: the file of extra kernel arguments, written as one TOML line and read
  back by a small parser. It interprets the locale \<open>config_store\<close>: what is written is read back, and nothing
  else is touched.
\<close>

section \<open>Rendering and parsing\<close>

definition renderTOML :: "unicode \<Rightarrow> string list \<Rightarrow> string" where
  "renderTOML uc args = ''kargs = ['' @ join_with '', '' (map (go_quote uc) args) @ '']'' @ [CHR 0x0A]"

text \<open>\<open>strings.TrimLeft(s, ", ")\<close>.\<close>

definition trim_left_commas :: "string \<Rightarrow> string" where
  "trim_left_commas s = dropWhile (\<lambda>c. c = CHR '','' \<or> c = CHR 0x20) s"

lemma trim_space_length: "length (trim_space s) \<le> length s"
  unfolding trim_space_def using trim_left_length trim_right_length le_trans by blast

lemma cut_at_rest_length: "cut_at s c = (a, b, f) \<Longrightarrow> length b \<le> length s - 1"
  by (auto simp: cut_at_def dropWhile_eq_Cons_conv split: list.splits)

lemma quoted_rest_length: "length (trim_left_commas (tl (dropWhile P r))) \<le> length r"
  unfolding trim_left_commas_def
  using length_dropWhile_le[of "\<lambda>c. c = CHR '','' \<or> c = CHR 0x20" "tl (dropWhile P r)"] length_dropWhile_le[of P r]
  by (simp del: length_dropWhile_le)

function parseQuotedList :: "string \<Rightarrow> string list" where
  "parseQuotedList s =
     (if s = [] then []
      else (case trim_space s of
          [] \<Rightarrow> []
        | c # r \<Rightarrow>
            if c = CHR 0x22 then
              (if CHR 0x22 \<notin> set r then []
               else takeWhile (\<lambda>d. d \<noteq> CHR 0x22) r
                 # parseQuotedList (trim_left_commas (tl (dropWhile (\<lambda>d. d \<noteq> CHR 0x22) r))))
            else
              (case cut_at (c # r) CHR '','' of (token, rest, found) \<Rightarrow>
                 (if trim_space token \<noteq> [] then [trim_space token] else []) @ parseQuotedList rest)))"
  by pat_completeness auto
termination
proof (relation "measure length", goal_cases)
  case (2 s c r)
  then show ?case
    using trim_space_length[of s] quoted_rest_length[of "\<lambda>d. d \<noteq> CHR 0x22" r] by simp
next
  case (3 s c r)
  then show ?case
    using trim_space_length[of s] by (auto dest!: cut_at_rest_length[OF sym])
qed simp

declare parseQuotedList.simps [simp del]

fun parse_lines :: "string list \<Rightarrow> string list" where
  "parse_lines [] = []"
| "parse_lines (l # ls) =
     (let line = trim_space l in
      if \<not> has_prefix line ''kargs'' then parse_lines ls
      else (case cut_at line CHR ''='' of (key, v, ok) \<Rightarrow>
        if \<not> ok then parse_lines ls
        else let v = trim_space (trim_suffix (trim_prefix (trim_space v) ''['') '']'') in
          if v = [] then [] else parseQuotedList v))"

definition parseTOML :: "string \<Rightarrow> string list" where
  "parseTOML content = parse_lines (split_on CHR 0x0A content)"

section \<open>The manager\<close>

definition kargs_defaultDir :: string where
  "kargs_defaultDir = ''/etc/bootc/kargs.d''"

definition kargs_filename :: string where
  "kargs_filename = ''50-hb-config.toml''"

definition kargs_path :: "string \<Rightarrow> string" where
  "kargs_path dir = path_join (or_default kargs_defaultDir dir) kargs_filename"

definition kargs_Write :: "unicode \<Rightarrow> string \<Rightarrow> string list \<Rightarrow> fs \<Rightarrow> error option \<times> fs" where
  "kargs_Write uc dir args s =
     (case MkdirAll (or_default kargs_defaultDir dir) s of
        (Some e, s) \<Rightarrow> (Some (Wrap ''create kargs dir'' e), s)
      | (None, s) \<Rightarrow>
          if args = [] then
            (case Remove (kargs_path dir) s of
               (Some e, s) \<Rightarrow> (if IsNotExist e then None else Some (Wrap ''remove kargs file'' e), s)
             | (None, s) \<Rightarrow> (None, s))
          else
            (case WriteFile (kargs_path dir) (renderTOML uc args) s of
               (Some e, s) \<Rightarrow> (Some (Wrap ''write kargs'' e), s)
             | (None, s) \<Rightarrow> (None, s)))"

definition kargs_Read :: "string \<Rightarrow> fs \<Rightarrow> (error + string list) \<times> fs" where
  "kargs_Read dir s =
     (case ReadFile (kargs_path dir) s of
        (Inl e, s) \<Rightarrow> (if IsNotExist e then Inr [] else Inl (Wrap ''read kargs'' e), s)
      | (Inr d, s) \<Rightarrow> (Inr (parseTOML d), s))"

section \<open>Reading back what was written\<close>

lemma quoted_step:
  assumes "\<forall>c\<in>set a. plain c"
  shows "parseQuotedList (CHR 0x22 # a @ CHR 0x22 # rest) =
    (if trim_space (CHR 0x22 # a @ CHR 0x22 # rest) = CHR 0x22 # a @ CHR 0x22 # rest
     then a # parseQuotedList (trim_left_commas rest)
     else parseQuotedList (CHR 0x22 # a @ CHR 0x22 # rest))"
proof -
  have "\<forall>c\<in>set a. c \<noteq> CHR 0x22" using assms by (auto simp: plain_def byte_def)
  then have "takeWhile (\<lambda>d. d \<noteq> CHR 0x22) (a @ CHR 0x22 # rest) = a"
    "dropWhile (\<lambda>d. d \<noteq> CHR 0x22) (a @ CHR 0x22 # rest) = CHR 0x22 # rest"
    by (simp_all add: takeWhile_append_stop dropWhile_append_stop)
  then show ?thesis by (simp add: parseQuotedList.simps[of "CHR 0x22 # a @ CHR 0x22 # rest"])
qed

lemma quote_graphic: "graphic CHR 0x22"
  by (simp add: graphic_def byte_def)

lemma parse_quoted_list:
  "\<forall>a\<in>set args. \<forall>c\<in>set a. plain c \<Longrightarrow>
   parseQuotedList (join_with '', '' (map (\<lambda>a. CHR 0x22 # a @ [CHR 0x22]) args)) = args"
proof (induction "'', ''" "map (\<lambda>a. CHR 0x22 # a @ [CHR 0x22]) args" arbitrary: args rule: join_with.induct)
  case 1
  then show ?case by (simp add: parseQuotedList.simps[of "[]"])
next
  case (2 w)
  then obtain a where a: "args = [a]" by (cases args) auto
  with 2 have "\<forall>c\<in>set a. plain c" by simp
  moreover have "trim_space (CHR 0x22 # a @ [CHR 0x22]) = CHR 0x22 # a @ [CHR 0x22]"
    by (rule trim_space_graphic) (simp_all add: quote_graphic)
  ultimately show ?case
    using quoted_step[of a "[]"] by (simp add: a trim_left_commas_def parseQuotedList.simps[of "[]"])
next
  case (3 w v ws)
  then obtain a b r where a: "args = a # b # r" by (cases args) (auto simp: Cons_eq_map_conv)
  let ?j = "join_with '', '' (map (\<lambda>a. CHR 0x22 # a @ [CHR 0x22]) (b # r))"
  have IH: "parseQuotedList ?j = b # r" using 3(1)[of "b # r"] 3(2,3) by (simp add: a)
  have last: "?j \<noteq> [] \<and> hd ?j = CHR 0x22 \<and> last ?j = CHR 0x22"
    by (induction r arbitrary: b) auto
  then have "trim_left_commas ('', '' @ ?j) = ?j"
    by (cases ?j) (simp_all add: trim_left_commas_def)
  moreover have "trim_space (CHR 0x22 # a @ CHR 0x22 # '', '' @ ?j) = CHR 0x22 # a @ CHR 0x22 # '', '' @ ?j"
    by (rule trim_space_graphic) (use last in \<open>simp_all add: quote_graphic\<close>)
  ultimately show ?case
    using quoted_step[of a "'', '' @ ?j"] IH 3(3) by (simp add: a)
qed

lemma parse_kargs_line:
  assumes j: "CHR 0x0A \<notin> set j" "j \<noteq> []" "graphic (hd j)" "graphic (last j)"
  shows "parseTOML (''kargs = ['' @ j @ '']'' @ [CHR 0x0A]) = parseQuotedList j"
proof -
  define val where "val = ''['' @ j @ '']''"
  define line where "line = ''kargs = '' @ val"
  have "CHR 0x0A \<notin> set line" using j(1) by (auto simp: line_def val_def)
  then have 1: "split_on CHR 0x0A (line @ [CHR 0x0A]) = [line, []]"
    by (simp add: split_on_append)
  have 2: "trim_space line = line"
    by (rule trim_space_graphic) (simp_all add: line_def val_def graphic_def byte_def)
  have 3: "cut_at line CHR ''='' = (''kargs '', '' '' @ val, True)"
    using cut_at_found[of "CHR ''=''" "''kargs ''" "'' '' @ val"] by (simp add: line_def)
  have "find (\<lambda>w. prefix w ('' '' @ val)) space_seqs = Some '' ''"
    by (simp add: space_seqs_def)
  then have "trim_left_space ('' '' @ val) = trim_left_space val"
    by (subst trim_left_space.simps) simp
  moreover have "trim_space val = val"
    by (rule trim_space_graphic) (simp_all add: val_def graphic_def byte_def)
  ultimately have 4: "trim_space ('' '' @ val) = val" by (simp add: trim_space_def)
  have 5: "trim_suffix (trim_prefix val ''['') '']'' = j"
    unfolding val_def by (simp only: trim_prefix_append trim_suffix_append)
  have 6: "trim_space j = j" using j by (intro trim_space_graphic)
  have 7: "has_prefix line ''kargs''" by (simp add: line_def has_prefix_iff)
  have "''kargs = ['' @ j @ '']'' @ [CHR 0x0A] = line @ [CHR 0x0A]" by (simp add: line_def val_def)
  then show ?thesis
    by (simp only: parseTOML_def 1 parse_lines.simps 2 3 4 5 6 7 Let_def not_True_eq_False if_False
        prod.case j(2))
qed

lemma parse_render_TOML:
  assumes "args \<noteq> []" "\<forall>a\<in>set args. \<forall>c\<in>set a. plain c"
  shows "parseTOML (renderTOML uc args) = args"
proof -
  define j where "j = join_with '', '' (map (\<lambda>a. CHR 0x22 # a @ [CHR 0x22]) args)"
  have q: "map (go_quote uc) args = map (\<lambda>a. CHR 0x22 # a @ [CHR 0x22]) args"
    using assms(2) by (simp add: go_quote_plain)
  obtain a r where ar: "args = a # r" using assms(1) by (cases args) auto
  have j: "j \<noteq> [] \<and> hd j = CHR 0x22 \<and> last j = CHR 0x22"
    unfolding ar j_def by (induction r arbitrary: a) auto
  have "set (join_with w xs) \<subseteq> set w \<union> (\<Union>x\<in>set xs. set x)" for w and xs :: "string list"
    by (induction w xs rule: join_with.induct) auto
  then have "c \<in> set j \<Longrightarrow> c \<in> set '', '' \<or> (\<exists>a\<in>set args. c = CHR 0x22 \<or> c \<in> set a)" for c
    unfolding j_def by fastforce
  moreover have "\<not> plain CHR 0x0A" by (simp add: plain_def byte_def)
  ultimately have "CHR 0x0A \<notin> set j" using assms(2) by fastforce
  then show ?thesis
    using parse_kargs_line[of j] j parse_quoted_list[OF assms(2)]
    by (simp add: renderTOML_def q quote_graphic flip: j_def)
qed

section \<open>The store of kernel arguments\<close>

definition kargs_owns :: "string \<Rightarrow> string \<Rightarrow> bool" where
  "kargs_owns d p \<longleftrightarrow> p = kargs_path d"

definition kargs_good :: "string \<Rightarrow> string list \<Rightarrow> bool" where
  "kargs_good d args \<longleftrightarrow> args \<noteq> [] \<and> list_all (list_all plain) args"

lemma kargs_write_frame: "agree (\<lambda>p. \<not> kargs_owns d p) s (snd (kargs_Write uc d args s))"
  unfolding kargs_Write_def
  by (auto simp: kargs_owns_def split: option.split prod.split
      intro: frameD agree_trans[OF frameD(3) frameD(1)] agree_trans[OF frameD(3) frameD(2)])

lemma kargs_write_calm: "calm s \<Longrightarrow> calm (snd (kargs_Write uc d args s))"
  unfolding kargs_Write_def by (auto split: option.split prod.split dest!: calmD)

lemma kargs_write_done:
  "kargs_Write uc d args s = (None, t) \<Longrightarrow> args \<noteq> [] \<Longrightarrow> file_at t (kargs_path d) = Some (renderTOML uc args)"
  by (auto simp: kargs_Write_def doneD split: option.splits prod.splits)

interpretation kargs_store:
  config_store "kargs_Write uc" kargs_Read kargs_owns kargs_good "(=)"
proof unfold_locales
  fix d x s t u
  assume g: "kargs_good d x" and w: "kargs_Write uc d x s = (None, t)"
    and u: "calm u" "agree (kargs_owns d) t u"
  from g have x: "x \<noteq> []" "\<forall>a\<in>set x. \<forall>c\<in>set a. plain c" by (auto simp: kargs_good_def list_all_iff)
  from u(2) kargs_write_done[OF w x(1)] have "file_at u (kargs_path d) = Some (renderTOML uc x)"
    by (simp add: agree_def kargs_owns_def)
  with u(1) x show "\<exists>y. kargs_Read d u = (Inr y, u) \<and> x = y"
    by (simp add: kargs_Read_def calm_ops parse_render_TOML)
qed (auto simp: kargs_write_frame kargs_write_calm kargs_Read_def split: prod.split sum.split dest: reads_tickD)



end
