(* ===== verification/Network.thy ===== *)
theory Network
  imports Config_Store Validate "HOL-Library.Word"
begin

text \<open>
  Package \<open>internal/system/network\<close>: one systemd-networkd file per interface. The rendering is line based, so
  what matters is that a validated field cannot start a line of its own, and that what is rendered is parsed
  back. The interface files are a \<open>config_store\<close> whose reading shows the written interfaces among those of
  other files with the same name pattern, which nothing removes.
\<close>

section \<open>Rendering and parsing\<close>

record iface =
  if_Name :: string
  if_DHCP :: bool
  if_Addresses :: "string list"
  if_Gateway :: string
  if_MTU :: "32 word"

definition no_iface :: iface where
  "no_iface = \<lparr>if_Name = [], if_DHCP = False, if_Addresses = [], if_Gateway = [], if_MTU = 0\<rparr>"

abbreviation nl :: string where
  "nl \<equiv> [CHR 0x0A]"

definition renderNetworkFile :: "iface \<Rightarrow> string" where
  "renderNetworkFile i =
     ''[Match]'' @ nl @ ''Name='' @ if_Name i @ nl @ nl @ ''[Network]'' @ nl
     @ (if if_DHCP i then ''DHCP=yes'' @ nl
        else ''DHCP=no'' @ nl @ concat (map (\<lambda>a. ''Address='' @ a @ nl) (if_Addresses i))
          @ (if if_Gateway i \<noteq> [] then ''Gateway='' @ if_Gateway i @ nl else []))
     @ (if if_MTU i > 0 then nl @ ''[Link]'' @ nl @ ''MTUBytes='' @ show_nat (unat (if_MTU i)) @ nl else [])"

text \<open>
  \<open>fmt.Sscanf(v, "%d", &mtu)\<close> on a trimmed value: the leading decimal digits; the variable keeps its value
  when there is none and when the number does not fit 32 bits.
\<close>

definition sscanf_u32 :: "string \<Rightarrow> 32 word \<Rightarrow> 32 word" where
  "sscanf_u32 v old =
     (let d = takeWhile is_digit v in
      if d = [] then old else if digits_val 0 d < 2 ^ 32 then word_of_nat (digits_val 0 d) else old)"

definition parse_field :: "string \<Rightarrow> iface \<Rightarrow> iface" where
  "parse_field line i =
     (case cut_at (trim_space line) CHR ''='' of (k, v, ok) \<Rightarrow>
        if \<not> ok then i
        else let v = trim_space v in
          if k = ''Name'' then i\<lparr>if_Name := v\<rparr>
          else if k = ''DHCP'' then i\<lparr>if_DHCP := (v = ''yes'')\<rparr>
          else if k = ''Address'' then i\<lparr>if_Addresses := if_Addresses i @ [v]\<rparr>
          else if k = ''Gateway'' then i\<lparr>if_Gateway := v\<rparr>
          else if k = ''MTUBytes'' then i\<lparr>if_MTU := sscanf_u32 v (if_MTU i)\<rparr>
          else i)"

definition parseNetworkFile :: "string \<Rightarrow> iface" where
  "parseNetworkFile content = fold parse_field (split_on CHR 0x0A content) no_iface"

section \<open>The manager\<close>

definition network_defaultDir :: string where
  "network_defaultDir = ''/etc/systemd/network''"

definition network_filename :: "string \<Rightarrow> string" where
  "network_filename name = ''10-hb-'' @ name @ ''.network''"

fun write_ifaces :: "string \<Rightarrow> nat \<Rightarrow> iface list \<Rightarrow> fs \<Rightarrow> error option \<times> fs" where
  "write_ifaces dir n [] s = (None, s)"
| "write_ifaces dir n (i # is) s =
     (if if_Name i = [] then (Some (MsgS ''interface '' (show_nat n) '': name required''), s)
      else let p = path_join dir (network_filename (if_Name i)) in
        (case WriteFile p (renderNetworkFile i) s of
           (Some e, s) \<Rightarrow> (Some (Wrap (''write '' @ p) e), s)
         | (None, s) \<Rightarrow> write_ifaces dir (Suc n) is s))"

definition network_Write :: "string \<Rightarrow> iface list \<Rightarrow> fs \<Rightarrow> error option \<times> fs" where
  "network_Write dir ifaces s =
     (let dir = or_default network_defaultDir dir in
      case MkdirAll dir s of
        (Some e, s) \<Rightarrow> (Some (Wrap ''create network dir'' e), s)
      | (None, s) \<Rightarrow> write_ifaces dir 0 ifaces s)"

fun read_ifaces :: "string \<Rightarrow> (string \<times> bool) list \<Rightarrow> fs \<Rightarrow> iface list \<times> fs" where
  "read_ifaces dir [] s = ([], s)"
| "read_ifaces dir ((f, b) # es) s =
     (if \<not> has_prefix f ''10-hb-'' \<or> \<not> has_suffix f ''.network'' then read_ifaces dir es s
      else (case ReadFile (path_join dir f) s of
          (Inl e, s) \<Rightarrow> read_ifaces dir es s
        | (Inr d, s) \<Rightarrow>
            (let i = parseNetworkFile d; (r, s) = read_ifaces dir es s in
             (if if_Name i \<noteq> [] then i # r else r, s))))"

definition network_Read :: "string \<Rightarrow> fs \<Rightarrow> (error + iface list) \<times> fs" where
  "network_Read dir s =
     (let dir = or_default network_defaultDir dir in
      case ReadDir dir s of
        (Inl e, s) \<Rightarrow> (if IsNotExist e then Inr [] else Inl (Wrap ''read network dir'' e), s)
      | (Inr es, s) \<Rightarrow> (case read_ifaces dir es s of (r, s) \<Rightarrow> (Inr r, s)))"

section \<open>Lines\<close>

text \<open>The lines a rendered interface is meant to have.\<close>

definition network_lines :: "iface \<Rightarrow> string list" where
  "network_lines i =
     [''[Match]'', ''Name='' @ if_Name i, [], ''[Network]'']
     @ (if if_DHCP i then [''DHCP=yes'']
        else ''DHCP=no'' # map (\<lambda>a. ''Address='' @ a) (if_Addresses i)
          @ (if if_Gateway i \<noteq> [] then [''Gateway='' @ if_Gateway i] else []))
     @ (if if_MTU i > 0 then [[], ''[Link]'', ''MTUBytes='' @ show_nat (unat (if_MTU i))] else [])"

definition one_line :: "string \<Rightarrow> bool" where
  "one_line s \<longleftrightarrow> CHR 0x0A \<notin> set s"

definition iface_lines_ok :: "iface \<Rightarrow> bool" where
  "iface_lines_ok i \<longleftrightarrow> one_line (if_Name i) \<and> list_all one_line (if_Addresses i) \<and> one_line (if_Gateway i)"

lemma split_lines:
  "\<forall>l\<in>set ls. one_line l \<Longrightarrow> split_on CHR 0x0A (concat (map (\<lambda>l. l @ nl) ls) @ t) = ls @ split_on CHR 0x0A t"
  by (induction ls) (simp_all add: one_line_def split_on_append)

lemma one_line_show [simp]: "one_line (show_nat n)"
proof -
  have "\<not> is_digit CHR 0x0A" by (simp add: is_digit_def byte_def)
  then show ?thesis unfolding one_line_def using show_nat_digits by blast
qed

lemma one_line_append [simp]: "one_line (a @ b) \<longleftrightarrow> one_line a \<and> one_line b"
  by (auto simp: one_line_def)

lemma one_line_Cons [simp]: "one_line (c # b) \<longleftrightarrow> c \<noteq> CHR 0x0A \<and> one_line b"
  by (auto simp: one_line_def)

lemma one_line_Nil [simp]: "one_line []"
  by (simp add: one_line_def)

lemma render_as_lines: "renderNetworkFile i = concat (map (\<lambda>l. l @ nl) (network_lines i))"
proof -
  have "concat (map (\<lambda>a. ''Address='' @ a @ nl) as) = concat (map (\<lambda>l. l @ nl) (map (\<lambda>a. ''Address='' @ a) as))"
    for as by (induction as) simp_all
  then show ?thesis by (simp add: renderNetworkFile_def network_lines_def del: append.simps)
qed

lemma network_lines_one_line: "iface_lines_ok i \<Longrightarrow> \<forall>l\<in>set (network_lines i). one_line l"
  by (auto simp: network_lines_def iface_lines_ok_def list_all_iff)

lemma rendered_lines:
  "iface_lines_ok i \<Longrightarrow> split_on CHR 0x0A (renderNetworkFile i) = network_lines i @ [[]]"
  using split_lines[OF network_lines_one_line, of i "[]"] by (simp add: render_as_lines)

section \<open>Parsing what was rendered\<close>

definition shown_iface :: "iface \<Rightarrow> iface" where
  "shown_iface i = (if if_DHCP i then i\<lparr>if_Addresses := [], if_Gateway := []\<rparr> else i)"

definition trimmed :: "string \<Rightarrow> bool" where
  "trimmed s \<longleftrightarrow> trim_space s = s"

definition iface_trimmed :: "iface \<Rightarrow> bool" where
  "iface_trimmed i \<longleftrightarrow> trimmed (if_Name i) \<and> list_all trimmed (if_Addresses i) \<and> trimmed (if_Gateway i)"

lemma key_value_line:
  assumes "trimmed f" "CHR ''='' \<notin> set k" "k \<noteq> []" "graphic (hd k)"
  shows "parse_field (k @ CHR ''='' # f) i =
    (if k = ''Name'' then i\<lparr>if_Name := f\<rparr>
     else if k = ''DHCP'' then i\<lparr>if_DHCP := (f = ''yes'')\<rparr>
     else if k = ''Address'' then i\<lparr>if_Addresses := if_Addresses i @ [f]\<rparr>
     else if k = ''Gateway'' then i\<lparr>if_Gateway := f\<rparr>
     else if k = ''MTUBytes'' then i\<lparr>if_MTU := sscanf_u32 f (if_MTU i)\<rparr>
     else i)"
proof -
  have "trim_right_space f = f" using assms(1) trimmed_fixed by (simp add: trimmed_def)
  moreover have "graphic CHR ''=''" by (simp add: graphic_def byte_def)
  ultimately have "trim_space (k @ CHR ''='' # f) = k @ CHR ''='' # f"
    using assms(3,4) by (intro trim_space_key_value)
  with assms show ?thesis by (simp add: parse_field_def cut_at_found trimmed_def Let_def)
qed

lemma other_line:
  assumes "CHR ''='' \<notin> set l" "trimmed l"
  shows "parse_field l i = i"
  using assms by (simp add: parse_field_def cut_at_missing trimmed_def)

lemma field_lines:
  "trimmed f \<Longrightarrow> parse_field (CHR ''N'' # CHR ''a'' # CHR ''m'' # CHR ''e'' # CHR ''='' # f) i = i\<lparr>if_Name := f\<rparr>"
  "trimmed f \<Longrightarrow> parse_field (''Address='' @ f) i = i\<lparr>if_Addresses := if_Addresses i @ [f]\<rparr>"
  "trimmed f \<Longrightarrow> parse_field (''Gateway='' @ f) i = i\<lparr>if_Gateway := f\<rparr>"
  "trimmed f \<Longrightarrow> parse_field (''MTUBytes='' @ f) i = i\<lparr>if_MTU := sscanf_u32 f (if_MTU i)\<rparr>"
  using key_value_line[of f "''Name''" i] key_value_line[of f "''Address''" i] key_value_line[of f "''Gateway''" i]
    key_value_line[of f "''MTUBytes''" i] by (simp_all add: graphic_def byte_def)

lemma fixed_lines:
  "parse_field ''[Match]'' i = i" "parse_field [] i = i" "parse_field ''[Network]'' i = i"
  "parse_field ''[Link]'' i = i" "parse_field ''DHCP=yes'' i = i\<lparr>if_DHCP := True\<rparr>"
  "parse_field ''DHCP=no'' i = i\<lparr>if_DHCP := False\<rparr>"
proof -
  have t: "trimmed ''[Match]''" "trimmed []" "trimmed ''[Network]''" "trimmed ''[Link]''" "trimmed ''yes''" "trimmed ''no''"
    by (simp_all add: trimmed_def trim_space_graphic graphic_def byte_def)
  show "parse_field ''[Match]'' i = i" "parse_field [] i = i" "parse_field ''[Network]'' i = i"
    "parse_field ''[Link]'' i = i"
    using t by (simp_all add: other_line)
  show "parse_field ''DHCP=yes'' i = i\<lparr>if_DHCP := True\<rparr>" "parse_field ''DHCP=no'' i = i\<lparr>if_DHCP := False\<rparr>"
    using key_value_line[of "''yes''" "''DHCP''" i] key_value_line[of "''no''" "''DHCP''" i] t
    by (simp_all add: graphic_def byte_def)
qed

lemma address_lines:
  "list_all trimmed as \<Longrightarrow>
   fold parse_field (map ((@) ''Address='') as) i = i\<lparr>if_Addresses := if_Addresses i @ as\<rparr>"
  by (induction as arbitrary: i) (simp_all add: field_lines(2)[simplified])

lemma trimmed_show_nat: "trimmed (show_nat n)"
proof -
  have "c \<in> set (show_nat n) \<Longrightarrow> graphic c" for c
    using show_nat_digits[of c n] by (simp add: is_digit_def graphic_def)
  then show ?thesis unfolding trimmed_def by (intro trim_space_graphic) simp_all
qed

lemma sscanf_show [simp]: "sscanf_u32 (show_nat (unat (w :: 32 word))) old = w"
proof -
  have "takeWhile is_digit (show_nat (unat w)) = show_nat (unat w)"
    using show_nat_digits by (simp add: takeWhile_eq_all_conv)
  note tk = this
  have "unat w < 2 ^ 32" using unsigned_less[of w] by simp
  then show ?thesis by (simp add: sscanf_u32_def tk digits_val_show Let_def del: takeWhile_eq_all_conv)
qed

lemma parse_render:
  assumes "iface_lines_ok i" "iface_trimmed i"
  shows "parseNetworkFile (renderNetworkFile i) = shown_iface i"
proof -
  obtain n b as g m where i: "i = \<lparr>if_Name = n, if_DHCP = b, if_Addresses = as, if_Gateway = g, if_MTU = m\<rparr>"
    by (cases i)
  have t: "trimmed n" "list_all trimmed as" "trimmed g"
    using assms(2) by (simp_all add: iface_trimmed_def i)
  note lines = fixed_lines[simplified] field_lines(1)[OF t(1)] field_lines(3)[OF t(3), simplified]
    field_lines(4)[OF trimmed_show_nat, simplified] address_lines[OF t(2)]
  have "parseNetworkFile (renderNetworkFile i) = fold parse_field (network_lines i) no_iface"
    by (simp add: parseNetworkFile_def rendered_lines[OF assms(1)] fixed_lines)
  also have "\<dots> = shown_iface i"
    by (simp add: i network_lines_def lines no_iface_def shown_iface_def word_gt_0)
  finally show ?thesis .
qed

section \<open>The store of interface files\<close>

definition hb_file :: "string \<Rightarrow> bool" where
  "hb_file f \<longleftrightarrow> has_prefix f ''10-hb-'' \<and> has_suffix f ''.network''"

definition network_path :: "string \<Rightarrow> string \<Rightarrow> string" where
  "network_path dir name = path_join (or_default network_defaultDir dir) (network_filename name)"

definition network_owns :: "string \<Rightarrow> string \<Rightarrow> bool" where
  "network_owns dir p \<longleftrightarrow> (\<exists>name. p = network_path dir name)"

definition clean_dir :: "string \<Rightarrow> bool" where
  "clean_dir dir \<longleftrightarrow> path_clean dir = dir"

definition iface_good :: "iface \<Rightarrow> bool" where
  "iface_good i \<longleftrightarrow> if_Name i \<noteq> [] \<and> CHR ''/'' \<notin> set (if_Name i) \<and> iface_lines_ok i \<and> iface_trimmed i"

definition network_good :: "string \<Rightarrow> iface list \<Rightarrow> bool" where
  "network_good dir is \<longleftrightarrow>
     clean_dir (or_default network_defaultDir dir) \<and> list_all iface_good is \<and> distinct (map if_Name is)"

definition network_shown :: "iface list \<Rightarrow> iface list \<Rightarrow> bool" where
  "network_shown is r \<longleftrightarrow> set (map shown_iface is) \<subseteq> set r"

lemma or_default_not_Nil [simp]: "d \<noteq> [] \<Longrightarrow> or_default d dir \<noteq> []"
  by (simp add: or_default_def)

lemma default_dir_not_Nil [simp]: "or_default network_defaultDir dir \<noteq> []"
  by (simp add: network_defaultDir_def or_default_def)

lemma filename_plain: "CHR ''/'' \<notin> set n \<Longrightarrow> plain_name (network_filename n)"
  by (simp add: plain_name_def network_filename_def)

lemma hb_filename [simp]: "hb_file (network_filename n)"
  by (simp add: hb_file_def network_filename_def has_prefix_iff has_suffix_iff)

lemma hb_plain: "hb_file f \<Longrightarrow> CHR ''/'' \<notin> set f \<Longrightarrow> plain_name f"
  by (auto simp: hb_file_def plain_name_def has_prefix_iff)

lemma write_ifaces_frame:
  "write_ifaces dir n is s = (e, t) \<Longrightarrow> (\<And>i. i \<in> set is \<Longrightarrow> \<not> P (path_join dir (network_filename (if_Name i))))
   \<Longrightarrow> agree P s t"
proof (induction dir n "is" s arbitrary: t rule: write_ifaces.induct)
  case (2 dir n i "is" s)
  show ?case
  proof (cases "WriteFile (path_join dir (network_filename (if_Name i))) (renderNetworkFile i) s")
    case (Pair r u)
    then have "agree P s u" using 2(3) by (intro frameD(1)) auto
    with 2 Pair show ?thesis
      by (cases r) (auto simp: Let_def split: if_splits intro: agree_trans)
  qed
qed simp

lemma write_ifaces_calm: "write_ifaces dir n is s = (e, t) \<Longrightarrow> calm s \<Longrightarrow> calm t"
  by (induction dir n "is" s arbitrary: t rule: write_ifaces.induct)
     (auto simp: Let_def split: if_splits prod.splits option.splits dest: calmD)

lemma write_ifaces_done:
  assumes "write_ifaces dir n is s = (None, t)" "list_all iface_good is" "distinct (map if_Name is)" "i \<in> set is"
  shows "file_at t (path_join dir (network_filename (if_Name i))) = Some (renderNetworkFile i)"
  using assms
proof (induction dir n "is" s rule: write_ifaces.induct)
  case (2 dir n j "is" s)
  let ?p = "\<lambda>i. path_join dir (network_filename (if_Name i))"
  from 2(2,3) obtain u where w: "WriteFile (?p j) (renderNetworkFile j) s = (None, u)"
    and rest: "write_ifaces dir (Suc n) is u = (None, t)"
    by (auto simp: Let_def iface_good_def split: prod.splits option.splits if_splits)
  show ?case
  proof (cases "i \<in> set is")
    case True
    with 2(1)[OF _ refl w[symmetric] refl rest] 2(3,4) show ?thesis by (auto simp: iface_good_def)
  next
    case False
    with 2(5) have ij: "i = j" by simp
    have "if_Name k \<noteq> if_Name j \<and> iface_good k" if "k \<in> set is" for k
      using that 2(3,4) by (simp add: list_all_iff) (metis image_eqI)
    note other = this
    have "?p k \<noteq> ?p j" if "k \<in> set is" for k
    proof -
      have "plain_name (network_filename (if_Name k))" "plain_name (network_filename (if_Name j))"
        using other[OF that] 2(3) by (simp_all add: iface_good_def filename_plain)
      then show ?thesis using other[OF that] by (simp add: network_filename_def)
    qed
    then have "agree (\<lambda>p. p = ?p j) u t" using write_ifaces_frame[OF rest, of "\<lambda>p. p = ?p j"] by blast
    with doneD[OF w] show ?thesis by (simp add: ij agree_def)
  qed
qed simp

lemma insert_name_set [simp]: "set (foldr insert_name xs ys) = set xs \<union> set ys"
proof -
  have "set (insert_name x ys) = insert x (set ys)" for x ys by (induction ys) auto
  then show ?thesis by (induction xs) auto
qed

lemma entry_of_file:
  assumes "file_at s p \<noteq> None" "path_dir p = d"
  shows "(path_base p, False) \<in> set (dir_entries s d)"
proof -
  have "p \<in> fst ` set (fs_files s)"
    using assms(1) by (auto simp: file_at_def map_of_eq_None_iff)
  with assms(2) show ?thesis by (force simp: dir_entries_def)
qed

lemma path_base_no_slash [simp]: "CHR ''/'' \<notin> set (path_base p)"
  by (auto simp: path_base_def dest: set_takeWhileD)

lemma entry_no_slash: "(f, b) \<in> set (dir_entries s d) \<Longrightarrow> CHR ''/'' \<notin> set f"
  by (auto simp: dir_entries_def)

text \<open>What the entry of a file name contributes to reading a directory.\<close>

definition entry_iface :: "string \<Rightarrow> fs \<Rightarrow> string \<Rightarrow> iface list" where
  "entry_iface dir s f =
     (if hb_file f then
        (case file_at s (path_join dir f) of
           None \<Rightarrow> []
         | Some d \<Rightarrow> if if_Name (parseNetworkFile d) \<noteq> [] then [parseNetworkFile d] else [])
      else [])"

lemma entry_iface_Nil:
  "\<not> hb_file f \<Longrightarrow> entry_iface dir s f = []"
  "file_at s (path_join dir f) = None \<Longrightarrow> entry_iface dir s f = []"
  by (simp_all add: entry_iface_def)

lemma read_ifaces_calm:
  "calm s \<Longrightarrow> read_ifaces dir es s = (concat (map (\<lambda>(f, b). entry_iface dir s f) es), s)"
proof (induction es)
  case (Cons e es)
  obtain f b where e: "e = (f, b)" by fastforce
  show ?case
  proof (cases "file_at s (path_join dir f)")
    case None
    then obtain x where "ReadFile (path_join dir f) s = (Inl x, s)" using Cons(2) by (simp add: ReadFile_def)
    with Cons None show ?thesis by (simp add: e entry_iface_def hb_file_def)
  next
    case (Some d)
    with Cons show ?thesis by (simp add: e entry_iface_def hb_file_def calm_ops Let_def)
  qed
qed simp

lemma network_read_calm:
  assumes "calm s" "is_dir s (or_default network_defaultDir dir)"
  shows "network_Read dir s =
    (Inr (concat (map (\<lambda>(f, b). entry_iface (or_default network_defaultDir dir) s f)
       (dir_entries s (or_default network_defaultDir dir)))), s)"
  using assms by (simp add: network_Read_def ReadDir_def read_ifaces_calm Let_def)

lemma network_write_parts:
  assumes "network_Write dir is s = (e, t)"
  obtains u r where "MkdirAll (or_default network_defaultDir dir) s = (r, u)"
    "(r \<noteq> None \<and> t = u \<and> e \<noteq> None)
     \<or> (r = None \<and> write_ifaces (or_default network_defaultDir dir) 0 is u = (e, t))"
  using assms by (auto simp: network_Write_def Let_def split: prod.splits option.splits)

lemma network_write_frame: "agree (\<lambda>p. \<not> network_owns dir p) s (snd (network_Write dir is s))"
proof -
  obtain e t where w: "network_Write dir is s = (e, t)" by fastforce
  then obtain u r where "MkdirAll (or_default network_defaultDir dir) s = (r, u)"
    and t: "t = u \<or> write_ifaces (or_default network_defaultDir dir) 0 is u = (e, t)"
    by (metis network_write_parts)
  then have "agree (\<lambda>p. \<not> network_owns dir p) s u" by (intro frameD(3))
  moreover have "agree (\<lambda>p. \<not> network_owns dir p) u t"
    using t write_ifaces_frame[of "or_default network_defaultDir dir" 0 "is" u e t "\<lambda>p. \<not> network_owns dir p"]
    by (auto simp: network_owns_def network_path_def)
  ultimately show ?thesis by (auto simp: w intro: agree_trans)
qed

lemma network_write_calm: "calm s \<Longrightarrow> calm (snd (network_Write dir is s))"
  by (cases "network_Write dir is s")
     (auto elim!: network_write_parts dest: calmD(3) intro: write_ifaces_calm)

lemma network_write_done:
  assumes "network_Write dir is s = (None, t)" "network_good dir is"
  shows "is_dir t (or_default network_defaultDir dir)"
    and "i \<in> set is \<Longrightarrow> file_at t (network_path dir (if_Name i)) = Some (renderNetworkFile i)"
proof -
  let ?d = "or_default network_defaultDir dir"
  obtain u where m: "MkdirAll ?d s = (None, u)" and w: "write_ifaces ?d 0 is u = (None, t)"
    using network_write_parts[OF assms(1)] by metis
  have "agree (\<lambda>p. False) u t" using write_ifaces_frame[OF w, of "\<lambda>p. False"] by simp
  moreover have "is_dir u ?d" using mkdir_done[of ?d s] m by simp
  ultimately show "is_dir t ?d" by (simp add: agree_def)
  show "i \<in> set is \<Longrightarrow> file_at t (network_path dir (if_Name i)) = Some (renderNetworkFile i)"
    using write_ifaces_done[OF w] assms(2) by (simp add: network_good_def network_path_def)
qed

lemma written_iface_read:
  assumes "iface_good i" "clean_dir (or_default network_defaultDir dir)"
    and "file_at s (network_path dir (if_Name i)) = Some (renderNetworkFile i)"
  shows "(network_filename (if_Name i), False) \<in> set (dir_entries s (or_default network_defaultDir dir))"
    and "entry_iface (or_default network_defaultDir dir) s (network_filename (if_Name i)) = [shown_iface i]"
proof -
  let ?f = "network_filename (if_Name i)" and ?d = "or_default network_defaultDir dir"
  have f: "plain_name ?f" using assms(1) by (simp add: iface_good_def filename_plain)
  have "path_dir (path_join ?d ?f) = ?d" "path_base (path_join ?d ?f) = ?f"
    using f assms(2) by (simp_all add: path_dir_of_join clean_dir_def)
  then show "(?f, False) \<in> set (dir_entries s ?d)"
    using entry_of_file[of s "path_join ?d ?f" ?d] assms(3) by (simp add: network_path_def)
  have "if_Name (shown_iface i) = if_Name i" by (simp add: shown_iface_def)
  then show "entry_iface ?d s ?f = [shown_iface i]"
    using assms by (simp add: entry_iface_def network_path_def parse_render iface_good_def)
qed

interpretation network_store:
  config_store network_Write network_Read network_owns network_good network_shown
proof unfold_locales
  fix d x s t u
  assume g: "network_good d x" and w: "network_Write d x s = (None, t)"
    and u: "calm u" "agree (network_owns d) t u"
  let ?d = "or_default network_defaultDir d"
  have dir: "is_dir u ?d" using network_write_done(1)[OF w g] u(2) by (simp add: agree_def)
  have "shown_iface i \<in> set (concat (map (\<lambda>(f, b). entry_iface ?d u f) (dir_entries u ?d)))"
    if i: "i \<in> set x" for i
  proof -
    have "network_owns d (network_path d (if_Name i))" by (auto simp: network_owns_def)
    with network_write_done(2)[OF w g i] u(2)
    have "file_at u (network_path d (if_Name i)) = Some (renderNetworkFile i)" by (simp add: agree_def)
    moreover have "iface_good i" "clean_dir ?d" using g i by (auto simp: network_good_def list_all_iff)
    ultimately show ?thesis using written_iface_read[of i d u] by force
  qed
  with network_read_calm[OF u(1) dir]
  show "\<exists>y. network_Read d u = (Inr y, u) \<and> network_shown x y"
    by (auto simp: network_shown_def)
next
  show "calm s \<Longrightarrow> snd (network_Read d s) = s" for s d
  proof (cases "is_dir s (or_default network_defaultDir d)")
    case False
    moreover assume "calm s"
    ultimately show ?thesis by (simp add: network_Read_def ReadDir_def Let_def)
  qed (simp add: network_read_calm)
qed (simp_all add: network_write_frame network_write_calm)

section \<open>Properties\<close>

text \<open>The interfaces of the files of a directory that are not among those of a list.\<close>

definition other_ifaces :: "string \<Rightarrow> iface list \<Rightarrow> fs \<Rightarrow> iface set" where
  "other_ifaces dir is s =
     {j. \<exists>f. plain_name f \<and> f \<notin> network_filename ` if_Name ` set is
        \<and> j \<in> set (entry_iface (or_default network_defaultDir dir) s f)}"

lemma other_files_kept:
  assumes "network_Write dir is s = (None, t)" "network_good dir is" "plain_name f"
    and "f \<notin> network_filename ` if_Name ` set is"
  shows "entry_iface (or_default network_defaultDir dir) t f = entry_iface (or_default network_defaultDir dir) s f"
proof -
  let ?d = "or_default network_defaultDir dir"
  obtain u where m: "MkdirAll ?d s = (None, u)" and w: "write_ifaces ?d 0 is u = (None, t)"
    using network_write_parts[OF assms(1)] by metis
  have "path_join ?d (network_filename (if_Name i)) \<noteq> path_join ?d f" if i: "i \<in> set is" for i
  proof -
    have "plain_name (network_filename (if_Name i))"
      using assms(2) i by (auto simp: network_good_def list_all_iff iface_good_def filename_plain)
    with assms(3,4) i show ?thesis by auto
  qed
  then have "agree (\<lambda>p. p = path_join ?d f) u t" 
    using write_ifaces_frame[OF w, of "\<lambda>p. p = path_join ?d f"] by blast
  moreover have "agree (\<lambda>p. p = path_join ?d f) s u" by (rule frameD(3)[OF m])
  ultimately have "file_at t (path_join ?d f) = file_at s (path_join ?d f)" by (simp add: agree_def)
  then show ?thesis by (simp add: entry_iface_def)
qed

text \<open>
  C23: after a successful write of interfaces with distinct names, reading returns exactly the written interfaces
  (those using DHCP without addresses and gateway) together with every interface another file of this name
  pattern already described: files of interfaces that are no longer configured are not removed.
\<close>

theorem network_roundtrip:
  assumes "calm s" "network_good dir is" "network_Write dir is s = (None, t)"
  shows "\<exists>r. network_Read dir t = (Inr r, t) \<and> set r = set (map shown_iface is) \<union> other_ifaces dir is s"
proof -
  let ?d = "or_default network_defaultDir dir"
  have calm: "calm t" using network_write_calm[OF assms(1), of dir "is"] assms(3) by simp
  define r where "r = concat (map (\<lambda>(f, b). entry_iface ?d t f) (dir_entries t ?d))"
  have "network_Read dir t = (Inr r, t)"
    using network_read_calm[OF calm network_write_done(1)[OF assms(3,2)]] by (simp add: r_def)
  moreover have good: "iface_good i" "clean_dir ?d" if "i \<in> set is" for i
    using assms(2) that by (auto simp: network_good_def list_all_iff)
  note written = written_iface_read[OF good network_write_done(2)[OF assms(3,2)]]
  have "set r \<subseteq> set (map shown_iface is) \<union> other_ifaces dir is s"
  proof
    fix j assume "j \<in> set r"
    then obtain f b where e: "(f, b) \<in> set (dir_entries t ?d)" "j \<in> set (entry_iface ?d t f)"
      by (auto simp: r_def)
    have "hb_file f"
    proof (rule ccontr)
      assume "\<not> hb_file f"
      with e(2) entry_iface_Nil(1)[of f ?d t] show False by simp
    qed
    then have plain: "plain_name f" using entry_no_slash[OF e(1)] by (rule hb_plain)
    show "j \<in> set (map shown_iface is) \<union> other_ifaces dir is s"
    proof (cases "f \<in> network_filename ` if_Name ` set is")
      case True
      then obtain i where i: "i \<in> set is" "f = network_filename (if_Name i)" by auto
      with written(2)[OF i(1) i(1) i(1)] e(2) show ?thesis by simp
    next
      case False
      with other_files_kept[OF assms(3,2) plain] e(2) plain show ?thesis
        unfolding other_ifaces_def by auto
    qed
  qed
  moreover have "set (map shown_iface is) \<subseteq> set r"
  proof
    fix j assume "j \<in> set (map shown_iface is)"
    then obtain i where i: "i \<in> set is" "j = shown_iface i" by auto
    from written[OF i(1) i(1) i(1)] i(2) show "j \<in> set r" by (force simp: r_def)
  qed
  moreover have "other_ifaces dir is s \<subseteq> set r"
  proof
    fix j assume "j \<in> other_ifaces dir is s"
    then obtain f where f: "plain_name f" "f \<notin> network_filename ` if_Name ` set is"
      and "j \<in> set (entry_iface ?d s f)"
      unfolding other_ifaces_def by blast
    then have f3: "j \<in> set (entry_iface ?d t f)"
      unfolding other_files_kept[OF assms(3,2) f] by blast
    have "file_at t (path_join ?d f) \<noteq> None"
    proof
      assume "file_at t (path_join ?d f) = None"
      with f3 entry_iface_Nil(2)[of t ?d f] show False by simp
    qed
    moreover have "path_dir (path_join ?d f) = ?d" "path_base (path_join ?d f) = f"
      using f(1) assms(2) by (simp_all add: path_dir_of_join network_good_def clean_dir_def)
    ultimately have "(f, False) \<in> set (dir_entries t ?d)" using entry_of_file by fastforce
    with f3 show "j \<in> set r" by (force simp: r_def)
  qed
  ultimately show ?thesis by blast
qed

text \<open>
  C22: the file rendered for an interface that passed the checks of \<open>Apply\<close> has exactly the intended lines: no
  name, address or gateway can start a line of its own, and the file lands in the network directory itself.
\<close>

theorem network_no_injection:
  assumes "InterfaceName (if_Name i) = None" "list_all (\<lambda>a. NetworkAddress a = None) (if_Addresses i)"
    and "NoNewlines ''gateway'' (if_Gateway i) = None"
  shows "split_on CHR 0x0A (renderNetworkFile i) = network_lines i @ [[]]
    \<and> network_path dir (if_Name i)
        = dir_prefix (or_default network_defaultDir dir) @ ''10-hb-'' @ if_Name i @ ''.network''"
proof
  have name: "\<forall>c\<in>set (if_Name i). graphic c \<and> c \<noteq> CHR ''/''"
    using assms(1) iface_char_graphic by (auto simp: interface_name_iff)
  have "\<not> graphic CHR 0x0A" by (simp add: graphic_def byte_def)
  with name have "one_line (if_Name i)" by (auto simp: one_line_def)
  moreover have "list_all one_line (if_Addresses i)"
    using assms(2) by (auto simp: list_all_iff NetworkAddress_def one_line_def contains_any_iff split: if_splits)
  moreover have "one_line (if_Gateway i)"
    using assms(3) by (auto simp: NoNewlines_def one_line_def contains_any_iff split: if_splits)
  ultimately show "split_on CHR 0x0A (renderNetworkFile i) = network_lines i @ [[]]"
    by (simp add: rendered_lines iface_lines_ok_def)
  from name have "plain_name (network_filename (if_Name i))" by (intro filename_plain) auto
  then show "network_path dir (if_Name i)
      = dir_prefix (or_default network_defaultDir dir) @ ''10-hb-'' @ if_Name i @ ''.network''"
    by (simp add: network_path_def path_join_plain) (simp add: network_filename_def)
qed

definition test_iface :: iface where
  "test_iface = \<lparr>if_Name = ''eth0'', if_DHCP = False, if_Addresses = [''10.0.0.2/24'', ''fd00::2/64''],
     if_Gateway = ''10.0.0.1'', if_MTU = 68\<rparr>"

lemma test_iface_good: "network_good [] [test_iface]"
proof -
  have "trimmed ''eth0''" "trimmed ''10.0.0.2/24''" "trimmed ''fd00::2/64''" "trimmed ''10.0.0.1''"
    by (simp_all add: trimmed_def trim_space_graphic graphic_def byte_def)
  moreover have "clean_dir (or_default network_defaultDir [])" by code_simp
  ultimately show ?thesis
    by (simp add: network_good_def iface_good_def iface_lines_ok_def iface_trimmed_def test_iface_def)
qed

theorem network_roundtrip_witness:
  "\<exists>t r. network_Write [] [test_iface] \<lparr>fs_files = [], fs_dirs = [], fs_now = 0, fs_faults = []\<rparr> = (None, t)
     \<and> network_Read [] t = (Inr r, t) \<and> test_iface \<in> set r"
proof -
  define s where "s = \<lparr>fs_files = [], fs_dirs = [], fs_now = 0, fs_faults = []\<rparr>"
  have "fst (network_Write [] [test_iface] s) = None" unfolding s_def by code_simp
  then obtain t where w: "network_Write [] [test_iface] s = (None, t)" by (metis prod.collapse)
  have "calm s" by (simp add: calm_def s_def)
  from network_roundtrip[OF this test_iface_good w]
  obtain r where "network_Read [] t = (Inr r, t)" "shown_iface test_iface \<in> set r" by auto
  moreover have "shown_iface test_iface = test_iface" by (simp add: shown_iface_def test_iface_def)
  ultimately show ?thesis using w unfolding s_def by (intro exI[of _ t] exI[of _ r]) simp
qed

theorem network_no_injection_witness:
  "split_on CHR 0x0A (renderNetworkFile test_iface) = network_lines test_iface @ [[]]"
proof -
  have "InterfaceName (if_Name test_iface) = None"
    "list_all (\<lambda>a. NetworkAddress a = None) (if_Addresses test_iface)"
    "NoNewlines ''gateway'' (if_Gateway test_iface) = None"
    by code_simp+
  then show ?thesis using network_no_injection by blast
qed

end
