(* ===== verification/Error_Text.thy ===== *)
theory Error_Text
  imports Go_Strings
begin

text \<open>
  The text of an error (\<open>err.Error()\<close>, the verbs \<open>%v\<close> and \<open>%s\<close>), for the places where the program puts an
  error into a message: health probes and configuration warnings.
\<close>

fun code_name :: "grpc_code \<Rightarrow> string" where
  "code_name InvalidArgument = ''InvalidArgument''"
| "code_name PermissionDenied = ''PermissionDenied''"
| "code_name Unauthenticated = ''Unauthenticated''"
| "code_name Internal = ''Internal''"
| "code_name Unimplemented = ''Unimplemented''"

fun error_text :: "unicode \<Rightarrow> error \<Rightarrow> string" where
  "error_text uc (Msg t) = t"
| "error_text uc (MsgQ t v u) = t @ go_quote uc v @ u"
| "error_text uc (MsgS t v u) = t @ v @ u"
| "error_text uc (Wrap t e) = t @ '': '' @ error_text uc e"
| "error_text uc (WrapOut t e out) = t @ '': '' @ error_text uc e @ '': '' @ out"
| "error_text uc (Status c t) = ''rpc error: code = '' @ code_name c @ '' desc = '' @ t"
| "error_text uc (StatusOf c t e) =
     ''rpc error: code = '' @ code_name c @ '' desc = '' @ t @ '': '' @ error_text uc e"
| "error_text uc (Ext t) = t"

end
