(* ===== verification/Machine_Config.thy ===== *)
theory Machine_Config
  imports Kargs Network Error_Text
begin

text \<open>
  Package \<open>internal/machineconfig\<close>: applying a machine configuration (host name, interfaces, kernel arguments, DNS
  servers) and reading it back. The order of checks and writes is the code's: the host name is written before
  the interfaces are checked, and the interfaces before the kernel arguments. The two managers are records of
  operations; \<open>file_applier\<close> is the applier of the agent, and \<open>disjoint_stores\<close> is interpreted on its two stores.
  The host name the kernel reports is a parameter.
\<close>

section \<open>Data\<close>

record machine_config =
  mc_Hostname :: string
  mc_KernelArgs :: "string list"
  mc_DNSServers :: "string list"
  mc_NTPServers :: "string list"
  mc_Interfaces :: "iface list"

definition no_config :: machine_config where
  "no_config = \<lparr>mc_Hostname = [], mc_KernelArgs = [], mc_DNSServers = [], mc_NTPServers = [], mc_Interfaces = []\<rparr>"

record apply_result =
  ar_Warnings :: "string list"
  ar_RebootRequired :: bool

record net_manager =
  nm_Write :: "string \<Rightarrow> iface list \<Rightarrow> fs \<Rightarrow> error option \<times> fs"
  nm_Read :: "string \<Rightarrow> fs \<Rightarrow> (error + iface list) \<times> fs"

record kargs_manager =
  km_Write :: "string \<Rightarrow> string list \<Rightarrow> fs \<Rightarrow> error option \<times> fs"
  km_Read :: "string \<Rightarrow> fs \<Rightarrow> (error + string list) \<times> fs"

record applier =
  ap_networkDir :: string
  ap_kargsDir :: string
  ap_network :: net_manager
  ap_kargs :: kargs_manager

definition NewApplier :: "string \<Rightarrow> string \<Rightarrow> net_manager \<Rightarrow> kargs_manager \<Rightarrow> applier" where
  "NewApplier nd kd net ka = \<lparr>ap_networkDir = nd, ap_kargsDir = kd, ap_network = net, ap_kargs = ka\<rparr>"

definition network_NewManager :: net_manager where
  "network_NewManager = \<lparr>nm_Write = network_Write, nm_Read = network_Read\<rparr>"

definition kargs_NewManager :: "unicode \<Rightarrow> kargs_manager" where
  "kargs_NewManager uc = \<lparr>km_Write = kargs_Write uc, km_Read = kargs_Read\<rparr>"

section \<open>Applying\<close>

definition hostname_path :: string where "hostname_path = ''/etc/hostname''"
definition resolv_path :: string where "resolv_path = ''/etc/resolv.conf''"

definition applyHostname :: "string \<Rightarrow> fs \<Rightarrow> error option \<times> fs" where
  "applyHostname name s = WriteFile hostname_path (name @ [CHR 0x0A]) s"

definition applyDNS :: "string list \<Rightarrow> fs \<Rightarrow> error option \<times> fs" where
  "applyDNS servers s =
     WriteFile resolv_path (concat (map (\<lambda>x. ''nameserver '' @ x @ [CHR 0x0A]) servers)) s"

fun stringSliceEqual :: "string list \<Rightarrow> string list \<Rightarrow> bool" where
  "stringSliceEqual [] [] = True"
| "stringSliceEqual (x # xs) (y # ys) = (x = y \<and> stringSliceEqual xs ys)"
| "stringSliceEqual _ _ = False"

lemma stringSliceEqual_iff [simp]: "stringSliceEqual xs ys \<longleftrightarrow> xs = ys"
  by (induction xs ys rule: stringSliceEqual.induct) auto

text \<open>\<open>if err := f(); err != nil { return nil, fmt.Errorf("t: %w", err) }\<close>\<close>

definition step :: "string \<Rightarrow> error option \<times> fs \<Rightarrow> (fs \<Rightarrow> (error + 'a) \<times> fs) \<Rightarrow> (error + 'a) \<times> fs" where
  "step t r k = (case r of (Some e, s) \<Rightarrow> (Inl (Wrap t e), s) | (None, s) \<Rightarrow> k s)"

definition check_iface :: "iface \<Rightarrow> error option" where
  "check_iface i =
     (case InterfaceName (if_Name i) of
        Some e \<Rightarrow> Some (Wrap ''invalid interface'' e)
      | None \<Rightarrow>
          (case first_error NetworkAddress (if_Addresses i) of
             Some e \<Rightarrow> Some (Wrap (''invalid address on '' @ if_Name i) e)
           | None \<Rightarrow>
               if if_Gateway i \<noteq> [] then
                 (case NoNewlines ''gateway'' (if_Gateway i) of
                    Some e \<Rightarrow> Some (Wrap (''invalid gateway on '' @ if_Name i) e)
                  | None \<Rightarrow> None)
               else None))"

definition apply_hostname_part :: "machine_config \<Rightarrow> (fs \<Rightarrow> (error + 'a) \<times> fs) \<Rightarrow> fs \<Rightarrow> (error + 'a) \<times> fs" where
  "apply_hostname_part cfg k s =
     (if mc_Hostname cfg \<noteq> [] then
        step ''invalid hostname'' (Hostname (mc_Hostname cfg), s) (\<lambda>s.
          step ''apply hostname'' (applyHostname (mc_Hostname cfg) s) k)
      else k s)"

definition apply_network_part ::
    "applier \<Rightarrow> machine_config \<Rightarrow> (fs \<Rightarrow> (error + 'a) \<times> fs) \<Rightarrow> fs \<Rightarrow> (error + 'a) \<times> fs" where
  "apply_network_part a cfg k s =
     (case first_error check_iface (mc_Interfaces cfg) of
        Some e \<Rightarrow> (Inl e, s)
      | None \<Rightarrow>
          if mc_Interfaces cfg \<noteq> [] then
            step ''apply network'' (nm_Write (ap_network a) (ap_networkDir a) (mc_Interfaces cfg) s) k
          else k s)"

definition apply_kargs_part ::
    "unicode \<Rightarrow> applier \<Rightarrow> machine_config \<Rightarrow> (bool \<Rightarrow> fs \<Rightarrow> (error + 'a) \<times> fs) \<Rightarrow> fs \<Rightarrow> (error + 'a) \<times> fs" where
  "apply_kargs_part uc a cfg k s =
     (case first_error (KernelArg uc) (mc_KernelArgs cfg) of
        Some e \<Rightarrow> (Inl (Wrap ''blocked kernel arg'' e), s)
      | None \<Rightarrow>
          if mc_KernelArgs cfg \<noteq> [] then
            (case km_Read (ap_kargs a) (ap_kargsDir a) s of (r, s) \<Rightarrow>
               let existing = (case r of Inl e \<Rightarrow> [] | Inr x \<Rightarrow> x) in
               step ''apply kargs'' (km_Write (ap_kargs a) (ap_kargsDir a) (mc_KernelArgs cfg) s)
                 (k (\<not> stringSliceEqual existing (mc_KernelArgs cfg))))
          else k False s)"

definition apply_dns_part ::
    "unicode \<Rightarrow> machine_config \<Rightarrow> bool \<Rightarrow> fs \<Rightarrow> (error + apply_result) \<times> fs" where
  "apply_dns_part uc cfg reboot s =
     (case first_error IPAddress (mc_DNSServers cfg) of
        Some e \<Rightarrow> (Inl (Wrap ''invalid DNS server'' e), s)
      | None \<Rightarrow>
          (let (w, s) = (if mc_DNSServers cfg \<noteq> [] then
                 (case applyDNS (mc_DNSServers cfg) s of
                    (Some e, s) \<Rightarrow> ([''dns: '' @ error_text uc e], s)
                  | (None, s) \<Rightarrow> ([], s))
               else ([], s));
               n = (if mc_NTPServers cfg \<noteq> [] then [''ntp: chrony config not yet implemented''] else []) in
           (Inr \<lparr>ar_Warnings = w @ n, ar_RebootRequired = reboot\<rparr>, s)))"

definition Apply :: "unicode \<Rightarrow> applier \<Rightarrow> machine_config \<Rightarrow> fs \<Rightarrow> (error + apply_result) \<times> fs" where
  "Apply uc a cfg =
     apply_hostname_part cfg (apply_network_part a cfg (apply_kargs_part uc a cfg (apply_dns_part uc cfg)))"

section \<open>Reading\<close>

fun dns_lines :: "string list \<Rightarrow> string list" where
  "dns_lines [] = []"
| "dns_lines (l # ls) =
     (let line = trim_space l in
      (if has_prefix line ''nameserver '' then [trim_prefix line ''nameserver ''] else []) @ dns_lines ls)"

definition readDNS :: "fs \<Rightarrow> (error + string list) \<times> fs" where
  "readDNS s =
     (case ReadFile resolv_path s of
        (Inl e, s) \<Rightarrow> (Inl e, s)
      | (Inr d, s) \<Rightarrow> (Inr (dns_lines (split_on CHR 0x0A d)), s))"

definition or_zero :: "error + 'a \<Rightarrow> 'a \<Rightarrow> 'a" where
  "or_zero r z = (case r of Inl e \<Rightarrow> z | Inr x \<Rightarrow> x)"

definition applier_Read :: "error + string \<Rightarrow> applier \<Rightarrow> fs \<Rightarrow> (error + machine_config) \<times> fs" where
  "applier_Read host a s =
     (case nm_Read (ap_network a) (ap_networkDir a) s of (ifs, s) \<Rightarrow>
      case km_Read (ap_kargs a) (ap_kargsDir a) s of (args, s) \<Rightarrow>
      case readDNS s of (dns, s) \<Rightarrow>
        (Inr (no_config\<lparr>mc_Hostname := or_zero host [], mc_Interfaces := or_zero ifs [],
           mc_KernelArgs := or_zero args [], mc_DNSServers := or_zero dns []\<rparr>), s))"

lemma accepted_address: "IPAddress x = None \<Longrightarrow> x \<noteq> [] \<and> (\<forall>c\<in>set x. graphic c)"
  using parse_ip_chars[of x] ip_char_graphic by (auto simp: IPAddress_def split: if_splits)

section \<open>The two stores are apart\<close>

lemma split_on_append_last:
  "c \<notin> set y \<Longrightarrow> split_on c (x @ y) = butlast (split_on c x) @ [last (split_on c x) @ y]"
proof (induction x)
  case (Cons z x)
  then show ?case
    by (cases "split_on c x") (auto split: list.splits)
qed (simp add: split_on_single)

lemma path_clean_last:
  assumes "plain_name (last (split_on CHR ''/'' p))" "p \<noteq> []"
  shows "\<exists>q. path_clean p = q @ last (split_on CHR ''/'' p)"
proof -
  let ?f = "last (split_on CHR ''/'' p)"
  have "split_on CHR ''/'' p = butlast (split_on CHR ''/'' p) @ [?f]" by simp
  then have E: "clean_elems r [] (split_on CHR ''/'' p) = clean_elems r [] (butlast (split_on CHR ''/'' p)) @ [?f]" for r
    using clean_elems_snoc[OF assms(1)] by metis
  have "?f \<noteq> []" using assms(1) by (simp add: plain_name_def)
  define J where "J r = join_with ''/'' (clean_elems r [] (split_on CHR ''/'' p))" for r
  have "\<exists>q. J r = q @ ?f" for r
    unfolding J_def E join_with_snoc by (cases "clean_elems r [] (butlast (split_on CHR ''/'' p)) = []") simp_all
  moreover have "path_clean p = (if has_prefix p ''/'' then CHR ''/'' # J True else if J False = [] then ''.'' else J False)"
    using assms(2) by (simp add: path_clean_def Let_def J_def)
  ultimately show ?thesis using \<open>?f \<noteq> []\<close> by (metis append_Cons append_is_Nil_conv)
qed

lemma network_owns_suffix:
  assumes "network_owns d p"
  shows "has_suffix p ''.network''"
proof -
  obtain name where p: "p = path_join (or_default network_defaultDir d) (network_filename name)"
    using assms by (auto simp: network_owns_def network_path_def)
  let ?q = "or_default network_defaultDir d @ ''/'' @ ''10-hb-'' @ name"
  have split: "split_on CHR ''/'' (?q @ ''.network'') =
      butlast (split_on CHR ''/'' ?q) @ [last (split_on CHR ''/'' ?q) @ ''.network'']"
    by (rule split_on_append_last) simp
  let ?l = "last (split_on CHR ''/'' ?q) @ ''.network''"
  have "CHR ''/'' \<notin> set (last (split_on CHR ''/'' ?q))"
    by (rule split_on_pieces[of _ _ ?q]) simp
  then have "plain_name ?l"
    by (cases "last (split_on CHR ''/'' ?q)") (auto simp: plain_name_def)
  then have "\<exists>r. path_clean (?q @ ''.network'') = r @ ?l"
    using path_clean_last[of "?q @ ''.network''"] unfolding split by simp
  then show ?thesis
    by (auto simp: p path_join_def network_filename_def has_suffix_iff)
qed

lemma kargs_owns_suffix: "kargs_owns d p \<Longrightarrow> has_suffix p ''50-hb-config.toml''"
proof -
  have "plain_name kargs_filename" by (simp add: plain_name_def kargs_filename_def)
  then show "kargs_owns d p \<Longrightarrow> ?thesis"
    by (auto simp: kargs_owns_def kargs_path_def path_join_plain has_suffix_iff kargs_filename_def)
qed

lemma suffix_facts:
  "\<not> (has_suffix p ''.network'' \<and> has_suffix p ''50-hb-config.toml'')"
  "\<not> has_suffix hostname_path ''.network''" "\<not> has_suffix hostname_path ''50-hb-config.toml''"
  "\<not> has_suffix resolv_path ''.network''" "\<not> has_suffix resolv_path ''50-hb-config.toml''"
proof -
  have l: "has_suffix q w \<Longrightarrow> w \<noteq> [] \<Longrightarrow> last q = last w" for q w by (auto simp: has_suffix_iff)
  show "\<not> (has_suffix p ''.network'' \<and> has_suffix p ''50-hb-config.toml'')"
    using l[of p "''.network''"] l[of p "''50-hb-config.toml''"] by auto
  show "\<not> has_suffix hostname_path ''.network''" "\<not> has_suffix hostname_path ''50-hb-config.toml''"
    "\<not> has_suffix resolv_path ''.network''" "\<not> has_suffix resolv_path ''50-hb-config.toml''"
    using l[of hostname_path "''.network''"] l[of hostname_path "''50-hb-config.toml''"]
      l[of resolv_path "''.network''"] l[of resolv_path "''50-hb-config.toml''"]
    by (auto simp: hostname_path_def resolv_path_def)
qed

interpretation machine_stores: disjoint_stores
  network_Write network_Read network_owns network_good network_shown
  "kargs_Write uc" kargs_Read kargs_owns kargs_good "(=)" for uc
proof unfold_locales
  show "\<not> (network_owns d p \<and> kargs_owns e p)" for d p e
    using network_owns_suffix kargs_owns_suffix suffix_facts(1) by blast
qed

section \<open>What the parts do\<close>

definition file_applier :: "unicode \<Rightarrow> string \<Rightarrow> string \<Rightarrow> applier" where
  "file_applier uc nd kd = NewApplier nd kd network_NewManager (kargs_NewManager uc)"

lemma file_applier_simps [simp]:
  "nm_Write (ap_network (file_applier uc nd kd)) = network_Write" "nm_Read (ap_network (file_applier uc nd kd)) = network_Read"
  "km_Write (ap_kargs (file_applier uc nd kd)) = kargs_Write uc" "km_Read (ap_kargs (file_applier uc nd kd)) = kargs_Read"
  "ap_networkDir (file_applier uc nd kd) = nd" "ap_kargsDir (file_applier uc nd kd) = kd"
  by (simp_all add: file_applier_def NewApplier_def network_NewManager_def kargs_NewManager_def)

lemma step_cases:
  assumes "step t r k = (x, u)"
  obtains e s where "r = (Some e, s)" "x = Inl (Wrap t e)" "u = s" | s where "r = (None, s)" "k s = (x, u)"
  using assms by (auto simp: step_def split: prod.splits option.splits)

lemma step_Inr: "step t r k = (Inr x, u) \<longleftrightarrow> (\<exists>s. r = (None, s) \<and> k s = (Inr x, u))"
  by (auto simp: step_def split: prod.splits option.splits)

text \<open>Each part leaves a set of files alone when its own write does and the rest does.\<close>

lemma kargs_read_frame: "kargs_Read d s = (r, t) \<Longrightarrow> t = tick s"
  by (auto simp: kargs_Read_def split: prod.splits sum.splits dest: reads_tickD)

lemma agree_tick [simp]: "agree P s (tick s)"
  by (simp add: agree_def)

lemma hostname_part_frame:
  assumes "apply_hostname_part cfg k s = (r, t)" "\<And>s r t. k s = (r, t) \<Longrightarrow> agree P s t" "\<not> P hostname_path"
  shows "agree P s t"
  using assms unfolding apply_hostname_part_def applyHostname_def
  by (auto split: if_splits elim!: step_cases intro: agree_trans frameD(1))

lemma network_part_frame:
  assumes "apply_network_part (file_applier uc nd kd) cfg k s = (r, t)" "\<And>s r t. k s = (r, t) \<Longrightarrow> agree P s t"
    and "first_error check_iface (mc_Interfaces cfg) \<noteq> None \<or> (\<forall>p. P p \<longrightarrow> \<not> network_owns nd p)"
  shows "agree P s t"
proof -
  have w: "agree P s u" if "network_Write nd ifs s = (e, u)" "first_error check_iface (mc_Interfaces cfg) = None" for ifs e s u
  proof (rule agree_mono)
    show "agree (\<lambda>p. \<not> network_owns nd p) s u" using network_write_frame[of nd s ifs] that by simp
    show "P p \<Longrightarrow> \<not> network_owns nd p" for p using assms(3) that(2) by blast
  qed
  show ?thesis using assms(1,2) unfolding apply_network_part_def
    by (auto split: if_splits option.splits elim!: step_cases intro: agree_trans w)
qed

lemma kargs_part_frame:
  assumes "apply_kargs_part uc (file_applier uc nd kd) cfg k s = (r, t)" "\<And>b s r t. k b s = (r, t) \<Longrightarrow> agree P s t"
    and "first_error (KernelArg uc) (mc_KernelArgs cfg) \<noteq> None \<or> (\<forall>p. P p \<longrightarrow> \<not> kargs_owns kd p)"
  shows "agree P s t"
proof -
  have w: "agree P s u" if "kargs_Write uc kd args (tick s) = (e, u)" "first_error (KernelArg uc) (mc_KernelArgs cfg) = None"
    for args e s u
  proof (rule agree_mono)
    have "agree (\<lambda>p. \<not> kargs_owns kd p) (tick s) u"
      using kargs_write_frame[of kd "tick s" uc args] that by simp
    then show "agree (\<lambda>p. \<not> kargs_owns kd p) s u" by (rule agree_trans[OF agree_tick])
    show "P p \<Longrightarrow> \<not> kargs_owns kd p" for p using assms(3) that(2) by blast
  qed
  show ?thesis
  proof (cases "first_error (KernelArg uc) (mc_KernelArgs cfg) = None \<and> mc_KernelArgs cfg \<noteq> []")
    case False
    with assms(1,2) show ?thesis unfolding apply_kargs_part_def by (auto split: if_splits option.splits)
  next
    case True
    obtain x where rd: "kargs_Read kd s = (x, tick s)"
      using kargs_read_frame[of kd s] by (cases "kargs_Read kd s") auto
    define b where "b = (\<not> stringSliceEqual (case x of Inl e \<Rightarrow> [] | Inr y \<Rightarrow> y) (mc_KernelArgs cfg))"
    have "step ''apply kargs'' (kargs_Write uc kd (mc_KernelArgs cfg) (tick s)) (k b) = (r, t)"
      using assms(1) True by (simp add: apply_kargs_part_def rd Let_def b_def)
    then show ?thesis
    proof (rule step_cases)
      fix e u assume "kargs_Write uc kd (mc_KernelArgs cfg) (tick s) = (Some e, u)" "t = u"
      then show ?thesis using w True by blast
    next
      fix u assume u: "kargs_Write uc kd (mc_KernelArgs cfg) (tick s) = (None, u)" "k b u = (r, t)"
      have "agree P s u" by (rule w[OF u(1)]) (rule conjunct1[OF True])
      then show ?thesis using assms(2)[OF u(2)] by (rule agree_trans)
    qed
  qed
qed

lemma dns_part_frame:
  "apply_dns_part uc cfg b s = (r, t) \<Longrightarrow> \<not> P resolv_path \<Longrightarrow> agree P s t"
  by (auto simp: apply_dns_part_def applyDNS_def Let_def split: option.splits prod.splits if_splits intro: frameD(1))

lemma apply_frame:
  assumes "Apply uc (file_applier uc nd kd) cfg s = (r, t)" "\<not> P hostname_path" "\<not> P resolv_path"
    and "first_error check_iface (mc_Interfaces cfg) \<noteq> None \<or> (\<forall>p. P p \<longrightarrow> \<not> network_owns nd p)"
    and "first_error (KernelArg uc) (mc_KernelArgs cfg) \<noteq> None \<or> (\<forall>p. P p \<longrightarrow> \<not> kargs_owns kd p)"
  shows "agree P s t"
proof (rule hostname_part_frame[OF assms(1)[unfolded Apply_def]])
  fix s r t assume n: "apply_network_part (file_applier uc nd kd) cfg
      (apply_kargs_part uc (file_applier uc nd kd) cfg (apply_dns_part uc cfg)) s = (r, t)"
  show "agree P s t"
  proof (rule network_part_frame[OF n])
    fix s r t assume k: "apply_kargs_part uc (file_applier uc nd kd) cfg (apply_dns_part uc cfg) s = (r, t)"
    show "agree P s t"
      by (rule kargs_part_frame[OF k]) (use assms in \<open>auto intro: dns_part_frame\<close>)
  qed (use assms in blast)
qed (use assms in blast)

section \<open>Properties\<close>


text \<open>The stages of a run.\<close>

lemma apply_stages:
  assumes "Apply uc (file_applier uc nd kd) cfg s = (r, t)" "first_error check_iface (mc_Interfaces cfg) = None"
    and "r = Inr res \<or> (\<exists>e. r = Inl (Wrap ''blocked kernel arg'' e))"
  obtains s1 s2 where
    "(mc_Hostname cfg = [] \<and> s1 = s)
      \<or> (mc_Hostname cfg \<noteq> [] \<and> Hostname (mc_Hostname cfg) = None \<and> applyHostname (mc_Hostname cfg) s = (None, s1))"
    "(mc_Interfaces cfg = [] \<and> s2 = s1) \<or> (mc_Interfaces cfg \<noteq> [] \<and> network_Write nd (mc_Interfaces cfg) s1 = (None, s2))"
    "apply_kargs_part uc (file_applier uc nd kd) cfg (apply_dns_part uc cfg) s2 = (r, t)"
proof -
  let ?n = "apply_network_part (file_applier uc nd kd) cfg
      (apply_kargs_part uc (file_applier uc nd kd) cfg (apply_dns_part uc cfg))"
  obtain s1 where h: "(mc_Hostname cfg = [] \<and> s1 = s)
      \<or> (mc_Hostname cfg \<noteq> [] \<and> Hostname (mc_Hostname cfg) = None \<and> applyHostname (mc_Hostname cfg) s = (None, s1))"
    and n: "?n s1 = (r, t)"
    using assms(1,3) unfolding Apply_def apply_hostname_part_def
    by (auto split: if_splits elim!: step_cases)
  from n obtain s2 where "(mc_Interfaces cfg = [] \<and> s2 = s1)
      \<or> (mc_Interfaces cfg \<noteq> [] \<and> network_Write nd (mc_Interfaces cfg) s1 = (None, s2))"
    "apply_kargs_part uc (file_applier uc nd kd) cfg (apply_dns_part uc cfg) s2 = (r, t)"
    using assms(2,3) unfolding apply_network_part_def
    by (auto split: if_splits elim!: step_cases)
  with h that show thesis by blast
qed


text \<open>Reading the name servers back.\<close>

lemma dns_lines_servers:
  assumes "\<forall>x\<in>set servers. IPAddress x = None"
  shows "dns_lines (split_on CHR 0x0A (concat (map (\<lambda>x. ''nameserver '' @ x @ [CHR 0x0A]) servers))) = servers"
proof -
  let ?l = "\<lambda>x. ''nameserver '' @ x"
  have ok: "x \<noteq> [] \<and> (\<forall>c\<in>set x. graphic c)" if "x \<in> set servers" for x
    using assms that accepted_address by blast
  have "\<not> graphic CHR 0x0A" by (simp add: graphic_def byte_def)
  with ok have "\<forall>l\<in>set (map ?l servers). one_line l" by (auto simp: one_line_def)
  from split_lines[OF this, of "[]"]
  have "split_on CHR 0x0A (concat (map (\<lambda>x. ''nameserver '' @ x @ [CHR 0x0A]) servers)) = map ?l servers @ [[]]"
    by (simp add: comp_def)
  moreover have "dns_lines (map ?l xs @ [[]]) = xs" if "\<forall>x\<in>set xs. x \<noteq> [] \<and> (\<forall>c\<in>set x. graphic c)" for xs
    using that
  proof (induction xs)
    case Nil
    show ?case by (simp add: has_prefix_iff)
  next
    case (Cons x xs)
    then have "graphic (last (?l x))" by simp
    then have "trim_space (?l x) = ?l x"
      by (intro trim_space_graphic) (simp_all add: graphic_def byte_def)
    note line = this
    have "map ?l (x # xs) @ [[]] = ?l x # (map ?l xs @ [[]])" by simp
    moreover have "dns_lines (map ?l xs @ [[]]) = xs" by (rule Cons.IH) (use Cons.prems in simp)
    ultimately show ?case
      by (simp only: dns_lines.simps Let_def has_prefix_append trim_prefix_append line if_True) simp
  qed
  ultimately show ?thesis using ok by metis
qed

text \<open>The result of the last two parts.\<close>

lemma kargs_part_result:
  assumes "calm s" "apply_kargs_part uc (file_applier uc nd kd) cfg (apply_dns_part uc cfg) s = (Inr res, t)"
  obtains u where "calm u" "calm t"
    "(mc_KernelArgs cfg = [] \<and> u = s) \<or> (mc_KernelArgs cfg \<noteq> [] \<and> kargs_Write uc kd (mc_KernelArgs cfg) s = (None, u))"
    "ar_RebootRequired res \<longleftrightarrow> mc_KernelArgs cfg \<noteq> [] \<and> or_zero (fst (kargs_Read kd s)) [] \<noteq> mc_KernelArgs cfg"
    "\<forall>x\<in>set (mc_DNSServers cfg). IPAddress x = None"
    "t = u \<or> (\<exists>e. applyDNS (mc_DNSServers cfg) u = (e, t))"
    "mc_DNSServers cfg \<noteq> [] \<longrightarrow> ar_Warnings res = [] \<longrightarrow> applyDNS (mc_DNSServers cfg) u = (None, t)"
proof -
  obtain b u where u: "(mc_KernelArgs cfg = [] \<and> u = s \<and> \<not> b)
      \<or> (mc_KernelArgs cfg \<noteq> [] \<and> kargs_Write uc kd (mc_KernelArgs cfg) s = (None, u)
          \<and> b = (or_zero (fst (kargs_Read kd s)) [] \<noteq> mc_KernelArgs cfg))"
    and d: "apply_dns_part uc cfg b u = (Inr res, t)"
  proof (cases "mc_KernelArgs cfg = []")
    case True
    with assms(2) that[of s False] show thesis by (simp add: apply_kargs_part_def)
  next
    case False
    obtain x where "kargs_Read kd s = (x, s)"
      using kargs_store.read_calm[OF assms(1), of kd] by (cases "kargs_Read kd s") auto
    with assms(2) False that show thesis
      by (auto simp: apply_kargs_part_def step_Inr or_zero_def Let_def split: option.splits)
  qed
  have "calm u" using u assms(1) kargs_write_calm[OF assms(1), of uc kd "mc_KernelArgs cfg"] by auto
  moreover have "t = u \<or> (\<exists>e. applyDNS (mc_DNSServers cfg) u = (e, t))"
    and w: "mc_DNSServers cfg \<noteq> [] \<longrightarrow> ar_Warnings res = [] \<longrightarrow> applyDNS (mc_DNSServers cfg) u = (None, t)"
    and "ar_RebootRequired res = b" "\<forall>x\<in>set (mc_DNSServers cfg). IPAddress x = None"
    using d by (auto simp: apply_dns_part_def Let_def first_error_None_iff split: option.splits prod.splits if_splits)
  moreover from this \<open>calm u\<close> have "calm t" by (auto simp: applyDNS_def dest: calmD(1))
  ultimately show thesis using u that by blast
qed

lemma apply_Inr_checks:
  "Apply uc a cfg s = (Inr res, t) \<Longrightarrow> first_error check_iface (mc_Interfaces cfg) = None"
  by (auto simp: Apply_def apply_hostname_part_def apply_network_part_def step_Inr
      split: if_splits option.splits)

text \<open>A successful run on a calm file system, up to the kernel arguments.\<close>

lemma apply_run:
  assumes "calm s" "Apply uc (file_applier uc nd kd) cfg s = (Inr res, t)"
  obtains s1 s2 u where "calm s1" "calm s2" "calm u" "calm t" "agree (\<lambda>p. p \<noteq> hostname_path) s s1"
    "(mc_Interfaces cfg = [] \<and> s2 = s1) \<or> (mc_Interfaces cfg \<noteq> [] \<and> network_Write nd (mc_Interfaces cfg) s1 = (None, s2))"
    "(mc_KernelArgs cfg = [] \<and> u = s2) \<or> (mc_KernelArgs cfg \<noteq> [] \<and> kargs_Write uc kd (mc_KernelArgs cfg) s2 = (None, u))"
    "ar_RebootRequired res \<longleftrightarrow> mc_KernelArgs cfg \<noteq> [] \<and> or_zero (fst (kargs_Read kd s2)) [] \<noteq> mc_KernelArgs cfg"
    "agree (\<lambda>p. p \<noteq> resolv_path) u t"
    "mc_DNSServers cfg \<noteq> [] \<longrightarrow> ar_Warnings res = [] \<longrightarrow> applyDNS (mc_DNSServers cfg) u = (None, t) \<and> (\<forall>x\<in>set (mc_DNSServers cfg). IPAddress x = None)"
proof -
  from apply_stages[OF assms(2) apply_Inr_checks[OF assms(2)]] obtain s1 s2 where
    h: "(mc_Hostname cfg = [] \<and> s1 = s)
      \<or> (mc_Hostname cfg \<noteq> [] \<and> Hostname (mc_Hostname cfg) = None \<and> applyHostname (mc_Hostname cfg) s = (None, s1))"
    and n: "(mc_Interfaces cfg = [] \<and> s2 = s1) \<or> (mc_Interfaces cfg \<noteq> [] \<and> network_Write nd (mc_Interfaces cfg) s1 = (None, s2))"
    and k: "apply_kargs_part uc (file_applier uc nd kd) cfg (apply_dns_part uc cfg) s2 = (Inr res, t)"
    by blast
  have "calm s1" "agree (\<lambda>p. p \<noteq> hostname_path) s s1"
    using h assms(1) by (auto simp: applyHostname_def dest: calmD(1) intro: frameD(1))
  moreover from this have c2: "calm s2" using n network_write_calm[of s1 nd "mc_Interfaces cfg"] by auto
  obtain u where u: "calm u" "calm t"
    "(mc_KernelArgs cfg = [] \<and> u = s2) \<or> (mc_KernelArgs cfg \<noteq> [] \<and> kargs_Write uc kd (mc_KernelArgs cfg) s2 = (None, u))"
    "ar_RebootRequired res \<longleftrightarrow> mc_KernelArgs cfg \<noteq> [] \<and> or_zero (fst (kargs_Read kd s2)) [] \<noteq> mc_KernelArgs cfg"
    "\<forall>x\<in>set (mc_DNSServers cfg). IPAddress x = None"
    "t = u \<or> (\<exists>e. applyDNS (mc_DNSServers cfg) u = (e, t))"
    "mc_DNSServers cfg \<noteq> [] \<longrightarrow> ar_Warnings res = [] \<longrightarrow> applyDNS (mc_DNSServers cfg) u = (None, t)"
    by (rule kargs_part_result[OF c2 k])
  moreover have "agree (\<lambda>p. p \<noteq> resolv_path) u t"
    using u(6) by (auto simp: applyDNS_def intro: frameD(1))
  ultimately show thesis using that c2 n by metis
qed

text \<open>
  without file faults, a configuration of well-formed interfaces, printable kernel arguments and name servers
  that is applied without a warning is read back: the same arguments and servers, and all its interfaces. The
  host name read is the one the kernel reports, not the one just written.
\<close>

theorem apply_read_back:
  assumes "calm s" "network_good nd (mc_Interfaces cfg)" "mc_Interfaces cfg \<noteq> []" "kargs_good kd (mc_KernelArgs cfg)"
    and "mc_DNSServers cfg \<noteq> []" "Apply uc (file_applier uc nd kd) cfg s = (Inr res, t)" "ar_Warnings res = []"
  shows "\<exists>ifs. applier_Read host (file_applier uc nd kd) t =
      (Inr (no_config\<lparr>mc_Hostname := or_zero host [], mc_Interfaces := ifs, mc_KernelArgs := mc_KernelArgs cfg,
         mc_DNSServers := mc_DNSServers cfg\<rparr>), t)
    \<and> network_shown (mc_Interfaces cfg) ifs"
proof -
  from assms(4) have args: "mc_KernelArgs cfg \<noteq> []" by (simp add: kargs_good_def)
  from apply_run[OF assms(1,6)] args assms(3,5,7) obtain s1 s2 u where
    calm: "calm s1" "calm s2" "calm t"
    and n: "network_Write nd (mc_Interfaces cfg) s1 = (None, s2)"
    and k: "kargs_Write uc kd (mc_KernelArgs cfg) s2 = (None, u)"
    and ut: "agree (\<lambda>p. p \<noteq> resolv_path) u t"
    and d: "applyDNS (mc_DNSServers cfg) u = (None, t)" "\<forall>x\<in>set (mc_DNSServers cfg). IPAddress x = None"
    by metis
  have "\<not> network_owns nd resolv_path" "\<not> kargs_owns kd resolv_path"
    using network_owns_suffix kargs_owns_suffix suffix_facts by blast+
  with ut have "agree (\<lambda>p. network_owns nd p \<or> kargs_owns kd p) u t" by (elim agree_mono) auto
  from machine_stores.both_read_back[OF calm(1) assms(2) n calm(2) agree_refl assms(4) k calm(3) this]
  obtain ifs where r: "network_Read nd t = (Inr ifs, t)" "network_shown (mc_Interfaces cfg) ifs"
    "kargs_Read kd t = (Inr (mc_KernelArgs cfg), t)"
    by blast
  have "file_at t resolv_path = Some (concat (map (\<lambda>x. ''nameserver '' @ x @ [CHR 0x0A]) (mc_DNSServers cfg)))"
    using d(1) doneD by (simp only: applyDNS_def)
  then have "readDNS t = (Inr (mc_DNSServers cfg), t)"
    using calm(3) dns_lines_servers[OF d(2)] unfolding readDNS_def by (simp only: calm_ops prod.case sum.case)
  with r show ?thesis by (auto simp: applier_Read_def or_zero_def)
qed

text \<open>
  a reboot is required only when the kernel arguments change: applying a configuration whose arguments are
  printable a second time requires none.
\<close>

theorem apply_reboot_once:
  assumes "calm s" "kargs_good kd (mc_KernelArgs cfg)" "Apply uc (file_applier uc nd kd) cfg s = (Inr res, t)"
    and "Apply uc (file_applier uc nd kd) cfg t = (Inr res', t')"
  shows "\<not> ar_RebootRequired res'"
proof -
  from assms(2) have args: "mc_KernelArgs cfg \<noteq> []" by (simp add: kargs_good_def)
  have no: "\<not> kargs_owns kd hostname_path" "\<not> kargs_owns kd resolv_path" "\<And>p. kargs_owns kd p \<Longrightarrow> \<not> network_owns nd p"
    using network_owns_suffix kargs_owns_suffix suffix_facts by blast+
  from apply_run[OF assms(1,3)] args obtain s2 u where
    calm: "calm s2" "calm t" and k: "kargs_Write uc kd (mc_KernelArgs cfg) s2 = (None, u)"
    and ut: "agree (\<lambda>p. p \<noteq> resolv_path) u t"
    by metis
  from apply_run[OF calm(2) assms(4)] obtain v1 v2 where
    v: "calm v2" "agree (\<lambda>p. p \<noteq> hostname_path) t v1"
    "(mc_Interfaces cfg = [] \<and> v2 = v1) \<or> (mc_Interfaces cfg \<noteq> [] \<and> network_Write nd (mc_Interfaces cfg) v1 = (None, v2))"
    "ar_RebootRequired res' \<longleftrightarrow> mc_KernelArgs cfg \<noteq> [] \<and> or_zero (fst (kargs_Read kd v2)) [] \<noteq> mc_KernelArgs cfg"
    by metis
  have vv: "agree (\<lambda>p. \<not> network_owns nd p) v1 v2"
    using v(3) network_write_frame[of nd v1 "mc_Interfaces cfg"] by auto
  have own: "kargs_owns kd p \<Longrightarrow> p \<noteq> hostname_path \<and> p \<noteq> resolv_path \<and> \<not> network_owns nd p" for p
    using no by blast
  have "agree (kargs_owns kd) u t" by (rule agree_mono[OF ut]) (use own in blast)
  moreover have "agree (kargs_owns kd) t v1" by (rule agree_mono[OF v(2)]) (use own in blast)
  moreover have "agree (kargs_owns kd) v1 v2" by (rule agree_mono[OF vv]) (use own in blast)
  ultimately have "agree (kargs_owns kd) u v2" by (metis agree_trans)
  from kargs_store.read_back[OF calm(1) assms(2) k v(1) this] v(4) show ?thesis by (simp add: or_zero_def)
qed

section \<open>A concrete node\<close>

definition test_uc :: unicode where
  "test_uc = \<lparr>uc_print = (\<lambda>n. True), uc_lower = (\<lambda>n. n)\<rparr>"

definition test_node :: fs where
  "test_node = \<lparr>fs_files = [], fs_dirs = [''/'', ''/etc''], fs_now = 0, fs_faults = []\<rparr>"

definition test_net_cfg :: machine_config where
  "test_net_cfg = \<lparr>mc_Hostname = [], mc_KernelArgs = [''quiet''], mc_DNSServers = [''::1''], mc_NTPServers = [],
     mc_Interfaces = [test_iface]\<rparr>"

definition test_args_cfg :: "string \<Rightarrow> string list \<Rightarrow> machine_config" where
  "test_args_cfg host args = no_config\<lparr>mc_Hostname := host, mc_KernelArgs := args\<rparr>"

lemma test_node_calm: "calm test_node"
  by (simp add: test_node_def calm_def)

lemma test_args_good: "kargs_good [] [''quiet'']"
  by code_simp

lemma test_args_checked: "KernelArg uc ''quiet'' = None" "KernelArg uc ''init=/x'' \<noteq> None"
proof -
  have "list_all ascii ''quiet''" "list_all ascii ''init=/x''" "map lower_char ''quiet'' = ''quiet''"
    "map lower_char ''init=/x'' = ''init=/x''"
    by code_simp+
  then have low: "to_lower uc ''quiet'' = ''quiet''" "to_lower uc ''init=/x'' = ''init=/x''"
    by (simp_all only: to_lower_all_ascii list_all_iff)
  have d: "list_all (\<lambda>d. \<not> prefix d ''quiet'') dangerousKargs" "List.member dangerousKargs ''init=''"
    by code_simp+
  then show "KernelArg uc ''quiet'' = None"
    by (simp add: kernel_arg_iff low list_all_iff has_prefix_def del: to_lower.simps(2))
  have "has_prefix ''init=/x'' ''init=''" by (simp add: has_prefix_iff)
  with d(2) show "KernelArg uc ''init=/x'' \<noteq> None"
    by (auto simp: kernel_arg_iff low simp del: to_lower.simps(2))
qed

lemma test_arg_ok: "first_error (KernelArg test_uc) [''quiet''] = None"
  by (simp add: test_args_checked)

lemma test_iface_checked: "first_error check_iface [test_iface] = None"
proof -
  have "InterfaceName (if_Name test_iface) = None" "first_error NetworkAddress (if_Addresses test_iface) = None"
    "NoNewlines ''gateway'' (if_Gateway test_iface) = None"
    by code_simp+
  then show ?thesis by (simp add: check_iface_def)
qed

lemma test_writes:
  "fst (network_Write [] [test_iface] test_node) = None"
  "fst (kargs_Write test_uc [] [''quiet''] (snd (network_Write [] [test_iface] test_node))) = None"
  "fst (applyDNS [''::1''] (snd (kargs_Write test_uc [] [''quiet''] (snd (network_Write [] [test_iface] test_node))))) = None"
  "fst (kargs_Write test_uc [] [''quiet''] test_node) = None"
  "fst (kargs_Write test_uc [] [''quiet''] (snd (kargs_Write test_uc [] [''quiet''] test_node))) = None"
  by code_simp+

text \<open>A configuration of kernel arguments only.\<close>

lemma apply_args_only:
  assumes "calm s" "fst (kargs_Write test_uc [] [''quiet''] s) = None"
  shows "\<exists>res. Apply test_uc (file_applier test_uc [] []) (test_args_cfg [] [''quiet'']) s
    = (Inr res, snd (kargs_Write test_uc [] [''quiet''] s))"
proof -
  obtain x where "kargs_Read [] s = (x, s)"
    using kargs_store.read_calm[OF assms(1), of "[]"] by (cases "kargs_Read [] s") auto
  moreover obtain t where "kargs_Write test_uc [] [''quiet''] s = (None, t)" using assms(2) by (metis prod.collapse)
  ultimately show ?thesis
    by (auto simp: Apply_def apply_hostname_part_def apply_network_part_def apply_kargs_part_def apply_dns_part_def
        test_args_cfg_def no_config_def test_arg_ok step_def Let_def simp del: first_error.simps(2))
qed

theorem apply_reboot_once_witness:
  "\<exists>res t res' t'. Apply test_uc (file_applier test_uc [] []) (test_args_cfg [] [''quiet'']) test_node = (Inr res, t)
     \<and> Apply test_uc (file_applier test_uc [] []) (test_args_cfg [] [''quiet'']) t = (Inr res', t')
     \<and> \<not> ar_RebootRequired res'"
proof -
  let ?t = "snd (kargs_Write test_uc [] [''quiet''] test_node)"
  obtain res where 1: "Apply test_uc (file_applier test_uc [] []) (test_args_cfg [] [''quiet'']) test_node = (Inr res, ?t)"
    using apply_args_only[OF test_node_calm test_writes(4)] by blast
  have "calm ?t" by (rule kargs_write_calm[OF test_node_calm])
  from apply_args_only[OF this test_writes(5)] obtain res' t' where
    2: "Apply test_uc (file_applier test_uc [] []) (test_args_cfg [] [''quiet'']) ?t = (Inr res', t')" by blast
  have "kargs_good [] (mc_KernelArgs (test_args_cfg [] [''quiet'']))"
    using test_args_good by (simp add: test_args_cfg_def)
  from apply_reboot_once[OF test_node_calm this 1 2] 1 2 show ?thesis by blast
qed



theorem apply_read_back_witness:
  "\<exists>res t ifs. Apply test_uc (file_applier test_uc [] []) test_net_cfg test_node = (Inr res, t)
     \<and> applier_Read (Inr ''n0'') (file_applier test_uc [] []) t =
         (Inr \<lparr>mc_Hostname = ''n0'', mc_KernelArgs = [''quiet''], mc_DNSServers = [''::1''], mc_NTPServers = [],
            mc_Interfaces = ifs\<rparr>, t) \<and> shown_iface test_iface \<in> set ifs"
proof -
  obtain s1 where 1: "network_Write [] [test_iface] test_node = (None, s1)" using test_writes(1) by (metis prod.collapse)
  obtain s2 where 2: "kargs_Write test_uc [] [''quiet''] s1 = (None, s2)"
    using test_writes(2) unfolding 1 snd_conv by (metis prod.collapse)
  obtain s3 where 3: "applyDNS [''::1''] s2 = (None, s3)"
    using test_writes(3) unfolding 1 2 snd_conv by (metis prod.collapse)
  have "calm s1" using network_write_calm[OF test_node_calm, of "[]" "[test_iface]"] by (simp add: 1)
  then obtain x where x: "kargs_Read [] s1 = (x, s1)"
    using kargs_store.read_calm[of s1 "[]"] by (cases "kargs_Read [] s1") auto
  have ip: "first_error IPAddress [''::1''] = None" by code_simp
  obtain b where a: "Apply test_uc (file_applier test_uc [] []) test_net_cfg test_node
      = (Inr \<lparr>ar_Warnings = [], ar_RebootRequired = b\<rparr>, s3)"
    by (simp add: Apply_def apply_hostname_part_def apply_network_part_def apply_kargs_part_def apply_dns_part_def
        test_net_cfg_def test_iface_checked test_arg_ok ip step_def 1 2 3 x Let_def del: first_error.simps(2))
  have "network_good [] (mc_Interfaces test_net_cfg)" "mc_Interfaces test_net_cfg \<noteq> []"
    "kargs_good [] (mc_KernelArgs test_net_cfg)" "mc_DNSServers test_net_cfg \<noteq> []"
    using test_iface_good test_args_good by (simp_all add: test_net_cfg_def)
  from apply_read_back[OF test_node_calm this a, of "Inr ''n0''"] a show ?thesis
    by (auto simp: test_net_cfg_def no_config_def or_zero_def network_shown_def)
qed

end
