(* ===== verification/Systemd.thy ===== *)
theory Systemd
  imports Error_Text "HOL-Library.Word"
begin

text \<open>
  Package \<open>internal/system/systemd\<close>. The D-Bus connection and the command \<open>systemctl reboot\<close> are the fields of a
  \<open>systemd_bus\<close> record acting on the world; a property is a variant, read with the conversions of
  \<open>propString\<close>, \<open>propUint32\<close> and \<open>propUint64\<close> at their machine widths. A job's result is the string systemd
  sends when the job ends.
\<close>

section \<open>The bus\<close>

datatype variant = VStr string | VU32 "32 word" | VU64 "64 word" | VInt "64 word" | VOther

type_synonym props = "string \<rightharpoonup> variant"

record unit_info =
  ui_name :: string
  ui_description :: string
  ui_load :: string
  ui_active :: string
  ui_sub :: string

record 'w systemd_bus =
  bus_connect :: "'w \<Rightarrow> error option \<times> 'w"
  bus_list :: "'w \<Rightarrow> (error + unit_info list) \<times> 'w"
  bus_props :: "string \<Rightarrow> 'w \<Rightarrow> (error + props) \<times> 'w"
  bus_type_props :: "string \<Rightarrow> string \<Rightarrow> 'w \<Rightarrow> (error + props) \<times> 'w"
  bus_start :: "string \<Rightarrow> string \<Rightarrow> 'w \<Rightarrow> (error + string) \<times> 'w"
  bus_stop :: "string \<Rightarrow> string \<Rightarrow> 'w \<Rightarrow> (error + string) \<times> 'w"
  bus_restart :: "string \<Rightarrow> string \<Rightarrow> 'w \<Rightarrow> (error + string) \<times> 'w"
  run_command :: "string list \<Rightarrow> 'w \<Rightarrow> (error option \<times> string) \<times> 'w"

section \<open>Properties of a unit\<close>

definition propString :: "props \<Rightarrow> string \<Rightarrow> string" where
  "propString ps k = (case ps k of Some (VStr s) \<Rightarrow> s | _ \<Rightarrow> [])"

definition propUint32 :: "props \<Rightarrow> string \<Rightarrow> 32 word" where
  "propUint32 ps k =
     (case ps k of Some (VU32 n) \<Rightarrow> n | Some (VU64 n) \<Rightarrow> ucast n | Some (VInt n) \<Rightarrow> ucast n | _ \<Rightarrow> 0)"

definition propUint64 :: "props \<Rightarrow> string \<Rightarrow> 64 word" where
  "propUint64 ps k =
     (case ps k of Some (VU64 n) \<Rightarrow> n | Some (VU32 n) \<Rightarrow> ucast n | Some (VInt n) \<Rightarrow> n | _ \<Rightarrow> 0)"

section \<open>The manager\<close>

record unit_status =
  us_Name :: string
  us_Description :: string
  us_LoadState :: string
  us_ActiveState :: string
  us_SubState :: string
  us_UnitFileState :: string
  us_MainPID :: "32 word"
  us_MemoryBytes :: "64 word"
  us_ActiveEnterTimestamp :: string

definition status_of_info :: "unit_info \<Rightarrow> unit_status" where
  "status_of_info u =
     \<lparr>us_Name = ui_name u, us_Description = ui_description u, us_LoadState = ui_load u, us_ActiveState = ui_active u,
      us_SubState = ui_sub u, us_UnitFileState = [], us_MainPID = 0, us_MemoryBytes = 0, us_ActiveEnterTimestamp = []\<rparr>"

definition ListUnits :: "'w systemd_bus \<Rightarrow> 'w \<Rightarrow> (error + unit_status list) \<times> 'w" where
  "ListUnits bus w =
     (case bus_connect bus w of
        (Some e, w) \<Rightarrow> (Inl (Wrap ''connect to systemd'' e), w)
      | (None, w) \<Rightarrow>
          (case bus_list bus w of
             (Inl e, w) \<Rightarrow> (Inl (Wrap ''list units'' e), w)
           | (Inr us, w) \<Rightarrow> (Inr (map status_of_info us), w)))"

definition UnitStatus :: "'w systemd_bus \<Rightarrow> string \<Rightarrow> 'w \<Rightarrow> (error + unit_status) \<times> 'w" where
  "UnitStatus bus name w =
     (case bus_connect bus w of
        (Some e, w) \<Rightarrow> (Inl (Wrap ''connect to systemd'' e), w)
      | (None, w) \<Rightarrow>
          (case bus_props bus name w of
             (Inl e, w) \<Rightarrow> (Inl (Wrap (''get unit properties '' @ name) e), w)
           | (Inr ps, w) \<Rightarrow>
               (let st = \<lparr>us_Name = name, us_Description = propString ps ''Description'',
                     us_LoadState = propString ps ''LoadState'', us_ActiveState = propString ps ''ActiveState'',
                     us_SubState = propString ps ''SubState'', us_UnitFileState = propString ps ''UnitFileState'',
                     us_MainPID = 0, us_MemoryBytes = 0,
                     us_ActiveEnterTimestamp =
                       (case ps ''ActiveEnterTimestamp'' of
                          Some (VU64 ts) \<Rightarrow> if ts > 0 then show_nat (unat ts) else []
                        | _ \<Rightarrow> [])\<rparr> in
                (case bus_type_props bus name ''Service'' w of
                   (Inl e, w) \<Rightarrow> (Inr st, w)
                 | (Inr sv, w) \<Rightarrow>
                     (Inr (st\<lparr>us_MainPID := propUint32 sv ''MainPID'', us_MemoryBytes := propUint64 sv ''MemoryCurrent''\<rparr>), w)))))"

text \<open>The three unit operations differ in the bus call and the verb of their errors.\<close>

definition unit_job ::
    "'w systemd_bus \<Rightarrow> string \<Rightarrow> (string \<Rightarrow> string \<Rightarrow> 'w \<Rightarrow> (error + string) \<times> 'w) \<Rightarrow> string \<Rightarrow> 'w \<Rightarrow> error option \<times> 'w"
where
  "unit_job bus verb call name w =
     (case bus_connect bus w of
        (Some e, w) \<Rightarrow> (Some (Wrap ''connect to systemd'' e), w)
      | (None, w) \<Rightarrow>
          (case call name ''replace'' w of
             (Inl e, w) \<Rightarrow> (Some (Wrap (verb @ '' '' @ name) e), w)
           | (Inr result, w) \<Rightarrow>
               (if result \<noteq> ''done'' then Some (Msg (verb @ '' '' @ name @ '': '' @ result)) else None, w)))"

definition StartUnit :: "'w systemd_bus \<Rightarrow> string \<Rightarrow> 'w \<Rightarrow> error option \<times> 'w" where
  "StartUnit bus = unit_job bus ''start'' (bus_start bus)"

definition StopUnit :: "'w systemd_bus \<Rightarrow> string \<Rightarrow> 'w \<Rightarrow> error option \<times> 'w" where
  "StopUnit bus = unit_job bus ''stop'' (bus_stop bus)"

definition RestartUnit :: "'w systemd_bus \<Rightarrow> string \<Rightarrow> 'w \<Rightarrow> error option \<times> 'w" where
  "RestartUnit bus = unit_job bus ''restart'' (bus_restart bus)"

definition systemd_Reboot :: "'w systemd_bus \<Rightarrow> 'w \<Rightarrow> error option \<times> 'w" where
  "systemd_Reboot bus w =
     (case run_command bus [''systemctl'', ''reboot''] w of
        ((Some e, out), w) \<Rightarrow> (Some (WrapOut ''systemctl reboot'' e out), w)
      | ((None, out), w) \<Rightarrow> (None, w))"

text \<open>The Go interface \<open>systemd.Manager\<close> and its implementation on the bus.\<close>

record 'w systemd_manager =
  sm_list :: "'w \<Rightarrow> (error + unit_status list) \<times> 'w"
  sm_status :: "string \<Rightarrow> 'w \<Rightarrow> (error + unit_status) \<times> 'w"
  sm_start :: "string \<Rightarrow> 'w \<Rightarrow> error option \<times> 'w"
  sm_stop :: "string \<Rightarrow> 'w \<Rightarrow> error option \<times> 'w"
  sm_restart :: "string \<Rightarrow> 'w \<Rightarrow> error option \<times> 'w"
  sm_reboot :: "'w \<Rightarrow> error option \<times> 'w"

definition DBusManager :: "'w systemd_bus \<Rightarrow> 'w systemd_manager" where
  "DBusManager bus = \<lparr>sm_list = ListUnits bus, sm_status = UnitStatus bus, sm_start = StartUnit bus,
     sm_stop = StopUnit bus, sm_restart = RestartUnit bus, sm_reboot = systemd_Reboot bus\<rparr>"

section \<open>Facts\<close>

lemma unit_job_None_iff:
  "unit_job bus verb call name w = (None, w') \<longleftrightarrow>
     (\<exists>u. bus_connect bus w = (None, u) \<and> call name ''replace'' u = (Inr ''done'', w'))"
  by (auto simp: unit_job_def split: prod.splits option.splits sum.splits if_splits)

text \<open>A 64-bit process id is cut to 32 bits, a 32-bit memory size is widened.\<close>

lemma prop_widths:
  "ps k = Some (VU64 n) \<Longrightarrow> unat (propUint32 ps k) = unat n mod 2 ^ 32"
  "ps k = Some (VU32 m) \<Longrightarrow> unat (propUint64 ps k) = unat m"
  "ps k = Some (VU64 n) \<Longrightarrow> propUint64 ps k = n"
proof -
  show "ps k = Some (VU64 n) \<Longrightarrow> unat (propUint32 ps k) = unat n mod 2 ^ 32"
    by (simp add: propUint32_def unsigned_ucast_eq unsigned_take_bit_eq take_bit_eq_mod)
  have "unat m < 2 ^ 64" using unsigned_less[of m, where 'a = nat] by simp
  then show "ps k = Some (VU32 m) \<Longrightarrow> unat (propUint64 ps k) = unat m"
    by (simp add: propUint64_def unsigned_ucast_eq take_bit_eq_mod)
qed (simp add: propUint64_def)

text \<open>
  starting, stopping or restarting a unit succeeds exactly when the bus accepts the job and reports that it
  was done; every other job result is an error carrying the verb, the unit and the result.
\<close>

theorem unit_operation_iff:
  "(StartUnit bus name w = (None, w') \<longleftrightarrow>
     (\<exists>u. bus_connect bus w = (None, u) \<and> bus_start bus name ''replace'' u = (Inr ''done'', w')))
   \<and> (StopUnit bus name w = (None, w') \<longleftrightarrow>
     (\<exists>u. bus_connect bus w = (None, u) \<and> bus_stop bus name ''replace'' u = (Inr ''done'', w')))
   \<and> (RestartUnit bus name w = (None, w') \<longleftrightarrow>
     (\<exists>u. bus_connect bus w = (None, u) \<and> bus_restart bus name ''replace'' u = (Inr ''done'', w')))"
  by (simp add: StartUnit_def StopUnit_def RestartUnit_def unit_job_None_iff)

end
