(* ===== verification/Health.thy ===== *)
theory Health
  imports Systemd
begin

text \<open>
  Package \<open>internal/health\<close>: probes, the aggregator that runs them in order of registration, and the probes of
  systemd units. A status is the Go integer; a probe acts on the world. \<open>health_spec\<close> says what the fold over
  the probes amounts to.
\<close>

definition Unknown :: int where "Unknown = 0"
definition Healthy :: int where "Healthy = 1"
definition Unhealthy :: int where "Unhealthy = 2"
definition Degraded :: int where "Degraded = 3"

lemmas status_values = Unknown_def Healthy_def Unhealthy_def Degraded_def

record 'w probe =
  pr_Name :: string
  pr_Critical :: bool
  pr_Check :: "'w \<Rightarrow> (int \<times> string) \<times> 'w"

record check_result =
  cr_Name :: string
  cr_Status :: int
  cr_Message :: string
  cr_Critical :: bool

record health_result =
  hr_Status :: int
  hr_Checks :: "check_result list"

section \<open>The aggregator\<close>

definition register_probes :: "'w probe list \<Rightarrow> 'w probe list \<Rightarrow> 'w probe list" where
  "register_probes ps agg = agg @ ps"

definition next_status :: "int \<Rightarrow> bool \<Rightarrow> int \<Rightarrow> int" where
  "next_status status critical overall =
     (if status = Unhealthy \<and> critical then Unhealthy
      else if status \<noteq> Healthy \<and> overall = Healthy then Degraded
      else overall)"

fun run_probes :: "'w probe list \<Rightarrow> health_result \<Rightarrow> 'w \<Rightarrow> health_result \<times> 'w" where
  "run_probes [] r w = (r, w)"
| "run_probes (p # ps) r w =
     (case pr_Check p w of
        ((status, msg), w) \<Rightarrow>
          run_probes ps
            \<lparr>hr_Status = next_status status (pr_Critical p) (hr_Status r),
             hr_Checks = hr_Checks r @ [\<lparr>cr_Name = pr_Name p, cr_Status = status, cr_Message = msg,
               cr_Critical = pr_Critical p\<rparr>]\<rparr> w)"

definition aggregator_Check :: "'w probe list \<Rightarrow> 'w \<Rightarrow> (error + health_result) \<times> 'w" where
  "aggregator_Check probes w =
     (case run_probes probes \<lparr>hr_Status = Healthy, hr_Checks = []\<rparr> w of (r, w) \<Rightarrow> (Inr r, w))"

section \<open>Probes of systemd units\<close>

definition get_string :: "props \<Rightarrow> string \<Rightarrow> string" where
  "get_string ps k = (case ps k of Some (VStr s) \<Rightarrow> s | _ \<Rightarrow> [])"

definition unit_probe :: "unicode \<Rightarrow> 'w systemd_bus \<Rightarrow> string \<Rightarrow> 'w \<Rightarrow> (int \<times> string) \<times> 'w" where
  "unit_probe uc bus unit w =
     (case bus_connect bus w of
        (Some e, w) \<Rightarrow> ((Unhealthy, ''dbus: '' @ error_text uc e), w)
      | (None, w) \<Rightarrow>
          (case bus_props bus unit w of
             (Inl e, w) \<Rightarrow> ((Unhealthy, ''query: '' @ error_text uc e), w)
           | (Inr ps, w) \<Rightarrow>
               (let active = get_string ps ''ActiveState''; sub = get_string ps ''SubState'' in
                (if active = ''active'' \<and> (sub = ''running'' \<or> sub = ''exited'') then (Healthy, sub)
                 else (Unhealthy, active @ ''/'' @ sub), w))))"

definition SystemdUnitProbes :: "unicode \<Rightarrow> 'w systemd_bus \<Rightarrow> string list \<Rightarrow> 'w probe list" where
  "SystemdUnitProbes uc bus units =
     map (\<lambda>u. \<lparr>pr_Name = ''services:'' @ u, pr_Critical = True, pr_Check = unit_probe uc bus u\<rparr>) units"

section \<open>Properties\<close>

text \<open>
  The overall status the checks are meant to have: the worst that one of them contributes, where only a critical check can
  make the node unhealthy. The severities are linearly ordered, so that the worst of several is their maximum.
\<close>

datatype severity = Sound | Impaired | Failed

fun rank :: "severity \<Rightarrow> nat" where
  "rank Sound = 0"
| "rank Impaired = 1"
| "rank Failed = 2"

lemma rank_inject [simp]: "rank a = rank b \<longleftrightarrow> a = b"
  by (cases a; cases b) simp_all

instantiation severity :: linorder
begin

definition less_eq_severity :: "severity \<Rightarrow> severity \<Rightarrow> bool" where
  "a \<le> b \<longleftrightarrow> rank a \<le> rank b"

definition less_severity :: "severity \<Rightarrow> severity \<Rightarrow> bool" where
  "a < b \<longleftrightarrow> rank a < rank b"

instance
proof
  fix a b :: severity
  show "a \<le> b \<Longrightarrow> b \<le> a \<Longrightarrow> a = b" by (metis antisym less_eq_severity_def rank_inject)
qed (auto simp: less_eq_severity_def less_severity_def)

end

definition contribution :: "check_result \<Rightarrow> severity" where
  "contribution c =
     (if cr_Critical c \<and> cr_Status c = Unhealthy then Failed else if cr_Status c = Healthy then Sound else Impaired)"

fun status_of :: "severity \<Rightarrow> int" where
  "status_of Sound = Healthy"
| "status_of Impaired = Degraded"
| "status_of Failed = Unhealthy"

definition worst :: "check_result list \<Rightarrow> severity" where
  "worst cs = fold max (map contribution cs) Sound"

definition health_spec :: "check_result list \<Rightarrow> int" where
  "health_spec cs = status_of (worst cs)"

lemma max_severity [simp]:
  "max Sound a = a" "max a Sound = a" "max Failed a = Failed" "max a Failed = Failed" "max Impaired Impaired = Impaired"
  by (cases a; simp add: max_def less_eq_severity_def)+

lemma worst_snoc [simp]: "worst (cs @ [c]) = max (contribution c) (worst cs)" "worst [] = Sound"
  by (simp_all add: worst_def)

text \<open>The order of the checks does not matter, and a status is the overall one exactly in these cases.\<close>

lemma worst_set: "worst cs = Max (insert Sound (contribution ` set cs))"
  unfolding worst_def Max.set_eq_fold[symmetric] by simp

lemma health_spec_iff:
  "health_spec cs = Unhealthy \<longleftrightarrow> (\<exists>c\<in>set cs. cr_Critical c \<and> cr_Status c = Unhealthy)"
  "health_spec cs = Healthy \<longleftrightarrow> (\<forall>c\<in>set cs. cr_Status c = Healthy)"
proof -
  have "(worst cs = Failed \<longleftrightarrow> (\<exists>c\<in>set cs. cr_Critical c \<and> cr_Status c = Unhealthy))
      \<and> (worst cs = Sound \<longleftrightarrow> (\<forall>c\<in>set cs. cr_Status c = Healthy))"
  proof (induction cs rule: rev_induct)
    case (snoc c cs)
    then show ?case
      by (cases "worst cs"; cases "contribution c") (auto simp: contribution_def status_values split: if_splits)
  qed simp
  then show "health_spec cs = Unhealthy \<longleftrightarrow> (\<exists>c\<in>set cs. cr_Critical c \<and> cr_Status c = Unhealthy)"
    "health_spec cs = Healthy \<longleftrightarrow> (\<forall>c\<in>set cs. cr_Status c = Healthy)"
    by (cases "worst cs"; auto simp: health_spec_def status_values)+
qed

lemma next_status_spec:
  "next_status st crit (health_spec cs)
     = health_spec (cs @ [\<lparr>cr_Name = n, cr_Status = st, cr_Message = m, cr_Critical = crit\<rparr>])"
  by (cases "worst cs") (auto simp: next_status_def health_spec_def contribution_def status_values)

lemma run_probes_spec:
  "run_probes ps r w = (r', w') \<Longrightarrow> hr_Status r = health_spec (hr_Checks r) \<Longrightarrow>
     hr_Status r' = health_spec (hr_Checks r')
     \<and> (\<exists>cs. hr_Checks r' = hr_Checks r @ cs
          \<and> map (\<lambda>c. (cr_Name c, cr_Critical c)) cs = map (\<lambda>p. (pr_Name p, pr_Critical p)) ps)"
proof (induction ps r w rule: run_probes.induct)
  case (2 p ps r w)
  obtain st m u where c: "pr_Check p w = ((st, m), u)" by (metis prod.collapse)
  define r1 where "r1 = \<lparr>hr_Status = next_status st (pr_Critical p) (hr_Status r),
     hr_Checks = hr_Checks r @ [\<lparr>cr_Name = pr_Name p, cr_Status = st, cr_Message = m, cr_Critical = pr_Critical p\<rparr>]\<rparr>"
  have "run_probes ps r1 u = (r', w')" using 2(2) by (simp add: c r1_def)
  moreover have "hr_Status r1 = health_spec (hr_Checks r1)"
    using 2(3) by (simp add: r1_def next_status_spec)
  ultimately have "hr_Status r' = health_spec (hr_Checks r')
     \<and> (\<exists>cs. hr_Checks r' = hr_Checks r1 @ cs
          \<and> map (\<lambda>c. (cr_Name c, cr_Critical c)) cs = map (\<lambda>p. (pr_Name p, pr_Critical p)) ps)"
    using 2(1)[of "(st, m)" u st m] c unfolding r1_def by simp
  then show ?case by (auto simp: r1_def)
qed auto


text \<open>
  a unit is reported healthy exactly when the bus answers and the unit is active and running or exited;
  an unreachable bus counts as unhealthy, never as unknown.
\<close>

theorem unit_probe_iff:
  "fst (fst (unit_probe uc bus unit w)) =
     (if \<exists>u v ps. bus_connect bus w = (None, u) \<and> bus_props bus unit u = (Inr ps, v)
         \<and> get_string ps ''ActiveState'' = ''active''
         \<and> (get_string ps ''SubState'' = ''running'' \<or> get_string ps ''SubState'' = ''exited'')
      then Healthy else Unhealthy)"
  by (auto simp: unit_probe_def Let_def split: prod.split option.split sum.split)

end
