(* ===== verification/Bootc.thy ===== *)
theory Bootc
  imports Json Systemd
begin

text \<open>
  Packages \<open>internal/system/bootc\<close> and \<open>internal/upgrade\<close>: reading \<open>bootc status --json\<close>, the three bootc
  commands, and the upgrade, rollback and reboot of the node on top of them. Running a command is a field of the
  \<open>executor\<close> record acting on the world; the two managers are records of operations, as the Go interfaces are.
\<close>

declare json_fold.simps [simp del] valid_utf8.simps [simp del]

section \<open>The status document\<close>

record bootc_status =
  bc_Image :: string
  bc_Version :: string
  bc_ImageDigest :: string
  bc_Staged :: string

text \<open>A struct field and a pointer field of a JSON document.\<close>

definition as_struct :: "((string \<times> json) list \<Rightarrow> 'a \<Rightarrow> error + 'a) \<Rightarrow> json \<Rightarrow> 'a \<Rightarrow> error + 'a" where
  "as_struct dec v x = (case v of JNull \<Rightarrow> Inr x | JObj ms \<Rightarrow> dec ms x | _ \<Rightarrow> Inl json_err)"

definition as_ptr :: "'a \<Rightarrow> (json \<Rightarrow> 'a \<Rightarrow> error + 'a) \<Rightarrow> json \<Rightarrow> 'a option \<Rightarrow> error + 'a option" where
  "as_ptr zero dec v x =
     (case v of
        JNull \<Rightarrow> Inr None
      | _ \<Rightarrow> res_bind (dec v (case x of None \<Rightarrow> zero | Some y \<Rightarrow> y)) (\<lambda>y. Inr (Some y)))"

record raw_status =
  raw_image :: string
  raw_digest :: string
  raw_version :: "string option"
  raw_staged :: "string option"

definition zero_raw :: raw_status where
  "zero_raw = \<lparr>raw_image = [], raw_digest = [], raw_version = None, raw_staged = None\<rparr>"

definition dec_booted_image :: "(string \<times> json) list \<Rightarrow> raw_status \<Rightarrow> error + raw_status" where
  "dec_booted_image ms r =
     res_bind (json_field ''image'' (as_struct (json_field ''image'' as_string)) ms (raw_image r)) (\<lambda>i.
     res_bind (json_field ''imageDigest'' as_string ms (raw_digest r)) (\<lambda>d.
     res_bind (json_field ''version'' (as_ptr [] as_string) ms (raw_version r)) (\<lambda>v.
       Inr (r\<lparr>raw_image := i, raw_digest := d, raw_version := v\<rparr>))))"

definition dec_staged :: "(string \<times> json) list \<Rightarrow> string \<Rightarrow> error + string" where
  "dec_staged = json_field ''image'' (as_struct (json_field ''image'' (as_struct (json_field ''image'' as_string))))"

definition dec_status :: "(string \<times> json) list \<Rightarrow> raw_status \<Rightarrow> error + raw_status" where
  "dec_status ms r =
     res_bind (json_field ''booted'' (as_struct (json_field ''image'' (as_struct dec_booted_image))) ms r) (\<lambda>r.
     res_bind (json_field ''staged'' (as_ptr [] (as_struct dec_staged)) ms (raw_staged r)) (\<lambda>st.
       Inr (r\<lparr>raw_staged := st\<rparr>)))"

definition parseStatus :: "string \<Rightarrow> error + bootc_status" where
  "parseStatus data =
     res_bind (wrap_err ''parse bootc status JSON''
         (res_bind (json_members_of data) (\<lambda>ms. json_field ''status'' (as_struct dec_status) ms zero_raw))) (\<lambda>r.
       Inr \<lparr>bc_Image = raw_image r,
         bc_Version = (case raw_version r of Some v \<Rightarrow> v | None \<Rightarrow> []),
         bc_ImageDigest = raw_digest r,
         bc_Staged = (case raw_staged r of Some s \<Rightarrow> s | None \<Rightarrow> [])\<rparr>)"

section \<open>The commands\<close>

record 'w executor =
  ex_output :: "string list \<Rightarrow> 'w \<Rightarrow> (error + string) \<times> 'w"
  ex_combined :: "string list \<Rightarrow> 'w \<Rightarrow> (error option \<times> string) \<times> 'w"

definition bootc_Status :: "'w executor \<Rightarrow> 'w \<Rightarrow> (error + bootc_status) \<times> 'w" where
  "bootc_Status ex w =
     (case ex_output ex [''bootc'', ''status'', ''--json''] w of
        (Inl e, w) \<Rightarrow> (Inl (Wrap ''bootc status'' e), w)
      | (Inr out, w) \<Rightarrow> (parseStatus out, w))"

definition bootc_Switch :: "'w executor \<Rightarrow> string \<Rightarrow> 'w \<Rightarrow> error option \<times> 'w" where
  "bootc_Switch ex img w =
     (if img = [] then (Some (Msg ''image required''), w)
      else (case ex_combined ex [''bootc'', ''switch'', ''--transport=registry'', ''--'', img] w of
          ((Some e, out), w) \<Rightarrow> (Some (WrapOut ''bootc switch'' e out), w)
        | ((None, out), w) \<Rightarrow> (None, w)))"

definition bootc_Rollback :: "'w executor \<Rightarrow> 'w \<Rightarrow> error option \<times> 'w" where
  "bootc_Rollback ex w =
     (case ex_combined ex [''bootc'', ''rollback''] w of
        ((Some e, out), w) \<Rightarrow> (Some (WrapOut ''bootc rollback'' e out), w)
      | ((None, out), w) \<Rightarrow> (None, w))"

record 'w bootc_manager =
  bm_Status :: "'w \<Rightarrow> (error + bootc_status) \<times> 'w"
  bm_Switch :: "string \<Rightarrow> 'w \<Rightarrow> error option \<times> 'w"
  bm_Rollback :: "'w \<Rightarrow> error option \<times> 'w"

definition bootc_CLI :: "'w executor \<Rightarrow> 'w bootc_manager" where
  "bootc_CLI ex = \<lparr>bm_Status = bootc_Status ex, bm_Switch = bootc_Switch ex, bm_Rollback = bootc_Rollback ex\<rparr>"

section \<open>Upgrade, rollback and reboot\<close>

record 'w upgrade_manager =
  um_bootc :: "'w bootc_manager"
  um_systemd :: "'w systemd_manager"

record upgrade_result =
  ur_CurrentImage :: string
  ur_CurrentDigest :: string
  ur_StagedImage :: string

record rollback_result =
  rr_CurrentImage :: string
  rr_RollbackImage :: string

definition upgrade_Upgrade :: "'w upgrade_manager \<Rightarrow> string \<Rightarrow> 'w \<Rightarrow> (error + upgrade_result) \<times> 'w" where
  "upgrade_Upgrade m img w =
     (if img = [] then (Inl (Msg ''image required''), w)
      else (case bm_Status (um_bootc m) w of
          (Inl e, w) \<Rightarrow> (Inl (Wrap ''get current status'' e), w)
        | (Inr status, w) \<Rightarrow>
            (case bm_Switch (um_bootc m) img w of
               (Some e, w) \<Rightarrow> (Inl (Wrap ''stage upgrade'' e), w)
             | (None, w) \<Rightarrow>
                 (case bm_Status (um_bootc m) w of
                    (Inl e, w) \<Rightarrow> (Inl (Wrap ''get post-switch status'' e), w)
                  | (Inr st, w) \<Rightarrow>
                      (Inr \<lparr>ur_CurrentImage = bc_Image st, ur_CurrentDigest = bc_ImageDigest st,
                        ur_StagedImage = bc_Staged st\<rparr>, w)))))"

definition upgrade_Rollback :: "'w upgrade_manager \<Rightarrow> 'w \<Rightarrow> (error + rollback_result) \<times> 'w" where
  "upgrade_Rollback m w =
     (case bm_Status (um_bootc m) w of
        (Inl e, w) \<Rightarrow> (Inl (Wrap ''get current status'' e), w)
      | (Inr status, w) \<Rightarrow>
          (case bm_Rollback (um_bootc m) w of
             (Some e, w) \<Rightarrow> (Inl (Wrap ''rollback'' e), w)
           | (None, w) \<Rightarrow>
               (case bm_Status (um_bootc m) w of
                  (Inl e, w) \<Rightarrow> (Inl (Wrap ''get post-rollback status'' e), w)
                | (Inr st, w) \<Rightarrow>
                    (Inr \<lparr>rr_CurrentImage = bc_Image status, rr_RollbackImage = bc_Staged st\<rparr>, w))))"

definition upgrade_Reboot :: "'w upgrade_manager \<Rightarrow> 'w \<Rightarrow> error option \<times> 'w" where
  "upgrade_Reboot m w = sm_reboot (um_systemd m) w"

section \<open>Properties\<close>

text \<open>The part of a status document the code reads.\<close>

definition status_doc :: "string \<Rightarrow> string \<Rightarrow> string option \<Rightarrow> string option \<Rightarrow> json" where
  "status_doc img dig ver staged =
     JObj [(''status'', JObj
       [(''booted'', JObj [(''image'', JObj
           [(''image'', JObj [(''image'', JStr img)]), (''imageDigest'', JStr dig),
            (''version'', case ver of None \<Rightarrow> JNull | Some v \<Rightarrow> JStr v)])]),
        (''staged'', case staged of None \<Rightarrow> JNull
           | Some st \<Rightarrow> JObj [(''image'', JObj [(''image'', JObj [(''image'', JStr st)])])])])]"

lemma fold_keys:
  "json_fold ''image'' = ''IMAGE''" "json_fold ''imageDigest'' = ''IMAGEDIGEST''" "json_fold ''version'' = ''VERSION''"
  "json_fold ''booted'' = ''BOOTED''" "json_fold ''staged'' = ''STAGED''" "json_fold ''status'' = ''STATUS''"
  by code_simp+

lemma parse_status_doc:
  assumes "json_parse data = Some (status_doc img dig ver staged)"
  shows "parseStatus data = Inr \<lparr>bc_Image = img, bc_Version = (case ver of None \<Rightarrow> [] | Some v \<Rightarrow> v),
    bc_ImageDigest = dig, bc_Staged = (case staged of None \<Rightarrow> [] | Some st \<Rightarrow> st)\<rparr>"
  using assms
  by (cases ver; cases staged)
     (simp_all add: parseStatus_def json_members_of_def status_doc_def as_struct_def dec_status_def zero_raw_def
       dec_booted_image_def dec_staged_def as_ptr_def as_string_def fold_keys)

text \<open>
  the status read from a document that bootc prints is what the document says: the booted image and digest,
  an absent version as the empty string, and no staged image as the empty string.
\<close>

theorem bootc_status_roundtrip:
  assumes "valid_utf8 img" "valid_utf8 dig" "pred_option valid_utf8 ver" "pred_option valid_utf8 staged"
  shows "parseStatus (json_render (status_doc img dig ver staged)) =
    Inr \<lparr>bc_Image = img, bc_Version = (case ver of None \<Rightarrow> [] | Some v \<Rightarrow> v),
      bc_ImageDigest = dig, bc_Staged = (case staged of None \<Rightarrow> [] | Some st \<Rightarrow> st)\<rparr>"
proof (rule parse_status_doc, rule json_parse_render)
  have "valid_utf8 ''image''" "valid_utf8 ''imageDigest''" "valid_utf8 ''version''" "valid_utf8 ''booted''"
    "valid_utf8 ''staged''" "valid_utf8 ''status''"
    by code_simp+
  with assms show "json_ok (status_doc img dig ver staged)"
    by (auto simp: status_doc_def split: option.split)
  show "json_depth (status_doc img dig ver staged) \<le> max_depth"
    by (auto simp: status_doc_def max_depth_def split: option.split)
qed

theorem bootc_status_roundtrip_witness:
  "parseStatus (json_render (status_doc ''quay.io/os:1'' ''sha256:ab'' None (Some ''quay.io/os:2''))) =
    Inr \<lparr>bc_Image = ''quay.io/os:1'', bc_Version = [], bc_ImageDigest = ''sha256:ab'', bc_Staged = ''quay.io/os:2''\<rparr>"
proof -
  have "valid_utf8 ''quay.io/os:1''" "valid_utf8 ''sha256:ab''" "valid_utf8 ''quay.io/os:2''" by code_simp+
  then show ?thesis
    using bootc_status_roundtrip[of "''quay.io/os:1''" "''sha256:ab''" None "Some ''quay.io/os:2''"] by simp
qed

text \<open>
  an upgrade reports success exactly when the status before, the switch and the status after all succeed, in
  this order, and then reports the status after; so it may have staged the image and still report an error, when
  only the last status fails. A rollback reports the image that was current before it.
\<close>

theorem upgrade_success_iff:
  "(upgrade_Upgrade m img w = (Inr r, w3) \<longleftrightarrow>
      img \<noteq> [] \<and> (\<exists>st w1 w2 st'. bm_Status (um_bootc m) w = (Inr st, w1) \<and> bm_Switch (um_bootc m) img w1 = (None, w2)
        \<and> bm_Status (um_bootc m) w2 = (Inr st', w3)
        \<and> r = \<lparr>ur_CurrentImage = bc_Image st', ur_CurrentDigest = bc_ImageDigest st', ur_StagedImage = bc_Staged st'\<rparr>))
   \<and> (upgrade_Rollback m w = (Inr q, w3) \<longleftrightarrow>
      (\<exists>st w1 w2 st'. bm_Status (um_bootc m) w = (Inr st, w1) \<and> bm_Rollback (um_bootc m) w1 = (None, w2)
        \<and> bm_Status (um_bootc m) w2 = (Inr st', w3)
        \<and> q = \<lparr>rr_CurrentImage = bc_Image st, rr_RollbackImage = bc_Staged st'\<rparr>))
   \<and> (bm_Status (um_bootc m) w = (Inr s0, u1) \<and> bm_Switch (um_bootc m) img u1 = (None, u2)
        \<and> bm_Status (um_bootc m) u2 = (Inl e, u3) \<and> img \<noteq> []
      \<longrightarrow> upgrade_Upgrade m img w = (Inl (Wrap ''get post-switch status'' e), u3))"
  by (auto simp: upgrade_Upgrade_def upgrade_Rollback_def split: prod.splits sum.splits option.splits)

text \<open>A bootc whose second status fails: the switch is done and the caller gets an error.\<close>

definition flaky_bootc :: "string upgrade_manager" where
  "flaky_bootc =
     \<lparr>um_bootc = \<lparr>bm_Status = (\<lambda>w. (if w = [] then Inr \<lparr>bc_Image = ''a'', bc_Version = [], bc_ImageDigest = [], bc_Staged = []\<rparr>
         else Inl (Ext ''bootc''), w)), bm_Switch = (\<lambda>img w. (None, img)), bm_Rollback = (\<lambda>w. (None, w))\<rparr>,
      um_systemd = \<lparr>sm_list = (\<lambda>w. (Inr [], w)), sm_status = (\<lambda>n w. (Inl (Msg n), w)), sm_start = (\<lambda>n w. (None, w)),
        sm_stop = (\<lambda>n w. (None, w)), sm_restart = (\<lambda>n w. (None, w)), sm_reboot = (\<lambda>w. (None, w))\<rparr>\<rparr>"

theorem upgrade_success_iff_witness:
  "upgrade_Upgrade flaky_bootc ''b'' [] = (Inl (Wrap ''get post-switch status'' (Ext ''bootc'')), ''b'')"
  using upgrade_success_iff[of flaky_bootc "''b''" "[]"
      "\<lparr>ur_CurrentImage = [], ur_CurrentDigest = [], ur_StagedImage = []\<rparr>" "[]"
      "\<lparr>rr_CurrentImage = [], rr_RollbackImage = []\<rparr>"
      "\<lparr>bc_Image = ''a'', bc_Version = [], bc_ImageDigest = [], bc_Staged = []\<rparr>" "[]" "''b''" "Ext ''bootc''" "''b''"]
  by (simp add: flaky_bootc_def)

end
