(* ===== verification/Journal.thy ===== *)
theory Journal
  imports Json Files Scanner
begin

text \<open>
  Package \<open>internal/system/journal\<close>: the arguments of \<open>journalctl\<close>, the reading of its JSON lines, and the stream of
  entries. One run of the command is a value of \<open>journal_run\<close>: it cannot be piped, cannot be started, ends with a
  status after some output, or is cancelled after some output. A stream is the entries it delivers and the error
  the error channel holds at the end. Formatting a JSON number as a Go \<open>float64\<close> is a parameter, which also says
  which literals are out of range.
\<close>

section \<open>Options and arguments\<close>

record journal_entry =
  je_Timestamp :: string
  je_Unit :: string
  je_Message :: string
  je_Priority :: string

record stream_opts =
  so_Follow :: bool
  so_Unit :: string
  so_Lines :: int
  so_Dmesg :: bool

definition buildArgs :: "stream_opts \<Rightarrow> string list" where
  "buildArgs opts =
     [''--output=json'', ''--no-pager'']
     @ (if so_Follow opts then [''--follow''] else [])
     @ (if so_Dmesg opts then [''--dmesg'']
        else if so_Unit opts \<noteq> [] then [''--unit='' @ so_Unit opts] else [])
     @ (if so_Lines opts > 0 then [''--lines='' @ show_nat (nat (so_Lines opts))]
        else if \<not> so_Follow opts then [''--lines=100''] else [])"

section \<open>Entries\<close>

text \<open>\<open>json.Unmarshal\<close> into an \<open>any\<close> fails on a number that does not fit a \<open>float64\<close>.\<close>

fun json_floats_ok :: "(string \<Rightarrow> string option) \<Rightarrow> json \<Rightarrow> bool" where
  "json_floats_ok fp (JNum s) = (fp s \<noteq> None)"
| "json_floats_ok fp (JArr vs) = (\<forall>v\<in>set vs. json_floats_ok fp v)"
| "json_floats_ok fp (JObj ms) = (\<forall>m\<in>set ms. case m of (k, v) \<Rightarrow> json_floats_ok fp v)"
| "json_floats_ok fp _ = True"

text \<open>The members of a Go map, in the order \<open>%v\<close> prints them: by key, the last of equal keys.\<close>

fun put_member :: "string \<Rightarrow> 'a \<Rightarrow> (string \<times> 'a) list \<Rightarrow> (string \<times> 'a) list" where
  "put_member k v [] = [(k, v)]"
| "put_member k v ((j, w) # m) =
     (if j = k then (k, v) # m else if str_le k j then (k, v) # (j, w) # m else (j, w) # put_member k v m)"

definition map_members :: "(string \<times> 'a) list \<Rightarrow> (string \<times> 'a) list" where
  "map_members ms = fold (\<lambda>(k, v). put_member k v) ms []"

text \<open>\<open>fmt.Sprintf("%v", v)\<close> of a decoded JSON value.\<close>

fun sprint_any :: "(string \<Rightarrow> string option) \<Rightarrow> json \<Rightarrow> string" where
  "sprint_any fp JNull = ''<nil>''"
| "sprint_any fp (JBool b) = (if b then ''true'' else ''false'')"
| "sprint_any fp (JNum s) = (case fp s of Some t \<Rightarrow> t | None \<Rightarrow> [])"
| "sprint_any fp (JStr s) = s"
| "sprint_any fp (JArr vs) = ''['' @ join_with '' '' (map (sprint_any fp) vs) @ '']''"
| "sprint_any fp (JObj ms) =
     ''map['' @ join_with '' '' (map (\<lambda>(k, t). k @ '':'' @ t) (map_members (map (\<lambda>(k, v). (k, sprint_any fp v)) ms))) @ '']''"

definition getString :: "(string \<Rightarrow> string option) \<Rightarrow> (string \<times> json) list \<Rightarrow> string \<Rightarrow> string" where
  "getString fp ms k =
     (case map_of (rev ms) k of None \<Rightarrow> [] | Some (JStr s) \<Rightarrow> s | Some v \<Rightarrow> sprint_any fp v)"

definition parseJournalJSON :: "(string \<Rightarrow> string option) \<Rightarrow> string \<Rightarrow> error + journal_entry" where
  "parseJournalJSON fp data =
     res_bind (json_members_of data) (\<lambda>ms.
       if \<not> json_floats_ok fp (JObj ms) then Inl json_err
       else Inr \<lparr>je_Timestamp = getString fp ms ''__REALTIME_TIMESTAMP'', je_Unit = getString fp ms ''_SYSTEMD_UNIT'',
         je_Message = getString fp ms ''MESSAGE'', je_Priority = getString fp ms ''PRIORITY''\<rparr>)"

section \<open>The stream\<close>

datatype journal_run =
    NoPipe error
  | NoStart error
  | Exited string "error option"
  | Cancelled string

definition journal_limit :: nat where
  "journal_limit = 256 * 1024"

fun good_entries :: "(string \<Rightarrow> string option) \<Rightarrow> string list \<Rightarrow> journal_entry list" where
  "good_entries fp [] = []"
| "good_entries fp (l # ls) =
     (case parseJournalJSON fp l of Inl e \<Rightarrow> good_entries fp ls | Inr x \<Rightarrow> x # good_entries fp ls)"

definition run_entries :: "(string \<Rightarrow> string option) \<Rightarrow> journal_run \<Rightarrow> journal_entry list \<times> error option" where
  "run_entries fp r =
     (case r of
        NoPipe e \<Rightarrow> ([], Some (Wrap ''journalctl stdout pipe'' e))
      | NoStart e \<Rightarrow> ([], Some (Wrap ''start journalctl'' e))
      | Cancelled out \<Rightarrow> (good_entries fp (scanned journal_limit out), None)
      | Exited out st \<Rightarrow>
          (good_entries fp (scanned journal_limit out),
           case st of None \<Rightarrow> None | Some e \<Rightarrow> Some (Wrap ''journalctl exit'' e)))"

definition journal_Stream ::
    "(string \<Rightarrow> string option) \<Rightarrow> (string list \<Rightarrow> 'w \<Rightarrow> journal_run \<times> 'w) \<Rightarrow> stream_opts \<Rightarrow> 'w \<Rightarrow>
     (journal_entry list \<times> error option) \<times> 'w" where
  "journal_Stream fp journalctl opts w =
     (case journalctl (''journalctl'' # buildArgs opts) w of (r, w) \<Rightarrow> (run_entries fp r, w))"

text \<open>The Go interface \<open>journal.Reader\<close>.\<close>

record 'w journal_reader =
  jr_Stream :: "stream_opts \<Rightarrow> 'w \<Rightarrow> (journal_entry list \<times> error option) \<times> 'w"

definition JournalctlReader ::
    "(string \<Rightarrow> string option) \<Rightarrow> (string list \<Rightarrow> 'w \<Rightarrow> journal_run \<times> 'w) \<Rightarrow> 'w journal_reader" where
  "JournalctlReader fp journalctl = \<lparr>jr_Stream = journal_Stream fp journalctl\<rparr>"

section \<open>Properties\<close>

lemma good_entries_append: "good_entries fp (xs @ ys) = good_entries fp xs @ good_entries fp ys"
  by (induction xs) (auto split: sum.splits)

lemma good_entries_lines:
  "good_entries fp ls = concat (map (\<lambda>l. case parseJournalJSON fp l of Inl e \<Rightarrow> [] | Inr x \<Rightarrow> [x]) ls)"
  by (induction ls) (auto split: sum.splits)

text \<open>
  the request reaches \<open>journalctl\<close> as separate arguments: every argument starts with two hyphens and contains
  the unit, if any, only after \<open>--unit=\<close>; kernel logs never carry a unit; and a stream that does not follow always
  has a line limit.
\<close>

theorem journal_args_safe:
  "list_all (\<lambda>a. has_prefix a ''--'') (buildArgs opts)
   \<and> (so_Dmesg opts \<longrightarrow> list_all (\<lambda>a. \<not> has_prefix a ''--unit='') (buildArgs opts))
   \<and> (\<not> so_Follow opts \<longrightarrow> list_ex (\<lambda>a. has_prefix a ''--lines='') (buildArgs opts))
   \<and> length (filter (\<lambda>a. has_prefix a ''--lines='') (buildArgs opts)) \<le> 1"
  by (auto simp: buildArgs_def has_prefix_def)

text \<open>
  a line of 256 KiB or more ends the stream without an error: the entries before it are delivered, everything
  after it is lost, and the caller is told that the stream ended normally.
\<close>

theorem journal_long_line_lost:
  assumes "\<forall>l\<in>set us. CHR 0x0A \<notin> set l \<and> length l < journal_limit" "CHR 0x0A \<notin> set big" "journal_limit \<le> length big"
  shows "run_entries fp (Exited (concat (map (\<lambda>l. l @ [CHR 0x0A]) us) @ big @ [CHR 0x0A] @ rest) None)
    = (good_entries fp (map drop_cr us), None)"
proof -
  have "split_on CHR 0x0A (concat (map (\<lambda>l. l @ [CHR 0x0A]) us) @ t) = us @ split_on CHR 0x0A t" for t
    using assms(1) by (induction us) (simp_all add: split_on_append)
  then have sp: "split_on CHR 0x0A (concat (map (\<lambda>l. l @ [CHR 0x0A]) us) @ big @ CHR 0x0A # rest)
      = us @ big # split_on CHR 0x0A rest"
    using assms(2) by (simp add: split_on_append)
  have "\<exists>vs. text_lines (concat (map (\<lambda>l. l @ [CHR 0x0A]) us) @ big @ [CHR 0x0A] @ rest) = us @ big # vs"
    unfolding text_lines_def Let_def append_Cons append_Nil sp by (simp add: butlast_append)
  then obtain vs where "text_lines (concat (map (\<lambda>l. l @ [CHR 0x0A]) us) @ big @ [CHR 0x0A] @ rest) = us @ big # vs"
    by blast
  then have "scanned journal_limit (concat (map (\<lambda>l. l @ [CHR 0x0A]) us) @ big @ [CHR 0x0A] @ rest) = map drop_cr us"
    using assms(1,3) by (simp add: scanned_def takeWhile_append2)
  then show ?thesis by (simp add: run_entries_def)
qed

theorem journal_args_safe_witness:
  "list_all (\<lambda>a. \<not> has_prefix a ''--unit='')
     (buildArgs \<lparr>so_Follow = False, so_Unit = ''sshd.service'', so_Lines = 5, so_Dmesg = True\<rparr>)"
  using journal_args_safe[of "\<lparr>so_Follow = False, so_Unit = ''sshd.service'', so_Lines = 5, so_Dmesg = True\<rparr>"] by simp

theorem journal_long_line_lost_witness:
  "run_entries (\<lambda>s. Some s)
     (Exited (concat (map (\<lambda>l. l @ [CHR 0x0A]) [''{}'']) @ replicate journal_limit (CHR ''x'') @ [CHR 0x0A] @ ''{}'') None)
   = ([\<lparr>je_Timestamp = [], je_Unit = [], je_Message = [], je_Priority = []\<rparr>], None)"
proof -
  have "good_entries (\<lambda>s. Some s) (map drop_cr [''{}'']) = [\<lparr>je_Timestamp = [], je_Unit = [], je_Message = [], je_Priority = []\<rparr>]"
    by code_simp
  moreover have "\<forall>l\<in>set [''{}'']. CHR 0x0A \<notin> set l \<and> length l < journal_limit"
    by (simp add: journal_limit_def)
  ultimately show ?thesis
    using journal_long_line_lost[of "[''{}'']" "replicate journal_limit (CHR ''x'')" "\<lambda>s. Some s" "''{}''"] by simp
qed

end
