(* ===== verification/Proc_Stats.thy ===== *)
theory Proc_Stats
  imports Scanner "HOL-Library.Word"
begin

text \<open>
  Package \<open>internal/system/proc\<close>: memory, load, processor and disk figures from \<open>/proc\<close> and \<open>statfs\<close>. Byte counts
  are 64-bit words, so the multiplications and subtractions of the code wrap as they do in Go. Floating-point
  numbers are a type parameter: parsing one and computing the percentage are the fields of a \<open>floats\<close> record.
\<close>

section \<open>Data\<close>

record memory_stats =
  ms_Total :: "64 word"
  ms_Available :: "64 word"
  ms_Used :: "64 word"

record 'f load_stats =
  ls_Load1 :: 'f
  ls_Load5 :: 'f
  ls_Load15 :: 'f

record disk_stats =
  ds_MountPoint :: string
  ds_Filesystem :: string
  ds_Total :: "64 word"
  ds_Available :: "64 word"
  ds_Used :: "64 word"

record 'f cpu_stats =
  cpu_Count :: "32 word"
  cpu_Usage :: 'f

record 'f stats =
  st_Memory :: memory_stats
  st_CPU :: "'f cpu_stats"
  st_Load :: "'f load_stats"
  st_Disks :: "disk_stats list"

text \<open>
  \<open>fl_parse\<close> is the value \<open>strconv.ParseFloat\<close> returns (also beside an error), \<open>fl_percent b t\<close> is
  \<open>float64(b) / float64(t) * 100.0\<close>, \<open>fl_zero\<close> is 0.
\<close>

record 'f floats =
  fl_parse :: "string \<Rightarrow> 'f"
  fl_percent :: "64 word \<Rightarrow> 64 word \<Rightarrow> 'f"
  fl_zero :: 'f

record statfs =
  sf_Blocks :: "64 word"
  sf_Bfree :: "64 word"
  sf_Bavail :: "64 word"
  sf_Bsize :: "64 word"

record proc_source =
  ps_file :: "string \<Rightarrow> error + string"
  ps_statfs :: "string \<Rightarrow> error + statfs"
  ps_cpus :: nat

section \<open>Memory\<close>

definition parseMemLine :: "string \<Rightarrow> 64 word" where
  "parseMemLine line =
     (case Fields line of _ # v # _ \<Rightarrow> word_of_nat (parse_uint v) | _ \<Rightarrow> 0)"

text \<open>One line of the loop: the total and the available memory seen so far.\<close>

definition mem_line :: "string \<Rightarrow> 64 word \<times> 64 word \<Rightarrow> 64 word \<times> 64 word" where
  "mem_line line m =
     (case m of (tot, avail) \<Rightarrow>
        if has_prefix line ''MemTotal:'' then (parseMemLine line, avail)
        else if has_prefix line ''MemAvailable:'' then (tot, parseMemLine line)
        else (tot, avail))"

definition ParseMemInfo :: "string \<Rightarrow> memory_stats" where
  "ParseMemInfo data =
     (case fold mem_line (scanned default_limit data) (0, 0) of (totalKB, availableKB) \<Rightarrow>
        let tot = totalKB * 1024; available = availableKB * 1024 in
        \<lparr>ms_Total = tot, ms_Available = available, ms_Used = tot - available\<rparr>)"

definition readMemInfo :: "proc_source \<Rightarrow> error + memory_stats" where
  "readMemInfo src =
     res_bind (ps_file src ''/proc/meminfo'') (\<lambda>data.
       case fold mem_line (scanned default_limit data) (0, 0) of (totalKB, availableKB) \<Rightarrow>
         let tot = totalKB * 1024; available = availableKB * 1024; used = tot - available in
         Inr \<lparr>ms_Total = tot, ms_Available = available, ms_Used = used\<rparr>)"

section \<open>Load, processors, disks\<close>

definition ParseLoadAvg :: "'f floats \<Rightarrow> string \<Rightarrow> error + 'f load_stats" where
  "ParseLoadAvg fl data =
     (case Fields data of
        a # b # c # _ \<Rightarrow> Inr \<lparr>ls_Load1 = fl_parse fl a, ls_Load5 = fl_parse fl b, ls_Load15 = fl_parse fl c\<rparr>
      | _ \<Rightarrow> Inl (MsgQ ''unexpected loadavg format: '' data []))"

definition readLoadAvg :: "'f floats \<Rightarrow> proc_source \<Rightarrow> error + 'f load_stats" where
  "readLoadAvg fl src =
     res_bind (ps_file src ''/proc/loadavg'') (\<lambda>data.
       case Fields data of
         a # b # c # _ \<Rightarrow> Inr \<lparr>ls_Load1 = fl_parse fl a, ls_Load5 = fl_parse fl b, ls_Load15 = fl_parse fl c\<rparr>
       | _ \<Rightarrow> Inl (MsgQ ''unexpected loadavg format: '' data []))"

text \<open>The loop stops at the first line that starts with \<open>cpu\<close> and a space, whatever it holds.\<close>

fun cpu_lines :: "'f floats \<Rightarrow> 32 word \<Rightarrow> string list \<Rightarrow> 'f cpu_stats" where
  "cpu_lines fl n [] = \<lparr>cpu_Count = n, cpu_Usage = fl_zero fl\<rparr>"
| "cpu_lines fl n (line # ls) =
     (if \<not> has_prefix line ''cpu '' then cpu_lines fl n ls
      else (case Fields line of
          _ # u # ni # s # i # _ \<Rightarrow>
            (let user = word_of_nat (parse_uint u); nice = word_of_nat (parse_uint ni);
                 system = word_of_nat (parse_uint s); idle = word_of_nat (parse_uint i);
                 tot = user + nice + system + idle :: 64 word in
             if tot = 0 then \<lparr>cpu_Count = n, cpu_Usage = fl_zero fl\<rparr>
             else \<lparr>cpu_Count = n, cpu_Usage = fl_percent fl (user + nice + system) tot\<rparr>)
        | _ \<Rightarrow> \<lparr>cpu_Count = n, cpu_Usage = fl_zero fl\<rparr>))"

definition readCPUStats :: "'f floats \<Rightarrow> proc_source \<Rightarrow> error + 'f cpu_stats" where
  "readCPUStats fl src =
     res_bind (ps_file src ''/proc/stat'') (\<lambda>data.
       Inr (cpu_lines fl (word_of_nat (ps_cpus src)) (scanned default_limit data)))"

definition readDiskStats :: "proc_source \<Rightarrow> string \<Rightarrow> error + disk_stats" where
  "readDiskStats src mp =
     (case ps_statfs src mp of
        Inl e \<Rightarrow> Inl (Wrap (''statfs '' @ mp) e)
      | Inr st \<Rightarrow>
          (let tot = sf_Blocks st * sf_Bsize st; available = sf_Bavail st * sf_Bsize st;
               used = tot - sf_Bfree st * sf_Bsize st in
           Inr \<lparr>ds_MountPoint = mp, ds_Filesystem = [], ds_Total = tot, ds_Available = available, ds_Used = used\<rparr>))"

fun read_disks :: "proc_source \<Rightarrow> string list \<Rightarrow> disk_stats list" where
  "read_disks src [] = []"
| "read_disks src (mp # mps) =
     (case readDiskStats src mp of Inl e \<Rightarrow> read_disks src mps | Inr d \<Rightarrow> d # read_disks src mps)"

definition proc_Read :: "'f floats \<Rightarrow> string list \<Rightarrow> proc_source \<Rightarrow> error + 'f stats" where
  "proc_Read fl mps src =
     res_bind (wrap_err ''read meminfo'' (readMemInfo src)) (\<lambda>mem.
     res_bind (wrap_err ''read loadavg'' (readLoadAvg fl src)) (\<lambda>load.
     res_bind (wrap_err ''read cpu stats'' (readCPUStats fl src)) (\<lambda>cpu.
       Inr \<lparr>st_Memory = mem, st_CPU = cpu, st_Load = load, st_Disks = read_disks src mps\<rparr>)))"

section \<open>Facts\<close>

lemma readMemInfo_parse: "readMemInfo src = res_bind (ps_file src ''/proc/meminfo'') (\<lambda>d. Inr (ParseMemInfo d))"
  by (cases "ps_file src ''/proc/meminfo''") (simp_all add: readMemInfo_def ParseMemInfo_def Let_def split: prod.split)

lemma readLoadAvg_parse: "readLoadAvg fl src = res_bind (ps_file src ''/proc/loadavg'') (ParseLoadAvg fl)"
  by (cases "ps_file src ''/proc/loadavg''") (simp_all add: readLoadAvg_def ParseLoadAvg_def)

text \<open>The line the kernel writes for a figure.\<close>

definition mem_text :: "string \<Rightarrow> nat \<Rightarrow> nat \<Rightarrow> string" where
  "mem_text label n k = label @ replicate (Suc n) CHR 0x20 @ show_nat k @ '' kB''"

lemma parse_mem_text:
  assumes "label \<noteq> []" "\<forall>c\<in>set label. graphic c" "k < 2 ^ 64"
  shows "parseMemLine (mem_text label n k) = word_of_nat k"
proof -
  have g: "\<forall>c\<in>set (show_nat k). graphic c"
    using show_nat_graphic by blast
  have "Fields (mem_text label n k) = [label, show_nat k, ''kB'']"
    using assms(1,2) g Fields_word(2)[of "''kB''"]
    by (simp add: mem_text_def Fields_word(1) Fields_blanks graphic_def byte_def)
  with assms(3) show ?thesis by (simp add: parseMemLine_def parse_uint_show)
qed

lemma mem_line_other:
  "\<not> has_prefix l ''MemTotal:'' \<Longrightarrow> \<not> has_prefix l ''MemAvailable:'' \<Longrightarrow> mem_line l m = m"
  by (cases m) (simp add: mem_line_def)

lemma fold_mem_other:
  "\<forall>l\<in>set ls. \<not> has_prefix l ''MemTotal:'' \<and> \<not> has_prefix l ''MemAvailable:'' \<Longrightarrow>
     fold mem_line (map drop_cr ls) m = m"
proof (induction ls)
  case (Cons l ls)
  then have "\<not> has_prefix (drop_cr l) ''MemTotal:''" "\<not> has_prefix (drop_cr l) ''MemAvailable:''"
    using drop_cr_prefix by auto
  with Cons show ?case by (simp add: mem_line_other)
qed simp

lemma mem_line_labels:
  assumes "k < 2 ^ 64"
  shows "mem_line (drop_cr (mem_text ''MemTotal:'' n k)) (t, a) = (word_of_nat k, a)"
    and "mem_line (drop_cr (mem_text ''MemAvailable:'' n k)) (t, a) = (t, word_of_nat k)"
proof -
  have "drop_cr (mem_text l n k) = mem_text l n k" for l by (simp add: drop_cr_def mem_text_def)
  moreover have "parseMemLine (mem_text ''MemTotal:'' n k) = word_of_nat k"
    "parseMemLine (mem_text ''MemAvailable:'' n k) = word_of_nat k"
    using assms by (simp_all add: parse_mem_text graphic_def byte_def)
  moreover have "has_prefix (mem_text l n k) l" for l by (simp add: mem_text_def)
  moreover have "\<not> has_prefix (mem_text ''MemAvailable:'' n k) ''MemTotal:''"
    by (simp add: mem_text_def has_prefix_iff)
  ultimately show "mem_line (drop_cr (mem_text ''MemTotal:'' n k)) (t, a) = (word_of_nat k, a)"
    "mem_line (drop_cr (mem_text ''MemAvailable:'' n k)) (t, a) = (t, word_of_nat k)"
    by (simp_all add: mem_line_def)
qed

lemma kib_word:
  assumes "k < 2 ^ 54"
  shows "unat (word_of_nat k * 1024 :: 64 word) = k * 1024"
proof -
  have "k * 1024 < 2 ^ 64" using assms by simp
  then have "unat (word_of_nat (k * 1024) :: 64 word) = k * 1024"
    by (simp only: unsigned_of_nat) (simp add: take_bit_nat_eq_self)
  then show ?thesis by simp
qed

section \<open>Properties\<close>

text \<open>
  C26: from a \<open>/proc/meminfo\<close> with one total and one available figure, in kibibytes, the code reports exactly those
  figures in bytes and their difference as used, as long as the total is below 2^54; for any text, the used
  figure is at most the total exactly when the available one is: otherwise it has wrapped around.
\<close>

theorem meminfo_exact:
  assumes "data = concat (map (\<lambda>l. l @ [CHR 0x0A])
      (us @ mem_text ''MemTotal:'' n t # vs @ mem_text ''MemAvailable:'' m a # ws))"
    and "\<forall>l\<in>set (us @ vs @ ws). \<not> has_prefix l ''MemTotal:'' \<and> \<not> has_prefix l ''MemAvailable:''"
    and "\<forall>l\<in>set (us @ mem_text ''MemTotal:'' n t # vs @ mem_text ''MemAvailable:'' m a # ws).
      CHR 0x0A \<notin> set l \<and> length l < default_limit"
    and "a \<le> t" "t < 2 ^ 54"
  shows "unat (ms_Total (ParseMemInfo data)) = t * 1024 \<and> unat (ms_Available (ParseMemInfo data)) = a * 1024
    \<and> unat (ms_Used (ParseMemInfo data)) = (t - a) * 1024
    \<and> (\<forall>d. ms_Used (ParseMemInfo d) \<le> ms_Total (ParseMemInfo d) \<longleftrightarrow> ms_Available (ParseMemInfo d) \<le> ms_Total (ParseMemInfo d))"
proof -
  have "t < 2 ^ 64" "a < 2 ^ 64" using assms(4,5) by simp_all
  then have "fold mem_line (scanned default_limit data) (0, 0) = (word_of_nat t, word_of_nat a)"
    using assms(2) unfolding assms(1) scanned_concat[OF assms(3)]
    by (simp add: fold_mem_other mem_line_labels del: One_nat_def)
  then have p: "ParseMemInfo data = \<lparr>ms_Total = word_of_nat t * 1024, ms_Available = word_of_nat a * 1024,
      ms_Used = word_of_nat t * 1024 - word_of_nat a * 1024\<rparr>"
    by (simp add: ParseMemInfo_def Let_def)
  have u: "unat (word_of_nat t * 1024 :: 64 word) = t * 1024" "unat (word_of_nat a * 1024 :: 64 word) = a * 1024"
    using assms(4,5) by (simp_all add: kib_word)
  then have "word_of_nat a * 1024 \<le> (word_of_nat t * 1024 :: 64 word)" using assms(4) by (simp add: word_le_nat_alt)
  then have "unat (word_of_nat t * 1024 - word_of_nat a * 1024 :: 64 word) = (t - a) * 1024"
    using u by (simp add: unat_sub diff_mult_distrib)
  moreover have "ms_Used (ParseMemInfo d) = ms_Total (ParseMemInfo d) - ms_Available (ParseMemInfo d)" for d
    by (simp add: ParseMemInfo_def Let_def split: prod.split)
  ultimately show ?thesis using u by (simp add: p word_sub_le_iff)
qed

theorem meminfo_exact_witness:
  "unat (ms_Used (ParseMemInfo (concat (map (\<lambda>l. l @ [CHR 0x0A])
      ([] @ mem_text ''MemTotal:'' 2 9 # [''MemFree: 1 kB''] @ mem_text ''MemAvailable:'' 2 4 # []))))) = 5120"
proof -
  have "list_all (\<lambda>l. \<not> has_prefix l ''MemTotal:'' \<and> \<not> has_prefix l ''MemAvailable:'') ([] @ [''MemFree: 1 kB''] @ [])"
    by (simp add: has_prefix_iff)
  moreover have "show_nat 9 = ''9''" "show_nat 4 = ''4''" by code_simp+
  then have "list_all (\<lambda>l. CHR 0x0A \<notin> set l \<and> length l < default_limit)
      ([] @ mem_text ''MemTotal:'' 2 9 # [''MemFree: 1 kB''] @ mem_text ''MemAvailable:'' 2 4 # [])"
    by (simp add: mem_text_def default_limit_def numeral_2_eq_2)
  ultimately show ?thesis
    using meminfo_exact[OF refl, of "[]" "[''MemFree: 1 kB'']" "[]" 2 9 2 4] by (simp only: list_all_iff) simp
qed

end
