(* ===== verification/Agent_Config.thy ===== *)
theory Agent_Config
  imports Go_Strings
begin

text \<open>
  Package \<open>internal/config\<close>: the agent's configuration from its environment. An environment is a map from names to
  values; parsing a Go duration (into nanoseconds) is a parameter.
\<close>

type_synonym environment = "string \<rightharpoonup> string"

text \<open>\<open>os.Getenv\<close>: the empty string for a variable that is not set.\<close>

definition Getenv :: "environment \<Rightarrow> string \<Rightarrow> string" where
  "Getenv env k = (case env k of None \<Rightarrow> [] | Some v \<Rightarrow> v)"

definition envOr :: "environment \<Rightarrow> string \<Rightarrow> string \<Rightarrow> string" where
  "envOr env k fallback = (let v = Getenv env k in if v \<noteq> [] then v else fallback)"

definition envOrDuration :: "(string \<Rightarrow> int option) \<Rightarrow> environment \<Rightarrow> string \<Rightarrow> int \<Rightarrow> int" where
  "envOrDuration parse env k fallback =
     (let v = Getenv env k in
      if v = [] then fallback else (case parse v of None \<Rightarrow> fallback | Some d \<Rightarrow> d))"

fun nonblank_pieces :: "string list \<Rightarrow> string list" where
  "nonblank_pieces [] = []"
| "nonblank_pieces (s # ss) =
     (let t = trim_space s in if t \<noteq> [] then t # nonblank_pieces ss else nonblank_pieces ss)"

definition envOrStringSlice :: "environment \<Rightarrow> string \<Rightarrow> string list \<Rightarrow> string list" where
  "envOrStringSlice env k fallback =
     (let v = Getenv env k in
      if v = [] then fallback
      else (let r = nonblank_pieces (split_on CHR '','' v) in if r = [] then fallback else r))"

record agent_config =
  cfg_ListenAddr :: string
  cfg_TLSDir :: string
  cfg_LogFormat :: string
  cfg_HealthInterval :: int
  cfg_HealthUnits :: "string list"
  cfg_AuthMethod :: string
  cfg_AuthConfig :: string
  cfg_AuthzMethod :: string
  cfg_AuthzConfig :: string
  cfg_Plugins :: "string list"

definition Load :: "(string \<Rightarrow> int option) \<Rightarrow> environment \<Rightarrow> agent_config" where
  "Load parse env =
     \<lparr>cfg_ListenAddr = envOr env ''HB_LISTEN_ADDR'' '':50000'',
      cfg_TLSDir = envOr env ''HB_TLS_DIR'' ''/var/lib/hummingbird/pki'',
      cfg_LogFormat = envOr env ''HB_LOG_FORMAT'' ''json'',
      cfg_HealthInterval = envOrDuration parse env ''HB_HEALTH_INTERVAL'' (10 * 10 ^ 9),
      cfg_HealthUnits = envOrStringSlice env ''HB_HEALTH_UNITS'' [''crio.service'', ''kubelet.service''],
      cfg_AuthMethod = envOr env ''HB_AUTH_METHOD'' ''mtls'',
      cfg_AuthConfig = envOr env ''HB_AUTH_CONFIG'' [],
      cfg_AuthzMethod = envOr env ''HB_AUTHZ_METHOD'' ''allow-all'',
      cfg_AuthzConfig = envOr env ''HB_AUTHZ_CONFIG'' [],
      cfg_Plugins = envOrStringSlice env ''HB_PLUGINS'' [''services'', ''diagnostics'', ''lifecycle'', ''config'']\<rparr>"

section \<open>Facts\<close>

lemma nonblank_pieces_conv: "nonblank_pieces ss = filter (\<lambda>t. t \<noteq> []) (map trim_space ss)"
  by (induction ss) (simp_all add: Let_def)

lemma slice_not_empty: "fallback \<noteq> [] \<Longrightarrow> envOrStringSlice env k fallback \<noteq> []"
  by (simp add: envOrStringSlice_def Let_def)

text \<open>A list of trimmed words without commas is read back from its comma-separated text.\<close>

lemma slice_roundtrip:
  assumes "ws \<noteq> []" "\<forall>w\<in>set ws. w \<noteq> [] \<and> trim_space w = w \<and> CHR '','' \<notin> set w"
  shows "envOrStringSlice [k \<mapsto> join_with '','' ws] k fallback = ws"
proof -
  have "split_on CHR '','' (join_with '','' ws) = ws"
    using assms split_on_join[of ws "CHR '',''"] by simp
  moreover have "nonblank_pieces ws = ws"
    using assms(2) by (induction ws) (simp_all add: Let_def)
  moreover have "join_with '','' ws \<noteq> []"
    using assms by (cases ws rule: list.exhaust; cases "tl ws") auto
  ultimately show ?thesis
    using assms(1) by (simp add: envOrStringSlice_def Getenv_def Let_def)
qed

text \<open>Without any setting every field of the configuration has its default, and the list fields are never empty.\<close>

lemma load_defaults:
  "cfg_AuthzMethod (Load parse Map.empty) = ''allow-all'' \<and> cfg_AuthMethod (Load parse Map.empty) = ''mtls''
   \<and> cfg_Plugins (Load parse env) \<noteq> [] \<and> cfg_HealthUnits (Load parse env) \<noteq> []"
  by (simp add: Load_def envOr_def Getenv_def slice_not_empty)

end
