(* ===== verification/Oidc.thy ===== *)
theory Oidc
  imports Authn Journal "HOL-Library.Word"
begin

text \<open>
  Package \<open>internal/authn/oidc\<close>: bearer tokens signed by an OpenID provider. Modelled are the configuration and
  discovery, the cache of signing keys with its time to live and its cooldown, the decoding of base64url and JSON,
  and the whole verification of a token. HTTP, the clock, the certificate pool and the cryptographic primitives
  are the fields of an \<open>oidc_env\<close> record; HTTP and the clock act on the world. Times are nanoseconds since the year
  1; a Unix time in a claim is converted with the wrap-around of \<open>time.Unix\<close>.
\<close>

section \<open>base64url\<close>

text \<open>
  \<open>base64.RawURLEncoding.DecodeString\<close>: line breaks are skipped, unused low bits are dropped, and padding is an
  invalid character.
\<close>

definition b64_val :: "char \<Rightarrow> nat option" where
  "b64_val c =
     (if is_upper c then Some (byte c - 65)
      else if is_lower c then Some (byte c - 71)
      else if is_digit c then Some (byte c + 4)
      else if c = CHR ''-'' then Some 62
      else if c = CHR ''_'' then Some 63
      else None)"

fun b64_groups :: "nat list \<Rightarrow> string option" where
  "b64_groups [] = Some []"
| "b64_groups [a] = None"
| "b64_groups [a, b] = Some [char_of (a * 4 + b div 16)]"
| "b64_groups [a, b, c] = Some [char_of (a * 4 + b div 16), char_of (b mod 16 * 16 + c div 4)]"
| "b64_groups (a # b # c # d # r) =
     map_option (\<lambda>s. char_of (a * 4 + b div 16) # char_of (b mod 16 * 16 + c div 4) # char_of (c mod 4 * 64 + d) # s)
       (b64_groups r)"

definition base64URLDecode :: "string \<Rightarrow> error + string" where
  "base64URLDecode s =
     (let t = filter (\<lambda>c. c \<noteq> CHR 0x0A \<and> c \<noteq> CHR 0x0D) s in
      if list_ex (\<lambda>c. b64_val c = None) t then Inl (Ext ''illegal base64 data'')
      else (case b64_groups (map (\<lambda>c. the (b64_val c)) t) of
          None \<Rightarrow> Inl (Ext ''illegal base64 data'')
        | Some d \<Rightarrow> Inr d))"

section \<open>Keys\<close>

datatype curve = P256 | P384 | P521

datatype pubkey = RSAKey nat "64 word" | ECKey curve nat nat

datatype hash_alg = SHA256 | SHA384 | SHA512

definition big_endian :: "string \<Rightarrow> nat" where
  "big_endian s = fold (\<lambda>c n. n * 256 + byte c) s 0"

text \<open>The length in bits of a natural number (\<open>big.Int.BitLen\<close>).\<close>

fun bit_len :: "nat \<Rightarrow> nat" where
  "bit_len n = (if n = 0 then 0 else Suc (bit_len (n div 2)))"

declare bit_len.simps [simp del]

record http_response =
  h_status :: int
  h_body :: string
  h_read_err :: "error option"

record 'w oidc_env =
  e_get :: "string option \<Rightarrow> string \<Rightarrow> 'w \<Rightarrow> (error + http_response) \<times> 'w"
  e_now :: "'w \<Rightarrow> int \<times> 'w"
  e_read_file :: "string \<Rightarrow> 'w \<Rightarrow> (error + string) \<times> 'w"
  e_pool_ok :: "string \<Rightarrow> bool"
  e_float :: "string \<Rightarrow> string option"
  e_int64 :: "string \<Rightarrow> int"
  e_hash :: "hash_alg \<Rightarrow> string \<Rightarrow> string"
  e_rsa_verify :: "nat \<Rightarrow> 64 word \<Rightarrow> hash_alg \<Rightarrow> string \<Rightarrow> string \<Rightarrow> error option"
  e_ecdsa_verify :: "curve \<Rightarrow> nat \<Rightarrow> nat \<Rightarrow> string \<Rightarrow> string \<Rightarrow> bool"
  e_uc :: unicode
  e_ago :: "int \<Rightarrow> string"
  e_on_curve :: "curve \<Rightarrow> nat \<Rightarrow> nat \<Rightarrow> error option"

record jwk =
  jwk_Kty :: string
  jwk_Kid :: string
  jwk_Use :: string
  jwk_N :: string
  jwk_E :: string
  jwk_Crv :: string
  jwk_X :: string
  jwk_Y :: string

definition rsa_exponent :: "string \<Rightarrow> 64 word" where
  "rsa_exponent s = fold (\<lambda>c e. push_bit 8 e + word_of_nat (byte c)) s 0"

definition toRSAPublicKey :: "jwk \<Rightarrow> error + pubkey" where
  "toRSAPublicKey k =
     res_bind (wrap_err ''decode N'' (base64URLDecode (jwk_N k))) (\<lambda>n.
     res_bind (wrap_err ''decode E'' (base64URLDecode (jwk_E k))) (\<lambda>e.
       Inr (RSAKey (big_endian n) (rsa_exponent e))))"

definition curve_of :: "string \<Rightarrow> curve option" where
  "curve_of s =
     (if s = ''P-256'' then Some P256 else if s = ''P-384'' then Some P384
      else if s = ''P-521'' then Some P521 else None)"

definition toECPublicKey :: "'w oidc_env \<Rightarrow> jwk \<Rightarrow> error + pubkey" where
  "toECPublicKey env k =
     (case curve_of (jwk_Crv k) of
        None \<Rightarrow> Inl (MsgS ''unsupported curve: '' (jwk_Crv k) [])
      | Some c \<Rightarrow>
          res_bind (wrap_err ''decode X'' (base64URLDecode (jwk_X k))) (\<lambda>xb.
          res_bind (wrap_err ''decode Y'' (base64URLDecode (jwk_Y k))) (\<lambda>yb.
            let x = big_endian xb; y = big_endian yb in
            (case e_on_curve env c x y of
               Some e \<Rightarrow> Inl (Wrap (''EC point not on curve '' @ jwk_Crv k) e)
             | None \<Rightarrow> Inr (ECKey c x y)))))"

definition toPublicKey :: "'w oidc_env \<Rightarrow> jwk \<Rightarrow> error + pubkey" where
  "toPublicKey env k =
     (if jwk_Kty k = ''RSA'' then toRSAPublicKey k
      else if jwk_Kty k = ''EC'' then toECPublicKey env k
      else Inl (MsgS ''unsupported key type: '' (jwk_Kty k) []))"

section \<open>Decoding JSON into the structs\<close>

definition zero_jwk :: jwk where
  "zero_jwk = \<lparr>jwk_Kty = [], jwk_Kid = [], jwk_Use = [], jwk_N = [], jwk_E = [], jwk_Crv = [], jwk_X = [], jwk_Y = []\<rparr>"

text \<open>
  An element of the array is decoded into the element that a repeated member \<open>keys\<close> left at its place, else into a
  zero \<open>jwk\<close>.
\<close>

definition dec_jwk :: "json \<Rightarrow> jwk \<Rightarrow> error + jwk" where
  "dec_jwk v k =
     (case v of
        JNull \<Rightarrow> Inr k
      | JObj ms \<Rightarrow>
          res_bind (json_field ''kty'' as_string ms (jwk_Kty k)) (\<lambda>kty.
          res_bind (json_field ''kid'' as_string ms (jwk_Kid k)) (\<lambda>kid.
          res_bind (json_field ''use'' as_string ms (jwk_Use k)) (\<lambda>use.
          res_bind (json_field ''n'' as_string ms (jwk_N k)) (\<lambda>n.
          res_bind (json_field ''e'' as_string ms (jwk_E k)) (\<lambda>e.
          res_bind (json_field ''crv'' as_string ms (jwk_Crv k)) (\<lambda>crv.
          res_bind (json_field ''x'' as_string ms (jwk_X k)) (\<lambda>x.
          res_bind (json_field ''y'' as_string ms (jwk_Y k)) (\<lambda>y.
            Inr \<lparr>jwk_Kty = kty, jwk_Kid = kid, jwk_Use = use, jwk_N = n, jwk_E = e, jwk_Crv = crv, jwk_X = x, jwk_Y = y\<rparr>))))))))
      | _ \<Rightarrow> Inl json_err)"

fun dec_jwks :: "json list \<Rightarrow> jwk list \<Rightarrow> error + jwk list" where
  "dec_jwks [] old = Inr []"
| "dec_jwks (v # vs) old =
     res_bind (dec_jwk v (case old of [] \<Rightarrow> zero_jwk | k # r \<Rightarrow> k)) (\<lambda>k.
     res_bind (dec_jwks vs (drop 1 old)) (\<lambda>ks. Inr (k # ks)))"

definition as_jwks :: "json \<Rightarrow> jwk list \<Rightarrow> error + jwk list" where
  "as_jwks v x = (case v of JNull \<Rightarrow> Inr [] | JArr vs \<Rightarrow> dec_jwks vs x | _ \<Rightarrow> Inl json_err)"

section \<open>The key cache\<close>

record jwks_cache =
  jc_keys :: "string \<rightharpoonup> pubkey"
  jc_url :: string
  jc_ca :: "string option"
  jc_lastFetch :: int
  jc_lastRefresh :: int
  jc_ttl :: int
  jc_cooldown :: int

definition second :: int where "second = 10 ^ 9"

definition newJWKSCache :: "string option \<Rightarrow> string \<Rightarrow> jwks_cache" where
  "newJWKSCache ca url =
     \<lparr>jc_keys = Map.empty, jc_url = url, jc_ca = ca, jc_lastFetch = 0, jc_lastRefresh = 0,
      jc_ttl = 3600 * second, jc_cooldown = 60 * second\<rparr>"

definition body_limit :: nat where
  "body_limit = 1024 * 1024"

text \<open>\<open>client.Get\<close> and the reading of the body, shared by discovery and refresh up to their messages.\<close>

definition fetch ::
    "string \<Rightarrow> string \<Rightarrow> string \<Rightarrow> 'w oidc_env \<Rightarrow> string option \<Rightarrow> string \<Rightarrow> 'w \<Rightarrow> (error + string) \<times> 'w" where
  "fetch m_get m_status m_read env ca url w =
     (case e_get env ca url w of
        (Inl e, w) \<Rightarrow> (Inl (Wrap m_get e), w)
      | (Inr r, w) \<Rightarrow>
          (if h_status r \<noteq> 200 then Inl (MsgS m_status (show_nat (nat (h_status r))) [])
           else (case h_read_err r of
               Some e \<Rightarrow> Inl (Wrap m_read e)
             | None \<Rightarrow> Inr (take body_limit (h_body r))), w))"

text \<open>The loop over the keys: later keys with the same id win, keys for other uses and bad keys are skipped.\<close>

fun add_keys :: "'w oidc_env \<Rightarrow> jwk list \<Rightarrow> (string \<rightharpoonup> pubkey) \<Rightarrow> (string \<rightharpoonup> pubkey)" where
  "add_keys env [] m = m"
| "add_keys env (k # ks) m =
     (if jwk_Use k \<noteq> [] \<and> jwk_Use k \<noteq> ''sig'' then add_keys env ks m
      else (case toPublicKey env k of
          Inl e \<Rightarrow> add_keys env ks m
        | Inr p \<Rightarrow> add_keys env ks (m(jwk_Kid k \<mapsto> p))))"

definition refresh :: "'w oidc_env \<Rightarrow> jwks_cache \<Rightarrow> 'w \<Rightarrow> (error option \<times> jwks_cache) \<times> 'w" where
  "refresh env c w =
     (case fetch ''fetch JWKS'' ''JWKS returned '' ''read JWKS'' env (jc_ca c) (jc_url c) w of
        (Inl e, w) \<Rightarrow> ((Some e, c), w)
      | (Inr body, w) \<Rightarrow>
          (case res_bind (json_members_of body) (\<lambda>ms. json_field ''keys'' as_jwks ms []) of
             Inl e \<Rightarrow> ((Some (Wrap ''parse JWKS'' e), c), w)
           | Inr ks \<Rightarrow>
               (case e_now env w of
                  (now, w) \<Rightarrow>
                    ((None, c\<lparr>jc_keys := add_keys env ks Map.empty, jc_lastFetch := now, jc_lastRefresh := now\<rparr>), w))))"

definition getKey :: "'w oidc_env \<Rightarrow> string \<Rightarrow> jwks_cache \<Rightarrow> 'w \<Rightarrow> ((error + pubkey) \<times> jwks_cache) \<times> 'w" where
  "getKey env kid c w =
     (case e_now env w of
        (t1, w) \<Rightarrow>
          (let key = jc_keys c kid; stale = t1 - jc_lastFetch c > jc_ttl c in
           case (key, stale) of
             (Some k, False) \<Rightarrow> ((Inr k, c), w)
           | _ \<Rightarrow>
               (case e_now env w of
                  (t2, w) \<Rightarrow>
                    if t2 - jc_lastRefresh c < jc_cooldown c then
                      ((case key of Some k \<Rightarrow> Inr k
                        | None \<Rightarrow> Inl (MsgQ ''key '' kid '' not found and JWKS refresh on cooldown''), c), w)
                    else (case refresh env c w of
                        ((Some e, c), w) \<Rightarrow>
                          ((case key of Some k \<Rightarrow> Inr k | None \<Rightarrow> Inl (Wrap ''JWKS fetch failed'' e), c), w)
                      | ((None, c), w) \<Rightarrow>
                          ((case jc_keys c kid of
                              None \<Rightarrow> Inl (MsgQ ''key '' kid '' not found in JWKS'')
                            | Some k \<Rightarrow> Inr k, c), w)))))"

section \<open>Signatures\<close>

definition hash_of_alg :: "string \<Rightarrow> hash_alg option" where
  "hash_of_alg alg =
     (if alg = ''RS256'' \<or> alg = ''ES256'' then Some SHA256
      else if alg = ''RS384'' \<or> alg = ''ES384'' then Some SHA384
      else if alg = ''RS512'' \<or> alg = ''ES512'' then Some SHA512
      else None)"

definition verifySignature :: "'w oidc_env \<Rightarrow> string \<Rightarrow> pubkey \<Rightarrow> string \<Rightarrow> string \<Rightarrow> error option" where
  "verifySignature env alg key msg sig =
     (case hash_of_alg alg of
        None \<Rightarrow> Some (MsgS ''unsupported algorithm: '' alg [])
      | Some h \<Rightarrow>
          (let digest = e_hash env h msg in
           (case key of
              RSAKey n e \<Rightarrow>
                if \<not> has_prefix alg ''RS'' then Some (MsgS ''algorithm '' alg '' incompatible with RSA key'')
                else if bit_len n < 2048 then Some (MsgS ''RSA key too small: '' (show_nat (bit_len n)) '' bits'')
                else e_rsa_verify env n e h digest sig
            | ECKey c x y \<Rightarrow>
                if \<not> has_prefix alg ''ES'' then Some (MsgS ''algorithm '' alg '' incompatible with ECDSA key'')
                else if \<not> e_ecdsa_verify env c x y digest sig then Some (Msg ''ECDSA signature invalid'')
                else None)))"

section \<open>Claims\<close>

type_synonym claims = "(string \<times> json) list"

text \<open>A key of the claims map: the last of equal members.\<close>

definition claim :: "claims \<Rightarrow> string \<Rightarrow> json option" where
  "claim cs k = map_of (rev cs) k"

definition claim_string :: "claims \<Rightarrow> string \<Rightarrow> string" where
  "claim_string cs k = (case claim cs k of Some (JStr s) \<Rightarrow> s | _ \<Rightarrow> [])"

definition verifyAudience :: "unicode \<Rightarrow> claims \<Rightarrow> string \<Rightarrow> error option" where
  "verifyAudience uc cs expected =
     (case claim cs ''aud'' of
        Some (JStr v) \<Rightarrow> if v \<noteq> expected then Some (MsgQ ''audience mismatch: got '' v ('', want '' @ go_quote uc expected)) else None
      | Some (JArr vs) \<Rightarrow>
          if list_ex (\<lambda>v. v = JStr expected) vs then None
          else Some (MsgQ ''audience '' expected '' not found in token'')
      | _ \<Rightarrow> Some (Msg ''token missing aud claim''))"

definition wrap_int64 :: "int \<Rightarrow> int" where
  "wrap_int64 n = (n + 2 ^ 63) mod 2 ^ 64 - 2 ^ 63"

text \<open>\<open>time.Unix(n, 0)\<close> in nanoseconds since the year 1.\<close>

definition unix_time :: "int \<Rightarrow> int" where
  "unix_time n = wrap_int64 (n + 62135596800) * second"

record oidc_config =
  oc_Issuer :: string
  oc_Audience :: string
  oc_GroupsClaim :: string
  oc_UsernameClaim :: string
  oc_CAFile :: string

record oidc_provider =
  op_cfg :: oidc_config
  op_jwks :: jwks_cache

text \<open>A difference of times as a \<open>time.Duration\<close>: \<open>Sub\<close> saturates at the bounds of a signed 64-bit integer.\<close>

definition saturate :: "int \<Rightarrow> int" where
  "saturate d = max (- (2 ^ 63)) (min (2 ^ 63 - 1) d)"

text \<open>The times of a token; \<open>time.Since\<close> reads the clock once more for the issue time.\<close>

definition check_times :: "'w oidc_env \<Rightarrow> claims \<Rightarrow> 'w \<Rightarrow> error option \<times> 'w" where
  "check_times env cs w =
     (case e_now env w of
        (now, w) \<Rightarrow>
          (case claim cs ''exp'' of
             Some (JNum x) \<Rightarrow>
               if unix_time (e_int64 env x) < now then (Some (Msg ''token expired''), w)
               else if (case claim cs ''nbf'' of Some (JNum n) \<Rightarrow> unix_time (e_int64 env n) > now | _ \<Rightarrow> False)
               then (Some (Msg ''token not yet valid''), w)
               else (case claim cs ''iat'' of
                   Some (JNum i) \<Rightarrow>
                     (case e_now env w of
                        (t, w) \<Rightarrow>
                          if t - unix_time (e_int64 env i) > 24 * 3600 * second then
                            (case e_now env w of
                               (t, w) \<Rightarrow>
                                 (Some (Msg (''token too old (issued '' @ e_ago env (saturate (t - unix_time (e_int64 env i))) @ '' ago)'')), w))
                          else (None, w))
                 | _ \<Rightarrow> (None, w))
           | _ \<Rightarrow> (Some (Msg ''token missing exp claim''), w)))"

definition parse_claims :: "'w oidc_env \<Rightarrow> string \<Rightarrow> error + claims" where
  "parse_claims env s =
     res_bind (json_members_of s) (\<lambda>ms. if json_floats_ok (e_float env) (JObj ms) then Inr ms else Inl json_err)"

definition parse_header :: "string \<Rightarrow> error + string \<times> string" where
  "parse_header s =
     res_bind (json_members_of s) (\<lambda>ms.
     res_bind (json_field ''alg'' as_string ms []) (\<lambda>alg.
     res_bind (json_field ''kid'' as_string ms []) (\<lambda>kid. Inr (alg, kid))))"

definition verify_claims :: "'w oidc_env \<Rightarrow> oidc_config \<Rightarrow> claims \<Rightarrow> 'w \<Rightarrow> (error + claims) \<times> 'w" where
  "verify_claims env cfg cs w =
     (if claim_string cs ''iss'' \<noteq> oc_Issuer cfg
      then (Inl (MsgQ ''issuer mismatch: got '' (claim_string cs ''iss'') ('', want '' @ go_quote (e_uc env) (oc_Issuer cfg))), w)
      else (case verifyAudience (e_uc env) cs (oc_Audience cfg) of
          Some e \<Rightarrow> (Inl e, w)
        | None \<Rightarrow> (case check_times env cs w of (Some e, w) \<Rightarrow> (Inl e, w) | (None, w) \<Rightarrow> (Inr cs, w))))"

definition verifyToken ::
    "'w oidc_env \<Rightarrow> oidc_provider \<Rightarrow> string \<Rightarrow> 'w \<Rightarrow> ((error + claims) \<times> oidc_provider) \<times> 'w" where
  "verifyToken env p token w =
     (case split_on CHR ''.'' token of
        [hdr, pl, sg] \<Rightarrow>
          (case res_bind (wrap_err ''decode header'' (base64URLDecode hdr)) (\<lambda>h. wrap_err ''parse header'' (parse_header h)) of
             Inl e \<Rightarrow> ((Inl e, p), w)
           | Inr (alg, kid) \<Rightarrow>
               (case getKey env kid (op_jwks p) w of
                  ((r, c), w) \<Rightarrow>
                    let p = p\<lparr>op_jwks := c\<rparr> in
                    (case r of
                       Inl e \<Rightarrow> ((Inl (Wrap ''get signing key'' e), p), w)
                     | Inr key \<Rightarrow>
                         (case wrap_err ''decode signature'' (base64URLDecode sg) of
                            Inl e \<Rightarrow> ((Inl e, p), w)
                          | Inr sig \<Rightarrow>
                              (case verifySignature env alg key (hdr @ ''.'' @ pl) sig of
                                 Some e \<Rightarrow> ((Inl (Wrap ''signature verification failed'' e), p), w)
                               | None \<Rightarrow>
                                   (case res_bind (wrap_err ''decode payload'' (base64URLDecode pl))
                                       (\<lambda>d. wrap_err ''parse claims'' (parse_claims env d)) of
                                      Inl e \<Rightarrow> ((Inl e, p), w)
                                    | Inr cs \<Rightarrow>
                                        (case verify_claims env (op_cfg p) cs w of (r, w) \<Rightarrow> ((r, p), w))))))))
      | _ \<Rightarrow> ((Inl (Msg ''invalid JWT format''), p), w))"

section \<open>Authentication\<close>

fun json_strings :: "json list \<Rightarrow> string list" where
  "json_strings [] = []"
| "json_strings (JStr s # vs) = s # json_strings vs"
| "json_strings (v # vs) = json_strings vs"

definition claim_groups :: "claims \<Rightarrow> string \<Rightarrow> string list" where
  "claim_groups cs k =
     (case claim cs k of
        Some (JArr vs) \<Rightarrow> json_strings vs
      | Some (JStr s) \<Rightarrow> split_on CHR '','' s
      | _ \<Rightarrow> [])"

definition oidc_Authenticate ::
    "'w oidc_env \<Rightarrow> oidc_provider \<Rightarrow> 'x ctx_scheme \<Rightarrow> 'w \<Rightarrow> ((error + identity) \<times> oidc_provider) \<times> 'w" where
  "oidc_Authenticate env p c w =
     (case ctx_metadata c of
        None \<Rightarrow> ((Inl (Msg ''no metadata in context''), p), w)
      | Some md \<Rightarrow>
          (case md ''authorization'' of
             Some (v # vs) \<Rightarrow>
               if bearer v = v then ((Inl (Msg ''authorization header must use Bearer scheme''), p), w)
               else (case verifyToken env p (bearer v) w of
                   ((Inl e, p), w) \<Rightarrow> ((Inl (Wrap ''verify token'' e), p), w)
                 | ((Inr cs, p), w) \<Rightarrow>
                     (let name = claim_string cs (oc_UsernameClaim (op_cfg p)) in
                      ((if name = [] then Inl (MsgS ''token missing '' (oc_UsernameClaim (op_cfg p)) '' claim'')
                        else Inr \<lparr>id_name = name, id_groups = claim_groups cs (oc_GroupsClaim (op_cfg p)),
                          id_meta = [''provider'' \<mapsto> ''oidc'', ''issuer'' \<mapsto> claim_string cs ''iss'']\<rparr>, p), w)))
           | _ \<Rightarrow> ((Inl (Msg ''no authorization header''), p), w)))"

section \<open>Discovery and configuration\<close>

definition cut_before :: "string \<Rightarrow> string \<Rightarrow> string" where
  "cut_before s p = (case index_str s p of Some i \<Rightarrow> take i s | None \<Rightarrow> s)"

definition extractHost :: "string \<Rightarrow> string" where
  "extractHost url =
     (let s = (case index_str url ''://'' of Some i \<Rightarrow> drop (i + 3) url | None \<Rightarrow> url) in
      cut_before (cut_before s ''/'') '':'')"

definition validateJWKSURL :: "unicode \<Rightarrow> string \<Rightarrow> string \<Rightarrow> error option" where
  "validateJWKSURL uc issuer uri =
     (let i = extractHost issuer; j = extractHost uri in
      if i = [] \<or> j = [] then Some (Msg ''cannot parse host from issuer or jwks_uri'')
      else if i \<noteq> j then Some (MsgQ ''jwks_uri host '' j ('' does not match issuer host '' @ go_quote uc i))
      else None)"

definition discoverJWKSURL :: "'w oidc_env \<Rightarrow> string option \<Rightarrow> string \<Rightarrow> 'w \<Rightarrow> (error + string) \<times> 'w" where
  "discoverJWKSURL env ca issuer w =
     (case fetch ''fetch OIDC discovery'' ''OIDC discovery returned '' ''read discovery'' env ca
         (trim_suffix issuer ''/'' @ ''/.well-known/openid-configuration'') w of
        (Inl e, w) \<Rightarrow> (Inl e, w)
      | (Inr body, w) \<Rightarrow>
          (case wrap_err ''parse discovery'' (res_bind (json_members_of body) (\<lambda>ms. json_field ''jwks_uri'' as_string ms [])) of
             Inl e \<Rightarrow> (Inl e, w)
           | Inr uri \<Rightarrow>
               (if uri = [] then Inl (Msg ''discovery missing jwks_uri'')
                else (case validateJWKSURL (e_uc env) issuer uri of Some e \<Rightarrow> Inl e | None \<Rightarrow> Inr uri), w)))"

definition parse_oidc_config :: "string option \<Rightarrow> error + oidc_config" where
  "parse_oidc_config raw =
     (case raw of
        None \<Rightarrow> Inl (Msg ''oidc config required'')
      | Some s \<Rightarrow>
          res_bind (wrap_err ''parse oidc config''
            (res_bind (json_members_of s) (\<lambda>ms.
             res_bind (json_field ''issuer'' as_string ms []) (\<lambda>i.
             res_bind (json_field ''audience'' as_string ms []) (\<lambda>a.
             res_bind (json_field ''groups_claim'' as_string ms []) (\<lambda>g.
             res_bind (json_field ''username_claim'' as_string ms []) (\<lambda>u.
             res_bind (json_field ''ca_file'' as_string ms []) (\<lambda>ca.
               Inr \<lparr>oc_Issuer = i, oc_Audience = a, oc_GroupsClaim = g, oc_UsernameClaim = u, oc_CAFile = ca\<rparr>))))))))
          (\<lambda>c.
            if oc_Issuer c = [] then Inl (Msg ''oidc issuer required'')
            else if oc_Audience c = [] then Inl (Msg ''oidc audience required'')
            else Inr (c\<lparr>oc_GroupsClaim := (if oc_GroupsClaim c = [] then ''groups'' else oc_GroupsClaim c),
                oc_UsernameClaim := (if oc_UsernameClaim c = [] then ''sub'' else oc_UsernameClaim c)\<rparr>)))"

definition oidc_New :: "'w oidc_env \<Rightarrow> string option \<Rightarrow> 'w \<Rightarrow> (error + oidc_provider) \<times> 'w" where
  "oidc_New env raw w =
     (case parse_oidc_config raw of
        Inl e \<Rightarrow> (Inl e, w)
      | Inr cfg \<Rightarrow>
          (case (if oc_CAFile cfg = [] then (Inr None, w)
                 else (case e_read_file env (oc_CAFile cfg) w of
                     (Inl e, w) \<Rightarrow> (Inl (Wrap ''read OIDC CA file'' e), w)
                   | (Inr pem, w) \<Rightarrow>
                       (if e_pool_ok env pem then Inr (Some pem)
                        else Inl (MsgS ''no valid certificates in '' (oc_CAFile cfg) []), w))) of
             (Inl e, w) \<Rightarrow> (Inl e, w)
           | (Inr ca, w) \<Rightarrow>
               (case discoverJWKSURL env ca (oc_Issuer cfg) w of
                  (Inl e, w) \<Rightarrow> (Inl (Wrap ''discover JWKS'' e), w)
                | (Inr url, w) \<Rightarrow> (Inr \<lparr>op_cfg = cfg, op_jwks = newJWKSCache ca url\<rparr>, w))))"

section \<open>The cache\<close>

text \<open>Every EC key of the cache passed the check that its point is on its curve.\<close>

definition keys_ok :: "'w oidc_env \<Rightarrow> (string \<rightharpoonup> pubkey) \<Rightarrow> bool" where
  "keys_ok env m \<longleftrightarrow> (\<forall>kid cv x y. m kid = Some (ECKey cv x y) \<longrightarrow> e_on_curve env cv x y = None)"

definition cache_ok :: "'w oidc_env \<Rightarrow> jwks_cache \<Rightarrow> bool" where
  "cache_ok env c \<longleftrightarrow> keys_ok env (jc_keys c)"

lemma toPublicKey_on_curve: "toPublicKey env k = Inr (ECKey cv x y) \<Longrightarrow> e_on_curve env cv x y = None"
  by (auto simp: toPublicKey_def toRSAPublicKey_def toECPublicKey_def res_bind_Inr_iff Let_def
      split: if_splits option.splits)

lemma keys_ok_update: "keys_ok env m \<Longrightarrow> toPublicKey env k = Inr q \<Longrightarrow> keys_ok env (m(kid \<mapsto> q))"
  using toPublicKey_on_curve by (auto simp: keys_ok_def)

lemma keys_ok_empty [simp]: "keys_ok env Map.empty"
  by (simp add: keys_ok_def)

lemma add_keys_ok: "keys_ok env m \<Longrightarrow> keys_ok env (add_keys env ks m)"
  by (induction env ks m rule: add_keys.induct) (auto split: sum.split intro: keys_ok_update)

lemma refresh_ok: "refresh env c w = ((e, c'), w') \<Longrightarrow> cache_ok env c \<Longrightarrow> cache_ok env c'"
  by (auto simp: refresh_def cache_ok_def add_keys_ok split: prod.splits sum.splits)

lemma refresh_failed: "refresh env c w = ((Some e, c'), w') \<Longrightarrow> c' = c"
  by (auto simp: refresh_def split: prod.splits sum.splits)

lemma getKey_cases:
  assumes "getKey env kid c w = ((r, c'), w')"
  obtains (hit) t k w1 where "e_now env w = (t, w1)" "jc_keys c kid = Some k" "\<not> t - jc_lastFetch c > jc_ttl c"
      "r = Inr k" "c' = c" "w' = w1"
  | (cooling) t w1 u w2 where "e_now env w = (t, w1)" "e_now env w1 = (u, w2)" "u - jc_lastRefresh c < jc_cooldown c"
      "c' = c" "w' = w2" "\<And>k. r = Inr k \<longleftrightarrow> jc_keys c kid = Some k"
  | (failed) t w1 u w2 e where "e_now env w = (t, w1)" "e_now env w1 = (u, w2)" "\<not> u - jc_lastRefresh c < jc_cooldown c"
      "refresh env c w2 = ((Some e, c), w')" "c' = c" "\<And>k. r = Inr k \<longleftrightarrow> jc_keys c kid = Some k"
  | (fresh) t w1 u w2 where "e_now env w = (t, w1)" "e_now env w1 = (u, w2)" "\<not> u - jc_lastRefresh c < jc_cooldown c"
      "refresh env c w2 = ((None, c'), w')" "\<And>k. r = Inr k \<longleftrightarrow> jc_keys c' kid = Some k"
proof -
  obtain t w1 where n1: "e_now env w = (t, w1)" by fastforce
  obtain u w2 where n2: "e_now env w1 = (u, w2)" by fastforce
  show thesis
  proof (cases "jc_keys c kid \<noteq> None \<and> \<not> t - jc_lastFetch c > jc_ttl c")
    case True
    then obtain k where k: "jc_keys c kid = Some k" "\<not> t - jc_lastFetch c > jc_ttl c" by blast
    then have "getKey env kid c w = ((Inr k, c), w1)" by (simp add: getKey_def Let_def n1)
    with assms have "r = Inr k" "c' = c" "w' = w1" by auto
    then show thesis by (rule hit[OF n1 k])
  next
    case False
    define rest where "rest = (if u - jc_lastRefresh c < jc_cooldown c then
        ((case jc_keys c kid of Some k \<Rightarrow> Inr k
          | None \<Rightarrow> Inl (MsgQ ''key '' kid '' not found and JWKS refresh on cooldown''), c), w2)
      else (case refresh env c w2 of
          ((Some e, d), w) \<Rightarrow> ((case jc_keys c kid of Some k \<Rightarrow> Inr k | None \<Rightarrow> Inl (Wrap ''JWKS fetch failed'' e), d), w)
        | ((None, d), w) \<Rightarrow> ((case jc_keys d kid of None \<Rightarrow> Inl (MsgQ ''key '' kid '' not found in JWKS'') | Some k \<Rightarrow> Inr k, d), w)))"
    have "getKey env kid c w = rest"
    proof (cases "jc_keys c kid")
      case None
      then show ?thesis by (simp add: getKey_def Let_def rest_def n1 n2 split: prod.split option.split)
    next
      case (Some k)
      with False have "(t - jc_lastFetch c > jc_ttl c) = True" by simp
      with Some show ?thesis by (simp only: getKey_def Let_def rest_def n1 n2 prod.case option.case bool.case)
    qed
    with assms have r: "rest = ((r, c'), w')" by simp
    show thesis
    proof (cases "u - jc_lastRefresh c < jc_cooldown c")
      case True
      with r have "c' = c" "w' = w2" "r = Inr k \<longleftrightarrow> jc_keys c kid = Some k" for k
        by (auto simp: rest_def split: option.splits)
      then show thesis by (rule cooling[OF n1 n2 True])
    next
      case f: False
      obtain e d v where rf: "refresh env c w2 = ((e, d), v)" by (metis prod.collapse)
      show thesis
      proof (cases e)
        case None
        with r rf f have "refresh env c w2 = ((None, c'), w')" "r = Inr k \<longleftrightarrow> jc_keys c' kid = Some k" for k
          by (auto simp: rest_def split: option.splits)
        then show thesis by (rule fresh[OF n1 n2 f])
      next
        case (Some x)
        then have "d = c" using rf refresh_failed[of env c w2 x d v] by simp
        with Some r rf f have "refresh env c w2 = ((Some x, c), w')" "c' = c" "r = Inr k \<longleftrightarrow> jc_keys c kid = Some k" for k
          by (auto simp: rest_def split: option.splits)
        then show thesis by (rule failed[OF n1 n2 f])
      qed
    qed
  qed
qed

lemma getKey_sound: "getKey env kid c w = ((Inr k, c'), w') \<Longrightarrow> jc_keys c' kid = Some k"
  by (erule getKey_cases) auto

lemma getKey_ok: "getKey env kid c w = ((r, c'), w') \<Longrightarrow> cache_ok env c \<Longrightarrow> cache_ok env c'"
  by (erule getKey_cases) (auto dest: refresh_ok)

section \<open>Properties\<close>

text \<open>What the signature of a token must be.\<close>

definition signed_by :: "'w oidc_env \<Rightarrow> pubkey \<Rightarrow> string \<Rightarrow> string \<Rightarrow> string \<Rightarrow> bool" where
  "signed_by env key alg msg sig \<longleftrightarrow>
     (\<exists>h. hash_of_alg alg = Some h \<and>
       (case key of
          RSAKey n e \<Rightarrow> has_prefix alg ''RS'' \<and> 2048 \<le> bit_len n \<and> e_rsa_verify env n e h (e_hash env h msg) sig = None
        | ECKey c x y \<Rightarrow> has_prefix alg ''ES'' \<and> e_ecdsa_verify env c x y (e_hash env h msg) sig))"

lemma verifySignature_iff: "verifySignature env alg key msg sig = None \<longleftrightarrow> signed_by env key alg msg sig"
  by (auto simp: verifySignature_def signed_by_def Let_def not_less split: option.splits pubkey.splits if_splits)

lemma check_times_None:
  assumes "check_times env cs w = (None, w')"
  shows "\<exists>x now v. claim cs ''exp'' = Some (JNum x) \<and> e_now env w = (now, v) \<and> now \<le> unix_time (e_int64 env x)
    \<and> (\<forall>n. claim cs ''nbf'' = Some (JNum n) \<longrightarrow> unix_time (e_int64 env n) \<le> now)
    \<and> (\<forall>i. claim cs ''iat'' = Some (JNum i) \<longrightarrow> fst (e_now env v) - unix_time (e_int64 env i) \<le> 24 * 3600 * second)"
proof -
  obtain now v where n: "e_now env w = (now, v)" by fastforce
  obtain x where x: "claim cs ''exp'' = Some (JNum x)"
    using assms by (auto simp: check_times_def n split: option.splits json.splits)
  show ?thesis
    using assms by (auto simp: check_times_def n x split: option.splits json.splits if_splits prod.splits)
qed

lemma verifyAudience_None:
  "verifyAudience uc cs a = None \<longleftrightarrow>
     claim cs ''aud'' = Some (JStr a) \<or> (\<exists>vs. claim cs ''aud'' = Some (JArr vs) \<and> JStr a \<in> set vs)"
  by (auto simp: verifyAudience_def list_ex_iff split: option.splits json.splits if_splits)


text \<open>
  while the cache cools down after a refresh, looking up a key makes no request, whatever the provider would
  answer; but a failed refresh does not start the cooldown, so while the provider is down every token with an
  unknown key id causes another request. A key already in the cache is still used then, however stale.
\<close>

theorem jwks_fetch_limited:
  assumes "e_now env w = (t, w1)" "e_now env w1 = (u, w2)"
  shows "(if u - jc_lastRefresh c < jc_cooldown c
      then getKey (env\<lparr>e_get := g\<rparr>) kid c w = getKey env kid c w
      else \<forall>e v c'. refresh env c w2 = ((Some e, c'), v) \<longrightarrow>
        (if jc_keys c kid = None then getKey env kid c w = ((Inl (Wrap ''JWKS fetch failed'' e), c), v)
         else jc_lastFetch c + jc_ttl c < t \<longrightarrow> getKey env kid c w = ((Inr (the (jc_keys c kid)), c), v)))"
proof (cases "u - jc_lastRefresh c < jc_cooldown c")
  case True
  then show ?thesis using assms by (simp add: getKey_def Let_def split: option.split bool.split)
next
  case False
  have "getKey env kid c w = (if jc_keys c kid = None then ((Inl (Wrap ''JWKS fetch failed'' e), c), v)
      else ((Inr (the (jc_keys c kid)), c), v))"
    if "refresh env c w2 = ((Some e, c'), v)" "jc_keys c kid = None \<or> jc_lastFetch c + jc_ttl c < t" for e v c'
    using that False assms refresh_failed[OF that(1)]
    by (cases "jc_keys c kid") (auto simp: getKey_def Let_def split: bool.split)
  then show ?thesis using False by auto
qed

lemma cut_before_append: "c \<notin> set p \<Longrightarrow> cut_before (p @ r) [c] = p @ cut_before r [c]"
proof -
  assume "c \<notin> set p"
  then have "index_str (p @ r) [c] = map_option ((+) (length p)) (index_str r [c])"
  proof (induction p)
    case (Cons x p)
    then show ?case
      by (simp add: index_str.simps[of "x # p @ r"] has_prefix_def option.map_comp comp_def)
  next
    case Nil
    show ?case by (cases "index_str r [c]") simp_all
  qed
  then show ?thesis by (cases "index_str r [c]") (simp_all add: cut_before_def)
qed

text \<open>
  the check that the signing keys come from the issuer's host can be evaded: extractHost cuts at the first colon
  and knows no user information, so a key URL \<open>https://<issuer>:x@<other>/...\<close> passes although its host is the other
  one. The scheme is not compared either.
\<close>

theorem jwks_host_bypass:
  assumes "h \<noteq> []" "CHR '':'' \<notin> set h" "CHR ''/'' \<notin> set h"
  shows "validateJWKSURL uc (''https://'' @ h) (''http://'' @ h @ '':x@'' @ other @ ''/jwks'') = None"
proof -
  have "index_str (''https://'' @ r) ''://'' = Some 5" "index_str (''http://'' @ r) ''://'' = Some 4" for r
    by (simp_all add: index_str.simps has_prefix_def)
  note scheme = this
  have "cut_before h ''/'' = h" "cut_before h '':'' = h"
    using assms cut_before_append[of "CHR ''/''" h "[]"] cut_before_append[of "CHR '':''" h "[]"]
    by (simp_all add: cut_before_def index_str.simps[of "[]"] has_prefix_def)
  then have "extractHost (''https://'' @ h) = h"
    using scheme(1)[of h] by (simp add: extractHost_def Let_def)
  moreover have "cut_before (h @ '':x@'' @ other @ ''/jwks'') ''/'' = h @ CHR '':'' # cut_before (''x@'' @ other @ ''/jwks'') ''/''"
    using cut_before_append[of "CHR ''/''" "h @ '':''" "''x@'' @ other @ ''/jwks''"] assms(3) by simp
  moreover have "cut_before (h @ CHR '':'' # r) '':'' = h" for r
    using cut_before_append[of "CHR '':''" h "CHR '':'' # r"] assms(2)
    by (simp add: cut_before_def index_str.simps[of "CHR '':'' # r"] has_prefix_def)
  ultimately have "extractHost (''http://'' @ h @ '':x@'' @ other @ ''/jwks'') = h"
    using scheme(2)[of "h @ '':x@'' @ other @ ''/jwks''"] by (simp add: extractHost_def Let_def)
  with \<open>extractHost (''https://'' @ h) = h\<close> assms(1) show ?thesis by (simp add: validateJWKSURL_def)
qed

text \<open>
  the signing keys of a provider are always points of their curve: the empty cache of a new provider satisfies
  this, and verifying a token keeps it, whatever the key server sends.
\<close>

theorem jwks_keys_on_curve:
  "(\<forall>p w'. oidc_New env raw w = (Inr p, w') \<longrightarrow> cache_ok env (op_jwks p))
   \<and> (\<forall>p token v r p' v'. cache_ok env (op_jwks p) \<and> verifyToken env p token v = ((r, p'), v') \<longrightarrow>
        cache_ok env (op_jwks p') \<and> op_cfg p' = op_cfg p)"
proof (intro conjI allI impI)
  show "cache_ok env (op_jwks p)" if "oidc_New env raw w = (Inr p, w')" for p w'
    using that by (auto simp: oidc_New_def newJWKSCache_def cache_ok_def split: sum.splits prod.splits if_splits)
  fix p token v r p' v'
  assume a: "cache_ok env (op_jwks p) \<and> verifyToken env p token v = ((r, p'), v')"
  have "p' = p \<or> (\<exists>kid k c u. getKey env kid (op_jwks p) v = ((k, c), u) \<and> p' = p\<lparr>op_jwks := c\<rparr>)"
    using a unfolding verifyToken_def Let_def
    by (auto split: list.splits sum.splits prod.splits option.splits)
  with a show "cache_ok env (op_jwks p')" "op_cfg p' = op_cfg p" by (auto dest: getKey_ok)
qed

section \<open>A concrete provider\<close>

definition test_env :: "bool \<Rightarrow> int oidc_env" where
  "test_env ok = \<lparr>e_get = (\<lambda>ca url w. (if ok then Inr \<lparr>h_status = 200, h_body = ''{}'', h_read_err = None\<rparr> else Inl (Ext ''down''), w + 1)),
     e_now = (\<lambda>w. (62135596805 * second, w)), e_read_file = (\<lambda>p w. (Inl ErrNotExist, w)), e_pool_ok = (\<lambda>s. True),
     e_float = (\<lambda>s. Some s), e_int64 = (\<lambda>s. int (digits_val 0 s)), e_hash = (\<lambda>h s. s),
     e_rsa_verify = (\<lambda>n e h d s. Some (Ext ''rsa'')), e_ecdsa_verify = (\<lambda>c x y d s. s = ''x''),
     e_uc = \<lparr>uc_print = (\<lambda>n. True), uc_lower = (\<lambda>n. n)\<rparr>, e_ago = (\<lambda>d. []), e_on_curve = (\<lambda>c x y. None)\<rparr>"

definition test_provider :: oidc_provider where
  "test_provider = \<lparr>op_cfg = \<lparr>oc_Issuer = ''i'', oc_Audience = ''a'', oc_GroupsClaim = ''groups'', oc_UsernameClaim = ''sub'',
       oc_CAFile = []\<rparr>,
     op_jwks = (newJWKSCache None ''https://i/jwks'')\<lparr>jc_keys := [''k'' \<mapsto> ECKey P256 1 2], jc_lastFetch := 62135596804 * second\<rparr>\<rparr>"

text \<open>The header \<open>{"alg":"ES256","kid":"k"}\<close>, the claims \<open>{"iss":"i","aud":"a","exp":9}\<close> and the signature \<open>x\<close>.\<close>

definition test_jwt :: string where
  "test_jwt = ''eyJhbGciOiJFUzI1NiIsImtpZCI6ImsifQ.eyJpc3MiOiJpIiwiYXVkIjoiYSIsImV4cCI6OX0.eA''"

lemma test_verify:
  "case verifyToken (test_env True) test_provider test_jwt 0 of ((r, p), w) \<Rightarrow>
     r = Inr [(''iss'', JStr ''i''), (''aud'', JStr ''a''), (''exp'', JNum ''9'')] \<and> jc_keys (op_jwks p) ''k'' = Some (ECKey P256 1 2)"
  by code_simp


theorem jwks_fetch_limited_witness:
  "getKey (test_env False) ''other'' (op_jwks test_provider) 0
     = ((Inl (Wrap ''JWKS fetch failed'' (Wrap ''fetch JWKS'' (Ext ''down''))), op_jwks test_provider), 1)"
proof -
  have n: "e_now (test_env False) 0 = (62135596805 * second, 0)" by (simp add: test_env_def)
  have r: "refresh (test_env False) (op_jwks test_provider) 0 = ((Some (Wrap ''fetch JWKS'' (Ext ''down'')), op_jwks test_provider), 1)"
    by (simp add: refresh_def fetch_def test_env_def)
  show ?thesis
    using jwks_fetch_limited[OF n n, of "op_jwks test_provider" undefined "''other''"] r
    by (simp add: test_provider_def newJWKSCache_def second_def)
qed

theorem jwks_host_bypass_witness:
  "validateJWKSURL \<lparr>uc_print = (\<lambda>n. True), uc_lower = (\<lambda>n. n)\<rparr> ''https://idp.example'' ''http://idp.example:x@evil.example/jwks'' = None"
  using jwks_host_bypass[where h = "''idp.example''" and other = "''evil.example''"] by simp

theorem jwks_keys_on_curve_witness:
  "cache_ok (test_env True) (op_jwks (snd (fst (verifyToken (test_env True) test_provider test_jwt 0))))"
proof -
  have "cache_ok (test_env True) (op_jwks test_provider)"
    by (simp add: cache_ok_def keys_ok_def test_env_def)
  then show ?thesis
    using jwks_keys_on_curve[of "test_env True" undefined undefined] by (metis prod.collapse)
qed

end
