(* ===== verification/Cedar.thy ===== *)
theory Cedar
  imports Authz Files Json
begin

text \<open>
  Package \<open>internal/authz/cedar\<close>: the authorizer over Cedar policies. Modelled are the configuration, the loading of
  the policy files with the ids given to their policies, the entities and the request built for a call, and the
  decision. The Cedar library, that is its parser and its evaluator, is the record \<open>cedar_lib\<close>; the policies of a
  parsed file come in the order in which the library iterates over them.
\<close>

section \<open>The library's interface\<close>

record entity_uid =
  eu_type :: string
  eu_id :: string

definition NewEntityUID :: "string \<Rightarrow> string \<Rightarrow> entity_uid" where
  "NewEntityUID t i = \<lparr>eu_type = t, eu_id = i\<rparr>"

text \<open>An entity is given by its parents; entities have no attributes here, and the request's context is empty.\<close>

type_synonym entities = "entity_uid \<rightharpoonup> entity_uid set"

record cedar_request =
  cq_principal :: entity_uid
  cq_action :: entity_uid
  cq_resource :: entity_uid

type_synonym 'p policy_set = "string \<rightharpoonup> 'p"

record 'p cedar_lib =
  cl_parse :: "string \<Rightarrow> string \<Rightarrow> error + 'p list"
  cl_authorize :: "'p policy_set \<Rightarrow> entities \<Rightarrow> cedar_request \<Rightarrow> bool"

section \<open>Loading\<close>

definition defaultPolicyDir :: string where
  "defaultPolicyDir = ''/var/lib/hummingbird/policies''"

text \<open>The policies of one file are added under \<open><file>:<count>\<close>, where the count runs over all files.\<close>

fun add_policies :: "string \<Rightarrow> 'p list \<Rightarrow> 'p policy_set \<times> nat \<Rightarrow> 'p policy_set \<times> nat" where
  "add_policies f [] (m, n) = (m, n)"
| "add_policies f (p # ps) (m, n) = add_policies f ps (m(f @ '':'' @ show_nat n \<mapsto> p), n + 1)"

fun load_entries ::
    "'p cedar_lib \<Rightarrow> string \<Rightarrow> (string \<times> bool) list \<Rightarrow> 'p policy_set \<times> nat \<Rightarrow> fs \<Rightarrow> (error + 'p policy_set) \<times> fs" where
  "load_entries lib dir [] (m, n) s = (Inr m, s)"
| "load_entries lib dir ((name, d) # es) (m, n) s =
     (if d \<or> \<not> has_suffix name ''.cedar'' then load_entries lib dir es (m, n) s
      else (case ReadFile (path_join dir name) s of
          (Inl e, s) \<Rightarrow> (Inl (Wrap (''read '' @ path_join dir name) e), s)
        | (Inr data, s) \<Rightarrow>
            (case cl_parse lib name data of
               Inl e \<Rightarrow> (Inl (Wrap (''parse '' @ path_join dir name) e), s)
             | Inr ps \<Rightarrow> load_entries lib dir es (add_policies name ps (m, n)) s)))"

definition loadPolicies :: "'p cedar_lib \<Rightarrow> string \<Rightarrow> fs \<Rightarrow> (error + 'p policy_set) \<times> fs" where
  "loadPolicies lib dir s =
     (case ReadDir dir s of
        (Inl e, s) \<Rightarrow> (if IsNotExist e then Inr Map.empty else Inl (Wrap ''read policy dir'' e), s)
      | (Inr entries, s) \<Rightarrow> load_entries lib dir entries (Map.empty, 0) s)"

definition cedar_policy_dir :: "string option \<Rightarrow> error + string" where
  "cedar_policy_dir cfg =
     res_bind (case cfg of
         None \<Rightarrow> Inr []
       | Some raw \<Rightarrow> wrap_err ''parse cedar config''
           (res_bind (json_members_of raw) (\<lambda>ms. json_field ''policy_dir'' as_string ms [])))
       (\<lambda>d. Inr (if d = [] then defaultPolicyDir else d))"

section \<open>Decisions\<close>

definition rpc_name :: "string \<Rightarrow> string" where
  "rpc_name a = rev (takeWhile (\<lambda>c. c \<noteq> CHR ''/'') (rev a))"

definition buildEntities :: "identity \<Rightarrow> entities" where
  "buildEntities i =
     (let gs = map (NewEntityUID ''Group'') (id_groups i) in
      (fold (\<lambda>g m. m(g \<mapsto> {})) gs Map.empty)(NewEntityUID ''User'' (id_name i) \<mapsto> set gs))"

definition cedar_request_of :: "identity \<Rightarrow> string \<Rightarrow> resource \<Rightarrow> cedar_request" where
  "cedar_request_of i a r =
     \<lparr>cq_principal = NewEntityUID ''User'' (id_name i), cq_action = NewEntityUID ''Action'' (rpc_name a),
      cq_resource = NewEntityUID (r_type r) (r_id r)\<rparr>"

definition cedar_Authorize :: "'p cedar_lib \<Rightarrow> 'p policy_set \<Rightarrow> ctx \<Rightarrow> identity \<Rightarrow> string \<Rightarrow> resource \<Rightarrow> error + int" where
  "cedar_Authorize lib ps c i a r =
     Inr (if cl_authorize lib ps (buildEntities i) (cedar_request_of i a r) then Allow else Deny)"

definition cedar_provider :: "'p cedar_lib \<Rightarrow> 'p policy_set \<Rightarrow> authorizer" where
  "cedar_provider lib ps = \<lparr>az_name = ''cedar'', authorize = cedar_Authorize lib ps\<rparr>"

definition cedar_New :: "'p cedar_lib \<Rightarrow> string option \<Rightarrow> fs \<Rightarrow> (error + authorizer) \<times> fs" where
  "cedar_New lib cfg s =
     (case cedar_policy_dir cfg of
        Inl e \<Rightarrow> (Inl e, s)
      | Inr dir \<Rightarrow>
          (case loadPolicies lib dir s of
             (Inl e, s) \<Rightarrow> (Inl (Wrap ''load policies'' e), s)
           | (Inr ps, s) \<Rightarrow> (Inr (cedar_provider lib ps), s)))"

section \<open>What is loaded\<close>

lemma numbered_inject: "f @ '':'' @ show_nat i = g @ '':'' @ show_nat j \<Longrightarrow> i = j"
proof -
  have cut: "takeWhile (\<lambda>c. c \<noteq> CHR '':'') (rev (f @ '':'' @ show_nat i)) = rev (show_nat i)" for f i
  proof -
    have "CHR '':'' \<notin> set (show_nat i)"
      using show_nat_digits[of "CHR '':''" i] by (auto simp: is_digit_def byte_def)
    then have "\<forall>c\<in>set (rev (show_nat i)). c \<noteq> CHR '':''" by auto
    then show ?thesis using takeWhile_append_stop[of "rev (show_nat i)" "\<lambda>c. c \<noteq> CHR '':''" "CHR '':''" "rev f"] by simp
  qed
  assume "f @ '':'' @ show_nat i = g @ '':'' @ show_nat j"
  then have "show_nat i = show_nat j" using cut[of f i] cut[of g j] by simp
  then show "i = j" by (metis digits_val_show)
qed

text \<open>The policies added so far, in order, under pairwise different ids whose numbers are their positions.\<close>

definition filed :: "'p list \<Rightarrow> 'p policy_set \<times> nat \<Rightarrow> bool" where
  "filed qs x \<longleftrightarrow> (\<exists>ids. fst x = map_of (zip ids qs) \<and> length ids = length qs \<and> snd x = length qs \<and> distinct ids
     \<and> (\<forall>i<length qs. \<exists>f. ids ! i = f @ '':'' @ show_nat i))"

lemma filed_Nil: "filed [] (Map.empty, 0)"
  by (simp add: filed_def)

lemma filed_snoc:
  assumes "filed qs (m, n)"
  shows "filed (qs @ [p]) (m(f @ '':'' @ show_nat n \<mapsto> p), n + 1)"
proof -
  obtain ids where ids: "m = map_of (zip ids qs)" "length ids = length qs" "n = length qs" "distinct ids"
    "\<forall>i<length qs. \<exists>f. ids ! i = f @ '':'' @ show_nat i"
    using assms by (auto simp: filed_def)
  let ?x = "f @ '':'' @ show_nat n"
  have new: "?x \<notin> set ids"
  proof
    assume "?x \<in> set ids"
    then obtain i where i: "i < length qs" "ids ! i = ?x" using ids(2) by (metis in_set_conv_nth)
    then obtain g where "ids ! i = g @ '':'' @ show_nat i" using ids(5) by blast
    with i have "g @ '':'' @ show_nat i = f @ '':'' @ show_nat n" by simp
    from numbered_inject[OF this] i(1) ids(3) show False by simp
  qed
  have "map_of (zip (ids @ [?x]) (qs @ [p])) = m(?x \<mapsto> p)"
  proof -
    have "m ?x = None" using ids(1,2) new by (simp add: map_of_zip_is_None)
    then have "[?x \<mapsto> p] ++ m = m(?x \<mapsto> p)" by (auto simp: map_add_def split: option.split)
    with ids(1,2) show ?thesis by simp
  qed
  moreover have "\<forall>i<length (qs @ [p]). \<exists>f. (ids @ [?x]) ! i = f @ '':'' @ show_nat i"
    using ids(2,3,5) by (auto simp: nth_append less_Suc_eq)
  ultimately show ?thesis
    unfolding filed_def using ids(2,3,4) new by (intro exI[of _ "ids @ [?x]"]) auto
qed

lemma filed_add: "filed qs (m, n) \<Longrightarrow> filed (qs @ ps) (add_policies f ps (m, n))"
proof (induction ps arbitrary: qs m n)
  case (Cons p ps)
  from Cons.IH[OF filed_snoc[OF Cons.prems, of p f]] show ?case by (simp del: fun_upd_apply)
qed simp

text \<open>The policies of the files that are loaded, in the order of the directory.\<close>

definition file_policies :: "'p cedar_lib \<Rightarrow> string \<Rightarrow> fs \<Rightarrow> string \<times> bool \<Rightarrow> 'p list" where
  "file_policies lib dir s e =
     (if snd e \<or> \<not> has_suffix (fst e) ''.cedar'' then []
      else (case file_at s (path_join dir (fst e)) of
          None \<Rightarrow> []
        | Some d \<Rightarrow> (case cl_parse lib (fst e) d of Inl x \<Rightarrow> [] | Inr ps \<Rightarrow> ps)))"

lemma file_policies_tick [simp]: "file_policies lib dir (snd (ReadFile p s)) = file_policies lib dir s"
  by (simp add: fun_eq_iff file_policies_def ReadFile_def)

lemma load_entries_filed:
  "load_entries lib dir es x s = (Inr m, s') \<Longrightarrow> filed qs x \<Longrightarrow>
     \<exists>n. filed (qs @ concat (map (file_policies lib dir s) es)) (m, n)"
proof (induction es arbitrary: x s qs)
  case Nil
  then show ?case by (cases x) auto
next
  case (Cons e es)
  obtain name d where e: "e = (name, d)" by fastforce
  obtain k n where x: "x = (k, n)" by fastforce
  show ?case
  proof (cases "d \<or> \<not> has_suffix name ''.cedar''")
    case True
    with Cons.prems(1) have "load_entries lib dir es x s = (Inr m, s')" by (simp add: e x)
    from Cons.IH[OF this Cons.prems(2)] True show ?thesis by (simp add: e file_policies_def)
  next
    case False
    obtain data t where rd: "ReadFile (path_join dir name) s = (Inr data, t)"
      using Cons.prems(1) False by (auto simp: e x split: prod.splits sum.splits)
    obtain ps where ps: "cl_parse lib name data = Inr ps"
      using Cons.prems(1) False rd by (auto simp: e x split: sum.splits)
    have fp: "file_policies lib dir s e = ps"
      using False read_done[OF rd] ps by (simp add: e file_policies_def)
    have t: "file_policies lib dir t = file_policies lib dir s"
      using file_policies_tick[of lib dir "path_join dir name" s] rd by simp
    have l: "load_entries lib dir es (add_policies name ps x) t = (Inr m, s')"
      using Cons.prems(1) False rd ps by (simp add: e x)
    have "filed (qs @ ps) (add_policies name ps x)"
      using filed_add Cons.prems(2) by (simp add: x)
    from Cons.IH[OF l this] show ?thesis using fp t by simp
  qed
qed

lemma load_entries_checked:
  "load_entries lib dir es x s = (Inr m, s') \<Longrightarrow> (n, False) \<in> set es \<Longrightarrow> has_suffix n ''.cedar'' \<Longrightarrow>
     \<exists>d ps. file_at s (path_join dir n) = Some d \<and> cl_parse lib n d = Inr ps"
proof (induction es arbitrary: x s)
  case (Cons e es)
  obtain name d where e: "e = (name, d)" by fastforce
  obtain k c where x: "x = (k, c)" by fastforce
  show ?case
  proof (cases "d \<or> \<not> has_suffix name ''.cedar''")
    case True
    with Cons show ?thesis by (auto simp: e x)
  next
    case False
    obtain data t where rd: "ReadFile (path_join dir name) s = (Inr data, t)"
      using Cons.prems(1) False by (auto simp: e x split: prod.splits sum.splits)
    obtain ps where ps: "cl_parse lib name data = Inr ps"
      using Cons.prems(1) False rd by (auto simp: e x split: sum.splits)
    have l: "load_entries lib dir es (add_policies name ps x) t = (Inr m, s')"
      using Cons.prems(1) False rd ps by (simp add: e x)
    have "file_at t p = file_at s p" for p
      using rd by (metis ReadFile_def snd_conv tick_simps(4))
    with Cons.IH[OF l _ Cons.prems(3)] Cons.prems(2) read_done[OF rd] ps show ?thesis by (auto simp: e)
  qed
qed simp

section \<open>Properties\<close>

text \<open>
  C30: a provider is created only if every policy file of the directory could be read and parsed, and then its set
  holds every policy of every file, none overwritten by another: the ids made from file names and the running
  count are pairwise different. A file that cannot be parsed keeps the agent from starting instead of leaving a
  forbid policy out.
\<close>

theorem cedar_loads_every_policy:
  assumes "ReadDir dir s = (Inr es, t)" "loadPolicies lib dir s = (Inr m, s')"
  shows "\<exists>ids. let ps = concat (map (file_policies lib dir s) es) in
      m = map_of (zip ids ps) \<and> length ids = length ps \<and> distinct ids \<and> ran m = set ps
      \<and> (\<forall>n. (n, False) \<in> set es \<and> has_suffix n ''.cedar'' \<longrightarrow>
            (\<exists>d ps. file_at s (path_join dir n) = Some d \<and> cl_parse lib n d = Inr ps))"
proof -
  let ?ps = "concat (map (file_policies lib dir s) es)"
  have t: "t = tick s" using assms(1) by (auto simp: ReadDir_def)
  have l: "load_entries lib dir es (Map.empty, 0) t = (Inr m, s')"
    using assms by (simp add: loadPolicies_def)
  have "file_policies lib dir t = file_policies lib dir s" by (simp add: t fun_eq_iff file_policies_def)
  with load_entries_filed[OF l filed_Nil] obtain ids where
    ids: "m = map_of (zip ids ?ps)" "length ids = length ?ps" "distinct ids"
    by (auto simp: filed_def)
  moreover have "ran m = set ?ps"
    using ids(2,3) unfolding ids(1) by (subst ran_map_of_zip) simp_all
  moreover have "\<exists>d ps. file_at s (path_join dir n) = Some d \<and> cl_parse lib n d = Inr ps"
    if "(n, False) \<in> set es" "has_suffix n ''.cedar''" for n
    using load_entries_checked[OF l that] by (simp add: t)
  ultimately show ?thesis unfolding Let_def by (intro exI[of _ ids]) blast
qed

text \<open>
  without a policy file, be it that the directory does not exist, everything is denied, provided the library
  denies where no policy permits, as its documentation says.
\<close>

theorem cedar_default_deny:
  assumes "\<And>es q. \<not> cl_authorize lib Map.empty es q"
    and "cedar_policy_dir cfg = Inr dir" "cedar_New lib cfg s = (Inr az, s')"
    and "\<And>es t n. ReadDir dir s = (Inr es, t) \<Longrightarrow> (n, False) \<in> set es \<Longrightarrow> \<not> has_suffix n ''.cedar''"
  shows "authorize az c i a r = Inr Deny"
proof -
  obtain m where az: "az = cedar_provider lib m" and l: "loadPolicies lib dir s = (Inr m, s')"
    using assms(2,3) by (auto simp: cedar_New_def split: prod.splits sum.splits)
  have "m = Map.empty"
  proof (cases "ReadDir dir s")
    case (Pair x t)
    show ?thesis
    proof (cases x)
      case (Inl e)
      with l Pair show ?thesis by (auto simp: loadPolicies_def split: if_splits)
    next
      case (Inr es)
      have "load_entries lib dir fs (k, n) t = (Inr k, t)" if "set fs \<subseteq> set es" for fs k n
        using that assms(4)[OF Pair[unfolded Inr]] by (induction fs) auto
      from this[of es] l Pair Inr show ?thesis by (simp add: loadPolicies_def)
    qed
  qed
  with assms(1) az show ?thesis by (simp add: cedar_provider_def cedar_Authorize_def)
qed

lemma rpc_name_plain: "CHR ''/'' \<notin> set a \<Longrightarrow> rpc_name a = a"
proof -
  assume "CHR ''/'' \<notin> set a"
  then have "takeWhile (\<lambda>c. c \<noteq> CHR ''/'') (rev a) = rev a" by (auto simp: takeWhile_eq_all_conv)
  then show ?thesis by (simp only: rpc_name_def rev_rev_ident)
qed

lemma rpc_name_path: "CHR ''/'' \<notin> set a \<Longrightarrow> rpc_name (p @ ''/'' @ a) = a"
  using rpc_name_plain[of a] by (simp add: rpc_name_def takeWhile_append)

lemma groups_entities:
  "fold (\<lambda>g m. m(g \<mapsto> {})) gs m = (\<lambda>k. if k \<in> set gs then Some {} else m k)"
  by (induction gs arbitrary: m) (auto simp: fun_eq_iff)

text \<open>
  the decision depends on the caller's name and set of groups, on the part of the action after its last slash
  and on the resource, and on nothing else of the call. An action of this program has no slash, so policies see it
  whole, with its plugin in front.
\<close>

theorem cedar_decision_inputs:
  assumes "id_name i = id_name j" "set (id_groups i) = set (id_groups j)"
  shows "cedar_Authorize lib ps c i (p @ ''/'' @ a) r = cedar_Authorize lib ps d j (q @ ''/'' @ a) r
    \<and> cedar_Authorize lib ps c i a r = cedar_Authorize lib ps d j a r
    \<and> (CHR ''/'' \<notin> set a \<longrightarrow> cq_action (cedar_request_of i a r) = NewEntityUID ''Action'' a)"
proof -
  have "buildEntities i = buildEntities j"
    using assms by (simp add: buildEntities_def Let_def groups_entities)
  moreover have "rpc_name (p @ ''/'' @ a) = rpc_name (q @ ''/'' @ a)"
    by (cases "CHR ''/'' \<in> set a") (auto simp: rpc_name_def takeWhile_append)
  ultimately show ?thesis
    using assms by (simp add: cedar_Authorize_def cedar_request_of_def rpc_name_plain)
qed

section \<open>A concrete directory\<close>

definition test_cedar :: "string cedar_lib" where
  "test_cedar = \<lparr>cl_parse = (\<lambda>f d. if d = [] then Inl (Ext ''syntax'') else Inr (split_on CHR '';'' d)),
     cl_authorize = (\<lambda>ps es q. ps (''a.cedar:0'') = Some ''permit'')\<rparr>"

definition test_policies :: fs where
  "test_policies = \<lparr>fs_files = [(''/p/b.cedar'', \<lparr>f_data = ''forbid'', f_time = 0\<rparr>), (''/p/a.cedar'', \<lparr>f_data = ''permit;permit'', f_time = 0\<rparr>)],
     fs_dirs = [''/p''], fs_now = 0, fs_faults = []\<rparr>"

theorem cedar_loads_every_policy_witness:
  "\<exists>ids. length ids = 3 \<and> distinct ids \<and> fst (loadPolicies test_cedar ''/p'' test_policies) = Inr (map_of (zip ids [''permit'', ''permit'', ''forbid'']))"
proof -
  have rd: "ReadDir ''/p'' test_policies = (Inr [(''a.cedar'', False), (''b.cedar'', False)], test_policies)"
    by code_simp
  have "\<exists>m. loadPolicies test_cedar ''/p'' test_policies = (Inr m, test_policies)"
  proof -
    have "ReadFile (path_join ''/p'' ''a.cedar'') test_policies = (Inr ''permit;permit'', test_policies)"
      "ReadFile (path_join ''/p'' ''b.cedar'') test_policies = (Inr ''forbid'', test_policies)"
      "has_suffix ''a.cedar'' ''.cedar''" "has_suffix ''b.cedar'' ''.cedar''"
      by code_simp+
    then show ?thesis by (simp add: loadPolicies_def rd test_cedar_def split: prod.split)
  qed
  then obtain m where l: "loadPolicies test_cedar ''/p'' test_policies = (Inr m, test_policies)" by blast
  have ps: "concat (map (file_policies test_cedar ''/p'' test_policies) [(''a.cedar'', False), (''b.cedar'', False)]) = [''permit'', ''permit'', ''forbid'']"
    by code_simp
  obtain ids where "m = map_of (zip ids [''permit'', ''permit'', ''forbid''])" "length ids = length [''permit'', ''permit'', ''forbid'']" "distinct ids"
    using cedar_loads_every_policy[OF rd l] unfolding ps Let_def by (elim exE conjE) (rule that)
  then show ?thesis by (intro exI[of _ ids]) (simp add: l)
qed

theorem cedar_default_deny_witness:
  "\<forall>c i a r. authorize (cedar_provider test_cedar Map.empty) c i a r = Inr Deny"
proof -
  have "\<not> is_dir test_policies defaultPolicyDir" by code_simp
  then have nd: "ReadDir defaultPolicyDir test_policies = (Inl ErrNotExist, test_policies)"
    by (simp add: ReadDir_def test_policies_def next_fault_def tick_def)
  moreover have "IsNotExist ErrNotExist" by code_simp
  moreover have dir: "cedar_policy_dir None = Inr defaultPolicyDir"
    by (simp add: cedar_policy_dir_def)
  ultimately have new: "cedar_New test_cedar None test_policies = (Inr (cedar_provider test_cedar Map.empty), test_policies)"
    by (simp add: cedar_New_def loadPolicies_def)
  have deny: "\<not> cl_authorize test_cedar Map.empty es q" for es q by (simp add: test_cedar_def)
  show ?thesis
    using cedar_default_deny[OF deny dir new] nd by auto
qed

theorem cedar_decision_inputs_witness:
  "cq_action (cedar_request_of no_identity ''core:GetHealth'' ThisNode) = NewEntityUID ''Action'' ''core:GetHealth''"
proof -
  have "CHR ''/'' \<notin> set ''core:GetHealth''" by simp
  moreover have "CHR ''/'' \<notin> set ''core:GetHealth'' \<longrightarrow>
      cq_action (cedar_request_of no_identity ''core:GetHealth'' ThisNode) = NewEntityUID ''Action'' ''core:GetHealth''"
    using cedar_decision_inputs[OF refl refl, of test_cedar Map.empty undefined no_identity "[]" "''core:GetHealth''" ThisNode undefined "[]"]
    by (elim conjE)
  ultimately show ?thesis by (rule rev_mp)
qed

end
