(* ===== verification/Machine_Api.thy ===== *)
theory Machine_Api
  imports Handler Bootstrap Machine_Config Health Bootc Journal Proc_Stats
begin

text \<open>
  Package \<open>internal/api/v1alpha1\<close>: the remote calls. The three servers (diagnostics, configuration, upgrade) are
  given by the operations they call; \<open>NewMachineServer\<close> builds a handler for each call, with its action, its
  resource and its function, and every call but \<open>BootstrapAuth\<close> goes through \<open>Execute\<close>. The messages of the
  protocol are records; a pointer to a response is an \<open>option\<close>. The world of the agent holds the file system, the
  state of the bootstrap manager and the rest (\<open>'x\<close>): the units, the images, the journal.
\<close>

section \<open>The world\<close>

record 'x world =
  w_fs :: fs
  w_boot :: bs_manager
  w_ext :: 'x

definition on_fs :: "(fs \<Rightarrow> 'a \<times> fs) \<Rightarrow> 'x world \<Rightarrow> 'a \<times> 'x world" where
  "on_fs f w = (case f (w_fs w) of (r, s) \<Rightarrow> (r, w\<lparr>w_fs := s\<rparr>))"

text \<open>What the code takes from its surroundings: the host name, the Go version, hashing and certificates.\<close>

record ('x, 'k, 'p) api_env =
  en_uc :: unicode
  en_go_version :: string
  en_hostname :: "'x world \<Rightarrow> error + string"
  en_sha256 :: "string \<Rightarrow> string"
  en_crypto :: "'x world \<Rightarrow> ('k, 'p) crypto"

text \<open>\<open>Deps\<close>: a nil interface or pointer is \<open>None\<close>; the manager of the enrolment keeps its state in the world.\<close>

record ('x, 'f) api_deps =
  dep_Health :: "('x world \<Rightarrow> (error + health_result) \<times> 'x world) option"
  dep_Bootc :: "'x world bootc_manager option"
  dep_Journal :: "'x world journal_reader option"
  dep_Systemd :: "'x world systemd_manager option"
  dep_Proc :: "('x world \<Rightarrow> (error + 'f stats) \<times> 'x world) option"
  dep_Network :: "net_manager option"
  dep_Kargs :: "kargs_manager option"
  dep_Bootstrap :: bool

definition nil_panic :: "'a go" where
  "nil_panic = Panic ''invalid memory address or nil pointer dereference''"

text \<open>The two results of a handler's function: a pointer that is nil beside an error.\<close>

definition reply :: "error + 'r \<Rightarrow> 'r option \<times> error option" where
  "reply r = (case r of Inl e \<Rightarrow> (None, Some e) | Inr x \<Rightarrow> (Some x, None))"

lemma reply_simps [simp]: "reply (Inl e) = (None, Some e)" "reply (Inr x) = (Some x, None)"
  by (simp_all add: reply_def)

section \<open>Diagnostics\<close>

record logs_request =
  lq_Follow :: bool
  lq_Unit :: string
  lq_Lines :: "32 word"

record logs_response =
  lr_Timestamp :: string
  lr_Unit :: string
  lr_Message :: string
  lr_Priority :: string

record dmesg_request =
  dq_Follow :: bool
  dq_Lines :: "32 word"

record dmesg_response =
  dr_Timestamp :: string
  dr_Facility :: string
  dr_Priority :: string
  dr_Message :: string

record ('x, 'f) diagnostics_server =
  dg_journal :: "'x world journal_reader option"
  dg_systemd :: "'x world systemd_manager option"
  dg_proc :: "('x world \<Rightarrow> (error + 'f stats) \<times> 'x world) option"

definition NewDiagnosticsServer ::
    "'x world journal_reader option \<Rightarrow> 'x world systemd_manager option \<Rightarrow>
     ('x world \<Rightarrow> (error + 'f stats) \<times> 'x world) option \<Rightarrow> ('x, 'f) diagnostics_server" where
  "NewDiagnosticsServer j s p = \<lparr>dg_journal = j, dg_systemd = s, dg_proc = p\<rparr>"

text \<open>The loop over the entries, which ends at the first response that cannot be sent.\<close>

fun send_all :: "('r \<Rightarrow> 'w \<Rightarrow> error option \<times> 'w) \<Rightarrow> 'r list \<Rightarrow> 'w \<Rightarrow> error option \<times> 'w" where
  "send_all send [] w = (None, w)"
| "send_all send (r # rs) w =
     (case send r w of (Some e, w) \<Rightarrow> (Some e, w) | (None, w) \<Rightarrow> send_all send rs w)"

definition journal_stream ::
    "string \<Rightarrow> 'w journal_reader option \<Rightarrow> stream_opts \<Rightarrow> (journal_entry \<Rightarrow> 'r) \<Rightarrow>
     ('r \<Rightarrow> 'w \<Rightarrow> error option \<times> 'w) \<Rightarrow> 'w \<Rightarrow> (error option \<times> 'w) go" where
  "journal_stream what j opts f send w =
     (case j of
        None \<Rightarrow> nil_panic
      | Some r \<Rightarrow>
          (case jr_Stream r opts w of
             ((entries, err), w) \<Rightarrow>
               (case send_all send (map f entries) w of
                  (Some e, w) \<Rightarrow> Ret (Some e, w)
                | (None, w) \<Rightarrow> Ret (map_option (Wrap what) err, w))))"

definition logs_message :: "journal_entry \<Rightarrow> logs_response" where
  "logs_message e =
     \<lparr>lr_Timestamp = je_Timestamp e, lr_Unit = je_Unit e, lr_Message = je_Message e, lr_Priority = je_Priority e\<rparr>"

definition dmesg_message :: "journal_entry \<Rightarrow> dmesg_response" where
  "dmesg_message e =
     \<lparr>dr_Timestamp = je_Timestamp e, dr_Facility = ''kern'', dr_Priority = je_Priority e, dr_Message = je_Message e\<rparr>"

definition LogsStream ::
    "('x, 'f) diagnostics_server \<Rightarrow> logs_request \<Rightarrow> (logs_response \<Rightarrow> 'x world \<Rightarrow> error option \<times> 'x world) \<Rightarrow>
     'x world \<Rightarrow> (error option \<times> 'x world) go" where
  "LogsStream d req send w =
     journal_stream ''journal stream'' (dg_journal d)
       \<lparr>so_Follow = lq_Follow req, so_Unit = lq_Unit req, so_Lines = sint (lq_Lines req), so_Dmesg = False\<rparr>
       logs_message send w"

definition DmesgStream ::
    "('x, 'f) diagnostics_server \<Rightarrow> dmesg_request \<Rightarrow> (dmesg_response \<Rightarrow> 'x world \<Rightarrow> error option \<times> 'x world) \<Rightarrow>
     'x world \<Rightarrow> (error option \<times> 'x world) go" where
  "DmesgStream d req send w =
     journal_stream ''dmesg stream'' (dg_journal d)
       \<lparr>so_Follow = dq_Follow req, so_Unit = [], so_Lines = sint (dq_Lines req), so_Dmesg = True\<rparr>
       dmesg_message send w"

text \<open>The older methods of the generated interface: the same with the stream's own \<open>Send\<close>.\<close>

definition diagnostics_Logs ::
    "('x, 'f) diagnostics_server \<Rightarrow> logs_request \<Rightarrow> (logs_response \<Rightarrow> 'x world \<Rightarrow> error option \<times> 'x world) \<Rightarrow>
     'x world \<Rightarrow> (error option \<times> 'x world) go" where
  "diagnostics_Logs d req stream_send w =
     (let opts = \<lparr>so_Follow = lq_Follow req, so_Unit = lq_Unit req, so_Lines = sint (lq_Lines req), so_Dmesg = False\<rparr> in
      journal_stream ''journal stream'' (dg_journal d) opts logs_message stream_send w)"

definition diagnostics_Dmesg ::
    "('x, 'f) diagnostics_server \<Rightarrow> dmesg_request \<Rightarrow> (dmesg_response \<Rightarrow> 'x world \<Rightarrow> error option \<times> 'x world) \<Rightarrow>
     'x world \<Rightarrow> (error option \<times> 'x world) go" where
  "diagnostics_Dmesg d req stream_send w =
     (let opts = \<lparr>so_Follow = dq_Follow req, so_Unit = [], so_Lines = sint (dq_Lines req), so_Dmesg = True\<rparr> in
      journal_stream ''dmesg stream'' (dg_journal d) opts dmesg_message stream_send w)"

record memory_message =
  mm_TotalBytes :: "64 word"
  mm_AvailableBytes :: "64 word"
  mm_UsedBytes :: "64 word"

record 'f cpu_message =
  cm_Count :: "32 word"
  cm_UsagePercent :: 'f

record 'f load_message =
  lm_Load1 :: 'f
  lm_Load5 :: 'f
  lm_Load15 :: 'f

record disk_message =
  dm_MountPoint :: string
  dm_Filesystem :: string
  dm_TotalBytes :: "64 word"
  dm_AvailableBytes :: "64 word"
  dm_UsedBytes :: "64 word"

record 'f stats_response =
  sr_Memory :: memory_message
  sr_Cpu :: "'f cpu_message"
  sr_Load :: "'f load_message"
  sr_Disks :: "disk_message list"

definition stats_message :: "'f stats \<Rightarrow> 'f stats_response" where
  "stats_message s =
     \<lparr>sr_Memory = \<lparr>mm_TotalBytes = ms_Total (st_Memory s), mm_AvailableBytes = ms_Available (st_Memory s),
        mm_UsedBytes = ms_Used (st_Memory s)\<rparr>,
      sr_Cpu = \<lparr>cm_Count = cpu_Count (st_CPU s), cm_UsagePercent = cpu_Usage (st_CPU s)\<rparr>,
      sr_Load = \<lparr>lm_Load1 = ls_Load1 (st_Load s), lm_Load5 = ls_Load5 (st_Load s), lm_Load15 = ls_Load15 (st_Load s)\<rparr>,
      sr_Disks = map (\<lambda>d. \<lparr>dm_MountPoint = ds_MountPoint d, dm_Filesystem = ds_Filesystem d,
        dm_TotalBytes = ds_Total d, dm_AvailableBytes = ds_Available d, dm_UsedBytes = ds_Used d\<rparr>) (st_Disks s)\<rparr>"

definition diagnostics_Stats :: "('x, 'f) diagnostics_server \<Rightarrow> 'x world \<Rightarrow> ((error + 'f stats_response) \<times> 'x world) go" where
  "diagnostics_Stats d w =
     (case dg_proc d of
        None \<Rightarrow> nil_panic
      | Some read \<Rightarrow>
          (case read w of
             (Inl e, w) \<Rightarrow> Ret (Inl (Wrap ''read stats'' e), w)
           | (Inr s, w) \<Rightarrow> Ret (Inr (stats_message s), w)))"

record status_response =
  us_resp_Name :: string
  us_resp_Description :: string
  us_resp_LoadState :: string
  us_resp_ActiveState :: string
  us_resp_SubState :: string
  us_resp_UnitFileState :: string
  us_resp_MainPid :: "32 word"
  us_resp_MemoryBytes :: "64 word"
  us_resp_ActiveEnterTimestamp :: string

definition status_message :: "unit_status \<Rightarrow> status_response" where
  "status_message s =
     \<lparr>us_resp_Name = us_Name s, us_resp_Description = us_Description s, us_resp_LoadState = us_LoadState s,
      us_resp_ActiveState = us_ActiveState s, us_resp_SubState = us_SubState s,
      us_resp_UnitFileState = us_UnitFileState s, us_resp_MainPid = us_MainPID s,
      us_resp_MemoryBytes = us_MemoryBytes s, us_resp_ActiveEnterTimestamp = us_ActiveEnterTimestamp s\<rparr>"

definition diagnostics_ServiceStatus ::
    "('x, 'f) diagnostics_server \<Rightarrow> string \<Rightarrow> 'x world \<Rightarrow> ((error + status_response) \<times> 'x world) go" where
  "diagnostics_ServiceStatus d name w =
     (case UnitName name of
        Some e \<Rightarrow> Ret (Inl (Wrap ''invalid unit'' e), w)
      | None \<Rightarrow>
          (case dg_systemd d of
             None \<Rightarrow> nil_panic
           | Some sys \<Rightarrow>
               (case sm_status sys name w of
                  (Inl e, w) \<Rightarrow> Ret (Inl (Wrap ''get unit status'' e), w)
                | (Inr st, w) \<Rightarrow> Ret (Inr (status_message st), w))))"

section \<open>Configuration\<close>

record interface_message =
  im_Name :: string
  im_Dhcp :: bool
  im_Addresses :: "string list"
  im_Gateway :: string
  im_Mtu :: "32 word"

text \<open>\<open>cm_Network\<close> is a pointer to a message that holds the interfaces.\<close>

record config_message =
  cf_Hostname :: string
  cf_KernelArgs :: "string list"
  cf_DnsServers :: "string list"
  cf_NtpServers :: "string list"
  cf_Network :: "interface_message list option"

definition interface_to_proto :: "iface \<Rightarrow> interface_message" where
  "interface_to_proto i =
     \<lparr>im_Name = if_Name i, im_Dhcp = if_DHCP i, im_Addresses = if_Addresses i, im_Gateway = if_Gateway i, im_Mtu = if_MTU i\<rparr>"

definition proto_to_interface :: "interface_message \<Rightarrow> iface" where
  "proto_to_interface m =
     \<lparr>if_Name = im_Name m, if_DHCP = im_Dhcp m, if_Addresses = im_Addresses m, if_Gateway = im_Gateway m, if_MTU = im_Mtu m\<rparr>"

definition configToProto :: "machine_config \<Rightarrow> config_message" where
  "configToProto c =
     \<lparr>cf_Hostname = mc_Hostname c, cf_KernelArgs = mc_KernelArgs c, cf_DnsServers = mc_DNSServers c,
      cf_NtpServers = mc_NTPServers c,
      cf_Network = (if length (mc_Interfaces c) > 0 then Some (map interface_to_proto (mc_Interfaces c)) else None)\<rparr>"

definition protoToConfig :: "config_message \<Rightarrow> machine_config" where
  "protoToConfig m =
     \<lparr>mc_Hostname = cf_Hostname m, mc_KernelArgs = cf_KernelArgs m, mc_DNSServers = cf_DnsServers m,
      mc_NTPServers = cf_NtpServers m,
      mc_Interfaces = (case cf_Network m of None \<Rightarrow> [] | Some is \<Rightarrow> map proto_to_interface is)\<rparr>"

record apply_response =
  as_Warnings :: "string list"
  as_RebootRequired :: bool

definition config_GetConfig ::
    "('x, 'k, 'p) api_env \<Rightarrow> applier \<Rightarrow> 'x world \<Rightarrow> (error + config_message) \<times> 'x world" where
  "config_GetConfig env a w =
     (case on_fs (applier_Read (en_hostname env w) a) w of
        (Inl e, w) \<Rightarrow> (Inl (Wrap ''read config'' e), w)
      | (Inr c, w) \<Rightarrow> (Inr (configToProto c), w))"

definition config_ApplyConfig ::
    "('x, 'k, 'p) api_env \<Rightarrow> applier \<Rightarrow> config_message option \<Rightarrow> 'x world \<Rightarrow> (error + apply_response) \<times> 'x world" where
  "config_ApplyConfig env a req w =
     (case req of
        None \<Rightarrow> (Inl (Msg ''config required''), w)
      | Some m \<Rightarrow>
          (case on_fs (Apply (en_uc env) a (protoToConfig m)) w of
             (Inl e, w) \<Rightarrow> (Inl (Wrap ''apply config'' e), w)
           | (Inr r, w) \<Rightarrow> (Inr \<lparr>as_Warnings = ar_Warnings r, as_RebootRequired = ar_RebootRequired r\<rparr>, w)))"

section \<open>Upgrades\<close>

record upgrade_response =
  up_CurrentImage :: string
  up_CurrentDigest :: string
  up_StagedImage :: string
  up_RebootRequired :: bool

record rollback_response =
  rb_CurrentImage :: string
  rb_RollbackImage :: string
  rb_RebootRequired :: bool

definition upgrade_message :: "upgrade_result \<Rightarrow> upgrade_response" where
  "upgrade_message r =
     \<lparr>up_CurrentImage = ur_CurrentImage r, up_CurrentDigest = ur_CurrentDigest r, up_StagedImage = ur_StagedImage r,
      up_RebootRequired = (ur_StagedImage r \<noteq> [])\<rparr>"

definition rollback_message :: "rollback_result \<Rightarrow> rollback_response" where
  "rollback_message r =
     \<lparr>rb_CurrentImage = rr_CurrentImage r, rb_RollbackImage = rr_RollbackImage r, rb_RebootRequired = True\<rparr>"

text \<open>The upgrade server, which \<open>NewMachineServer\<close> does not use.\<close>

definition server_Upgrade :: "'w upgrade_manager \<Rightarrow> string \<Rightarrow> 'w \<Rightarrow> (error + upgrade_response) \<times> 'w" where
  "server_Upgrade m img w =
     (if img = [] then (Inl (Msg ''image required''), w)
      else (case upgrade_Upgrade m img w of
          (Inl e, w) \<Rightarrow> (Inl (Wrap ''upgrade'' e), w)
        | (Inr r, w) \<Rightarrow> (Inr (upgrade_message r), w)))"

definition server_Rollback :: "'w upgrade_manager \<Rightarrow> 'w \<Rightarrow> (error + rollback_response) \<times> 'w" where
  "server_Rollback m w =
     (case upgrade_Rollback m w of
        (Inl e, w) \<Rightarrow> (Inl (Wrap ''rollback'' e), w)
      | (Inr r, w) \<Rightarrow> (Inr (rollback_message r), w))"

definition server_Reboot :: "'w upgrade_manager \<Rightarrow> 'w \<Rightarrow> (error + unit) \<times> 'w" where
  "server_Reboot m w =
     (case upgrade_Reboot m w of
        (Some e, w) \<Rightarrow> (Inl (Wrap ''reboot'' e), w)
      | (None, w) \<Rightarrow> (Inr (), w))"

section \<open>The functions of the handlers\<close>

definition machine_version :: string where
  "machine_version = ''0.1.0-dev''"

record version_response =
  vs_Version :: string
  vs_GoVersion :: string
  vs_OsImage :: string
  vs_OsVersion :: string
  vs_OsImageDigest :: string
  vs_OsStagedImage :: string

definition version_fn ::
    "('x, 'k, 'p) api_env \<Rightarrow> ('x, 'f) api_deps \<Rightarrow> 'x world \<Rightarrow> ((version_response option \<times> error option) \<times> 'x world) go" where
  "version_fn env d w =
     (let resp = \<lparr>vs_Version = machine_version, vs_GoVersion = en_go_version env, vs_OsImage = [], vs_OsVersion = [],
            vs_OsImageDigest = [], vs_OsStagedImage = []\<rparr> in
      (case dep_Bootc d of
         None \<Rightarrow> Ret ((Some resp, None), w)
       | Some b \<Rightarrow>
           (case bm_Status b w of
              (Inl e, w) \<Rightarrow> Ret ((Some resp, None), w)
            | (Inr st, w) \<Rightarrow>
                Ret ((Some (resp\<lparr>vs_OsImage := bc_Image st, vs_OsVersion := bc_Version st,
                        vs_OsImageDigest := bc_ImageDigest st, vs_OsStagedImage := bc_Staged st\<rparr>), None), w))))"

record service_health =
  sh_Name :: string
  sh_State :: string
  sh_Healthy :: bool

record health_response =
  hs_Status :: int
  hs_Services :: "service_health list"

definition HEALTH_STATUS_UNHEALTHY :: int where
  "HEALTH_STATUS_UNHEALTHY = 2"

definition health_message :: "health_result \<Rightarrow> health_response" where
  "health_message r =
     \<lparr>hs_Status = hr_Status r,
      hs_Services = map (\<lambda>c. \<lparr>sh_Name = cr_Name c, sh_State = cr_Message c, sh_Healthy = (cr_Status c = Healthy)\<rparr>) (hr_Checks r)\<rparr>"

definition health_fn :: "('x, 'f) api_deps \<Rightarrow> 'x world \<Rightarrow> ((health_response option \<times> error option) \<times> 'x world) go" where
  "health_fn d w =
     (case dep_Health d of
        None \<Rightarrow> nil_panic
      | Some check \<Rightarrow>
          (case check w of
             (Inl e, w) \<Rightarrow> Ret ((Some \<lparr>hs_Status = HEALTH_STATUS_UNHEALTHY, hs_Services = []\<rparr>, None), w)
           | (Inr r, w) \<Rightarrow> Ret ((Some (health_message r), None), w)))"

text \<open>A response and an error from a call that gives one of the two.\<close>

definition replied :: "((error + 'r) \<times> 'w) go \<Rightarrow> (('r option \<times> error option) \<times> 'w) go" where
  "replied m = go_bind m (\<lambda>(r, w). Ret (reply r, w))"

definition newConfigServerFromDeps :: "('x, 'f) api_deps \<Rightarrow> applier option" where
  "newConfigServerFromDeps d =
     (case (dep_Network d, dep_Kargs d) of
        (Some n, Some k) \<Rightarrow> Some (NewApplier ''/etc/systemd/network'' ''/etc/bootc/kargs.d'' n k)
      | _ \<Rightarrow> None)"

definition newUpgradeManagerFromDeps :: "('x, 'f) api_deps \<Rightarrow> 'x world upgrade_manager option" where
  "newUpgradeManagerFromDeps d =
     (case (dep_Bootc d, dep_Systemd d) of
        (Some b, Some s) \<Rightarrow> Some \<lparr>um_bootc = b, um_systemd = s\<rparr>
      | _ \<Rightarrow> None)"

definition getConfig_fn ::
    "('x, 'k, 'p) api_env \<Rightarrow> applier option \<Rightarrow> 'x world \<Rightarrow> ((config_message option \<times> error option) \<times> 'x world) go" where
  "getConfig_fn env srv w =
     (case srv of
        None \<Rightarrow> Ret ((None, Some (Msg ''configuration not configured'')), w)
      | Some a \<Rightarrow> replied (Ret (config_GetConfig env a w)))"

definition applyConfig_fn ::
    "('x, 'k, 'p) api_env \<Rightarrow> applier option \<Rightarrow> config_message option \<Rightarrow> 'x world \<Rightarrow>
     ((apply_response option \<times> error option) \<times> 'x world) go" where
  "applyConfig_fn env srv req w =
     (case srv of
        None \<Rightarrow> Ret ((None, Some (Msg ''configuration not configured'')), w)
      | Some a \<Rightarrow> replied (Ret (config_ApplyConfig env a req w)))"

definition upgrade_fn ::
    "'w upgrade_manager option \<Rightarrow> string \<Rightarrow> 'w \<Rightarrow> ((upgrade_response option \<times> error option) \<times> 'w) go" where
  "upgrade_fn mgr img w =
     (case ImageRef img of
        Some e \<Rightarrow> Ret ((None, Some (Wrap ''invalid image'' e)), w)
      | None \<Rightarrow>
          (case mgr of
             None \<Rightarrow> Ret ((None, Some (Msg ''upgrade not configured'')), w)
           | Some m \<Rightarrow>
               (case upgrade_Upgrade m img w of
                  (Inl e, w) \<Rightarrow> Ret ((None, Some e), w)
                | (Inr r, w) \<Rightarrow> Ret ((Some (upgrade_message r), None), w))))"

definition rollback_fn :: "'w upgrade_manager option \<Rightarrow> 'w \<Rightarrow> ((rollback_response option \<times> error option) \<times> 'w) go" where
  "rollback_fn mgr w =
     (case mgr of
        None \<Rightarrow> Ret ((None, Some (Msg ''upgrade not configured'')), w)
      | Some m \<Rightarrow>
          (case upgrade_Rollback m w of
             (Inl e, w) \<Rightarrow> Ret ((None, Some e), w)
           | (Inr r, w) \<Rightarrow> Ret ((Some (rollback_message r), None), w)))"

text \<open>The response of a reboot is there even beside an error.\<close>

definition reboot_fn :: "'w upgrade_manager option \<Rightarrow> 'w \<Rightarrow> ((unit option \<times> error option) \<times> 'w) go" where
  "reboot_fn mgr w =
     (case mgr of
        None \<Rightarrow> Ret ((None, Some (Msg ''upgrade not configured'')), w)
      | Some m \<Rightarrow> (case upgrade_Reboot m w of (e, w) \<Rightarrow> Ret ((Some (), e), w)))"

record control_request =
  cq_Name :: string
  cq_Action :: "32 word"

record control_response =
  cs_Name :: string
  cs_ActiveState :: string
  cs_SubState :: string

definition serviceResource :: "string \<Rightarrow> resource" where
  "serviceResource name = (if name = [] then ThisNode else ServiceResource name)"

definition serviceControlFn ::
    "'w systemd_manager option \<Rightarrow> ('w systemd_manager \<Rightarrow> string \<Rightarrow> 'w \<Rightarrow> error option \<times> 'w) \<Rightarrow>
     control_request \<Rightarrow> 'w \<Rightarrow> ((control_response option \<times> error option) \<times> 'w) go" where
  "serviceControlFn sys op req w =
     (case UnitName (cq_Name req) of
        Some e \<Rightarrow> Ret ((None, Some (Wrap ''invalid unit'' e)), w)
      | None \<Rightarrow>
          (case sys of
             None \<Rightarrow> Ret ((None, Some (Msg ''systemd not configured'')), w)
           | Some s \<Rightarrow>
               (case op s (cq_Name req) w of
                  (Some e, w) \<Rightarrow> Ret ((None, Some (Wrap ''service control'' e)), w)
                | (None, w) \<Rightarrow>
                    (case sm_status s (cq_Name req) w of
                       (Inl e, w) \<Rightarrow> Ret ((None, Some (Wrap ''get unit status'' e)), w)
                     | (Inr st, w) \<Rightarrow>
                         Ret ((Some \<lparr>cs_Name = us_Name st, cs_ActiveState = us_ActiveState st, cs_SubState = us_SubState st\<rparr>,
                               None), w)))))"

section \<open>The machine server\<close>

record ('x, 'f) machine_server =
  ms_deps :: "'x world deps"
  ms_version :: "(unit, version_response option, 'x world) unary"
  ms_health :: "(unit, health_response option, 'x world) unary"
  ms_stats :: "(unit, 'f stats_response option, 'x world) unary"
  ms_serviceStatus :: "(string, status_response option, 'x world) unary"
  ms_getConfig :: "(unit, config_message option, 'x world) unary"
  ms_applyConfig :: "(config_message option, apply_response option, 'x world) unary"
  ms_upgrade :: "(string, upgrade_response option, 'x world) unary"
  ms_rollback :: "(unit, rollback_response option, 'x world) unary"
  ms_reboot :: "(unit, unit option, 'x world) unary"
  ms_startService :: "(control_request, control_response option, 'x world) unary"
  ms_stopService :: "(control_request, control_response option, 'x world) unary"
  ms_restartService :: "(control_request, control_response option, 'x world) unary"
  ms_logs :: "(logs_request, logs_response, 'x world) server_stream"
  ms_dmesg :: "(dmesg_request, dmesg_response, 'x world) server_stream"
  ms_bootstrap :: bool

text \<open>The action is made, and checked, before the handler's constructor checks it again.\<close>

definition NewMachineServer ::
    "('x, 'k, 'p) api_env \<Rightarrow> ('x, 'f) api_deps \<Rightarrow> authorizer option \<Rightarrow> 'x world audit_logger option \<Rightarrow>
     ('x, 'f) machine_server go" where
  "NewMachineServer env d az audit =
     (let diag = NewDiagnosticsServer (dep_Journal d) (dep_Systemd d) (dep_Proc d);
          cfgSrv = newConfigServerFromDeps d;
          upgradeMgr = newUpgradeManagerFromDeps d;
          uc = en_uc env in
      go_bind (go_bind (Action uc ''core'' ''Get'' ''Version'') (\<lambda>a. NewReadOnly uc a (Some (\<lambda>c _. version_fn env d)))) (\<lambda>version.
      go_bind (go_bind (Action uc ''core'' ''Get'' ''Health'') (\<lambda>a. NewReadOnly uc a (Some (\<lambda>c _. health_fn d)))) (\<lambda>health.
      go_bind (go_bind (Action uc ''diagnostics'' ''Get'' ''Stats'') (\<lambda>a.
        NewReadOnly uc a (Some (\<lambda>c _ w. replied (diagnostics_Stats diag w))))) (\<lambda>stats.
      go_bind (go_bind (Action uc ''services'' ''Describe'' ''Service'') (\<lambda>a.
        NewUnary uc a (Some serviceResource) (Some (\<lambda>c name w. replied (diagnostics_ServiceStatus diag name w))))) (\<lambda>serviceStatus.
      go_bind (go_bind (Action uc ''config'' ''Get'' ''Config'') (\<lambda>a.
        NewReadOnly uc a (Some (\<lambda>c _. getConfig_fn env cfgSrv)))) (\<lambda>getConfig.
      go_bind (go_bind (Action uc ''config'' ''Put'' ''Config'') (\<lambda>a.
        NewUnary uc a (Some (\<lambda>_. ConfigResource ''machine'')) (Some (\<lambda>c. applyConfig_fn env cfgSrv)))) (\<lambda>applyConfig.
      go_bind (go_bind (Action uc ''lifecycle'' ''Stage'' ''Upgrade'') (\<lambda>a.
        NewUnary uc a (Some (\<lambda>img. if img = [] then ThisNode else ImageResource img)) (Some (\<lambda>c. upgrade_fn upgradeMgr)))) (\<lambda>upgradeH.
      go_bind (go_bind (Action uc ''lifecycle'' ''Rollback'' ''Upgrade'') (\<lambda>a.
        NewUnary uc a (Some (\<lambda>_. NodeResource ''*'')) (Some (\<lambda>c _. rollback_fn upgradeMgr)))) (\<lambda>rollback.
      go_bind (go_bind (Action uc ''lifecycle'' ''Start'' ''Reboot'') (\<lambda>a.
        NewUnary uc a (Some (\<lambda>_. NodeResource ''*'')) (Some (\<lambda>c _. reboot_fn upgradeMgr)))) (\<lambda>reboot.
      go_bind (go_bind (Action uc ''services'' ''Start'' ''Service'') (\<lambda>a.
        NewUnary uc a (Some (\<lambda>q. serviceResource (cq_Name q))) (Some (\<lambda>c. serviceControlFn (dep_Systemd d) sm_start)))) (\<lambda>startService.
      go_bind (go_bind (Action uc ''services'' ''Stop'' ''Service'') (\<lambda>a.
        NewUnary uc a (Some (\<lambda>q. serviceResource (cq_Name q))) (Some (\<lambda>c. serviceControlFn (dep_Systemd d) sm_stop)))) (\<lambda>stopService.
      go_bind (go_bind (Action uc ''services'' ''Restart'' ''Service'') (\<lambda>a.
        NewUnary uc a (Some (\<lambda>q. serviceResource (cq_Name q))) (Some (\<lambda>c. serviceControlFn (dep_Systemd d) sm_restart)))) (\<lambda>restartService.
      go_bind (go_bind (Action uc ''diagnostics'' ''Stream'' ''Logs'') (\<lambda>a.
        NewReadOnlyStream uc a (Some (\<lambda>c. LogsStream diag)))) (\<lambda>logs.
      go_bind (go_bind (Action uc ''diagnostics'' ''Stream'' ''Dmesg'') (\<lambda>a.
        NewReadOnlyStream uc a (Some (\<lambda>c. DmesgStream diag)))) (\<lambda>dmesg.
        Ret \<lparr>ms_deps = \<lparr>d_authz = az, d_audit = audit\<rparr>, ms_version = version, ms_health = health, ms_stats = stats,
          ms_serviceStatus = serviceStatus, ms_getConfig = getConfig, ms_applyConfig = applyConfig, ms_upgrade = upgradeH,
          ms_rollback = rollback, ms_reboot = reboot, ms_startService = startService, ms_stopService = stopService,
          ms_restartService = restartService, ms_logs = logs, ms_dmesg = dmesg, ms_bootstrap = dep_Bootstrap d\<rparr>)))))))))))))))"

section \<open>The calls\<close>

definition SERVICE_ACTION_START :: "32 word" where "SERVICE_ACTION_START = 0"
definition SERVICE_ACTION_STOP :: "32 word" where "SERVICE_ACTION_STOP = 1"
definition SERVICE_ACTION_RESTART :: "32 word" where "SERVICE_ACTION_RESTART = 2"

definition ServiceControl ::
    "('x, 'f) machine_server \<Rightarrow> rctx \<Rightarrow> control_request \<Rightarrow> 'x world \<Rightarrow>
     ((control_response option \<times> error option) \<times> 'x world) go" where
  "ServiceControl s c req w =
     (if cq_Action req = SERVICE_ACTION_START then Execute (ms_startService s) None c (ms_deps s) req w
      else if cq_Action req = SERVICE_ACTION_STOP then Execute (ms_stopService s) None c (ms_deps s) req w
      else if cq_Action req = SERVICE_ACTION_RESTART then Execute (ms_restartService s) None c (ms_deps s) req w
      else Ret ((None, Some (MsgS ''unknown service action: '' (show_int (sint (cq_Action req))) [])), w))"

text \<open>A request of the protocol other than \<open>BootstrapAuth\<close>, and its response.\<close>

datatype rpc =
    Version
  | Health
  | Stats
  | ServiceStatus string
  | GetConfig
  | ApplyConfig "config_message option"
  | Upgrade string
  | Rollback
  | Reboot
  | Control control_request
  | Logs logs_request
  | Dmesg dmesg_request

datatype 'f response =
    VersionResponse "version_response option"
  | HealthResponse "health_response option"
  | StatsResponse "'f stats_response option"
  | StatusResponse "status_response option"
  | ConfigResponse "config_message option"
  | ApplyResponse "apply_response option"
  | UpgradeResponse "upgrade_response option"
  | RollbackResponse "rollback_response option"
  | RebootResponse "unit option"
  | ControlResponse "control_response option"
  | Streamed

definition responded :: "('r \<Rightarrow> 's) \<Rightarrow> (('r \<times> error option) \<times> 'w) go \<Rightarrow> (('s \<times> error option) \<times> 'w) go" where
  "responded f m = go_bind m (\<lambda>((r, e), w). Ret ((f r, e), w))"

text \<open>The adapters, one line each in the code; the two streams send their responses through \<open>sendL\<close> and \<open>sendD\<close>.\<close>

fun serve ::
    "('x, 'f) machine_server \<Rightarrow> (logs_response \<Rightarrow> 'x world \<Rightarrow> error option \<times> 'x world) \<Rightarrow>
     (dmesg_response \<Rightarrow> 'x world \<Rightarrow> error option \<times> 'x world) \<Rightarrow> rctx \<Rightarrow> rpc \<Rightarrow> 'x world \<Rightarrow>
     (('f response \<times> error option) \<times> 'x world) go" where
  "serve s sendL sendD c Version w = responded VersionResponse (Execute (ms_version s) None c (ms_deps s) () w)"
| "serve s sendL sendD c Health w = responded HealthResponse (Execute (ms_health s) None c (ms_deps s) () w)"
| "serve s sendL sendD c Stats w = responded StatsResponse (Execute (ms_stats s) None c (ms_deps s) () w)"
| "serve s sendL sendD c (ServiceStatus name) w =
     responded StatusResponse (Execute (ms_serviceStatus s) None c (ms_deps s) name w)"
| "serve s sendL sendD c GetConfig w = responded ConfigResponse (Execute (ms_getConfig s) None c (ms_deps s) () w)"
| "serve s sendL sendD c (ApplyConfig req) w =
     responded ApplyResponse (Execute (ms_applyConfig s) None c (ms_deps s) req w)"
| "serve s sendL sendD c (Upgrade img) w = responded UpgradeResponse (Execute (ms_upgrade s) None c (ms_deps s) img w)"
| "serve s sendL sendD c Rollback w = responded RollbackResponse (Execute (ms_rollback s) None c (ms_deps s) () w)"
| "serve s sendL sendD c Reboot w = responded RebootResponse (Execute (ms_reboot s) None c (ms_deps s) () w)"
| "serve s sendL sendD c (Control req) w = responded ControlResponse (ServiceControl s c req w)"
| "serve s sendL sendD c (Logs req) w =
     go_bind (stream_Execute (ms_logs s) c (ms_deps s) req sendL w) (\<lambda>(e, w). Ret ((Streamed, e), w))"
| "serve s sendL sendD c (Dmesg req) w =
     go_bind (stream_Execute (ms_dmesg s) c (ms_deps s) req sendD w) (\<lambda>(e, w). Ret ((Streamed, e), w))"

record bootstrap_request =
  bq_Token :: string
  bq_Csr :: string

record bootstrap_response =
  bp_CaCert :: string
  bp_ClientCert :: string
  bp_CaFingerprint :: string

definition bootstrap_event :: "string \<Rightarrow> string \<Rightarrow> event" where
  "bootstrap_event addr outcome =
     zero_event\<lparr>ev_type := ''bootstrap'', ev_action := ''BootstrapAuth'', ev_outcome := outcome, ev_peer := addr\<rparr>"

definition emitBootstrapAudit :: "'w audit_logger option \<Rightarrow> string \<Rightarrow> string \<Rightarrow> 'w \<Rightarrow> 'w go" where
  "emitBootstrapAudit logger addr outcome w =
     (case logger of None \<Rightarrow> Ret w | Some l \<Rightarrow> log_event l (bootstrap_event addr outcome) w)"

text \<open>The enrolment, which needs no identity. A panic of the manager is one of the call.\<close>

definition run_bootstrap ::
    "('x, 'k, 'p) api_env \<Rightarrow> string \<Rightarrow> string \<Rightarrow> 'x world \<Rightarrow> (error + bootstrap_result) go \<times> 'x world" where
  "run_bootstrap env token csr w =
     (case Bootstrap (en_sha256 env) (en_crypto env w) token csr (w_boot w) (w_fs w) of
        (r, m, s) \<Rightarrow> (r, w\<lparr>w_boot := m, w_fs := s\<rparr>))"

definition BootstrapAuth ::
    "('x, 'k, 'p) api_env \<Rightarrow> ('x, 'f) machine_server \<Rightarrow> rctx \<Rightarrow> bootstrap_request \<Rightarrow> 'x world \<Rightarrow>
     ((error + bootstrap_response) \<times> 'x world) go" where
  "BootstrapAuth env s c req w =
     (if \<not> ms_bootstrap s then Ret (Inl (Msg ''bootstrap not available''), w)
      else (case on_fs (Enabled (w_boot w)) w of
        (enabled, w) \<Rightarrow>
          if \<not> enabled then Ret (Inl (Msg ''bootstrap not available''), w)
          else
            (let addr = (case ctx_peer c of None \<Rightarrow> ''unknown'' | Some p \<Rightarrow> peer_addr p) in
             (case run_bootstrap env (bq_Token req) (bq_Csr req) w of
                (m, w) \<Rightarrow>
                  go_bind m (\<lambda>r.
                    (case r of
                       Inl e \<Rightarrow>
                         go_bind (emitBootstrapAudit (d_audit (ms_deps s)) addr ''denied'' w) (\<lambda>w.
                           Ret (Inl (Wrap ''bootstrap'' e), w))
                     | Inr b \<Rightarrow>
                         go_bind (emitBootstrapAudit (d_audit (ms_deps s)) addr ''success'' w) (\<lambda>w.
                           (case on_fs (CAFingerprint (en_sha256 env) (en_crypto env w) (bs_dir (w_boot w))) w of
                              (fp, w) \<Rightarrow>
                                Ret (Inr \<lparr>bp_CaCert = br_ca_cert b, bp_ClientCert = br_client_cert b,
                                    bp_CaFingerprint = (case fp of Inl e \<Rightarrow> [] | Inr f \<Rightarrow> f)\<rparr>, w)))))))))"

section \<open>What the server is\<close>

text \<open>The action and the resource of each call; \<open>None\<close> for a call that is refused before any check.\<close>

fun rpc_action :: "rpc \<Rightarrow> string option" where
  "rpc_action Version = Some ''core:GetVersion''"
| "rpc_action Health = Some ''core:GetHealth''"
| "rpc_action Stats = Some ''diagnostics:GetStats''"
| "rpc_action (ServiceStatus n) = Some ''services:DescribeService''"
| "rpc_action GetConfig = Some ''config:GetConfig''"
| "rpc_action (ApplyConfig m) = Some ''config:PutConfig''"
| "rpc_action (Upgrade img) = Some ''lifecycle:StageUpgrade''"
| "rpc_action Rollback = Some ''lifecycle:RollbackUpgrade''"
| "rpc_action Reboot = Some ''lifecycle:StartReboot''"
| "rpc_action (Control q) =
     (if cq_Action q = SERVICE_ACTION_START then Some ''services:StartService''
      else if cq_Action q = SERVICE_ACTION_STOP then Some ''services:StopService''
      else if cq_Action q = SERVICE_ACTION_RESTART then Some ''services:RestartService'' else None)"
| "rpc_action (Logs q) = Some ''diagnostics:StreamLogs''"
| "rpc_action (Dmesg q) = Some ''diagnostics:StreamDmesg''"

fun rpc_resource :: "rpc \<Rightarrow> resource" where
  "rpc_resource (ServiceStatus n) = serviceResource n"
| "rpc_resource (ApplyConfig m) = ConfigResource ''machine''"
| "rpc_resource (Upgrade img) = (if img = [] then ThisNode else ImageResource img)"
| "rpc_resource (Control q) = serviceResource (cq_Name q)"
| "rpc_resource _ = ThisNode"

lemma node_star [simp]: "NodeResource ''*'' = ThisNode"
  by (simp add: NodeResource_def ThisNode_def)

lemma rpc_resource_valid: "resource_validate (rpc_resource r) = None"
  by (cases r)
    (auto simp: resource_validate_None_iff serviceResource_def ServiceResource_def ImageResource_def ConfigResource_def
      ThisNode_def resource_types)

named_theorems api_actions "the actions of the calls"

lemma valid_actions [api_actions]:
  "validateAction uc ''core:GetVersion'' = Ret ()" "validateAction uc ''core:GetHealth'' = Ret ()"
  "validateAction uc ''diagnostics:GetStats'' = Ret ()" "validateAction uc ''services:DescribeService'' = Ret ()"
  "validateAction uc ''config:GetConfig'' = Ret ()" "validateAction uc ''config:PutConfig'' = Ret ()"
  "validateAction uc ''lifecycle:StageUpgrade'' = Ret ()" "validateAction uc ''lifecycle:RollbackUpgrade'' = Ret ()"
  "validateAction uc ''lifecycle:StartReboot'' = Ret ()" "validateAction uc ''services:StartService'' = Ret ()"
  "validateAction uc ''services:StopService'' = Ret ()" "validateAction uc ''services:RestartService'' = Ret ()"
  "validateAction uc ''diagnostics:StreamLogs'' = Ret ()" "validateAction uc ''diagnostics:StreamDmesg'' = Ret ()"
  by code_simp+

lemma made_handlers [api_actions]:
  assumes "p @ '':'' @ v @ n = a" "validateAction uc a = Ret ()"
  shows "go_bind (Action uc p v n) (\<lambda>a. NewUnary uc a (Some r) (Some f)) = Ret \<lparr>u_action = a, u_resource = r, u_fn = f\<rparr>"
    and "go_bind (Action uc p v n) (\<lambda>a. NewReadOnly uc a (Some f)) = Ret \<lparr>u_action = a, u_resource = \<lambda>_. ThisNode, u_fn = f\<rparr>"
    and "go_bind (Action uc p v n) (\<lambda>a. NewReadOnlyStream uc a (Some g)) = Ret \<lparr>s_action = a, s_resource = \<lambda>_. ThisNode, s_fn = g\<rparr>"
  using assms by (simp_all add: Action_def Let_def NewUnary_def NewReadOnly_def NewServerStream_def NewReadOnlyStream_def)

text \<open>The server that \<open>NewMachineServer\<close> builds.\<close>

definition machine_server_of ::
    "('x, 'k, 'p) api_env \<Rightarrow> ('x, 'f) api_deps \<Rightarrow> authorizer option \<Rightarrow> 'x world audit_logger option \<Rightarrow> ('x, 'f) machine_server" where
  "machine_server_of env d az audit =
     (let diag = NewDiagnosticsServer (dep_Journal d) (dep_Systemd d) (dep_Proc d);
          unit = (\<lambda>q. serviceResource (cq_Name q));
          control = (\<lambda>op c. serviceControlFn (dep_Systemd d) op) in
      \<lparr>ms_deps = \<lparr>d_authz = az, d_audit = audit\<rparr>,
       ms_version = \<lparr>u_action = ''core:GetVersion'', u_resource = \<lambda>_. ThisNode, u_fn = \<lambda>c _. version_fn env d\<rparr>,
       ms_health = \<lparr>u_action = ''core:GetHealth'', u_resource = \<lambda>_. ThisNode, u_fn = \<lambda>c _. health_fn d\<rparr>,
       ms_stats = \<lparr>u_action = ''diagnostics:GetStats'', u_resource = \<lambda>_. ThisNode, u_fn = \<lambda>c _ w. replied (diagnostics_Stats diag w)\<rparr>,
       ms_serviceStatus = \<lparr>u_action = ''services:DescribeService'', u_resource = serviceResource,
         u_fn = \<lambda>c name w. replied (diagnostics_ServiceStatus diag name w)\<rparr>,
       ms_getConfig = \<lparr>u_action = ''config:GetConfig'', u_resource = \<lambda>_. ThisNode, u_fn = \<lambda>c _. getConfig_fn env (newConfigServerFromDeps d)\<rparr>,
       ms_applyConfig = \<lparr>u_action = ''config:PutConfig'', u_resource = \<lambda>_. ConfigResource ''machine'',
         u_fn = \<lambda>c. applyConfig_fn env (newConfigServerFromDeps d)\<rparr>,
       ms_upgrade = \<lparr>u_action = ''lifecycle:StageUpgrade'', u_resource = \<lambda>img. if img = [] then ThisNode else ImageResource img,
         u_fn = \<lambda>c. upgrade_fn (newUpgradeManagerFromDeps d)\<rparr>,
       ms_rollback = \<lparr>u_action = ''lifecycle:RollbackUpgrade'', u_resource = \<lambda>_. ThisNode, u_fn = \<lambda>c _. rollback_fn (newUpgradeManagerFromDeps d)\<rparr>,
       ms_reboot = \<lparr>u_action = ''lifecycle:StartReboot'', u_resource = \<lambda>_. ThisNode, u_fn = \<lambda>c _. reboot_fn (newUpgradeManagerFromDeps d)\<rparr>,
       ms_startService = \<lparr>u_action = ''services:StartService'', u_resource = unit, u_fn = control sm_start\<rparr>,
       ms_stopService = \<lparr>u_action = ''services:StopService'', u_resource = unit, u_fn = control sm_stop\<rparr>,
       ms_restartService = \<lparr>u_action = ''services:RestartService'', u_resource = unit, u_fn = control sm_restart\<rparr>,
       ms_logs = \<lparr>s_action = ''diagnostics:StreamLogs'', s_resource = \<lambda>_. ThisNode, s_fn = \<lambda>c. LogsStream diag\<rparr>,
       ms_dmesg = \<lparr>s_action = ''diagnostics:StreamDmesg'', s_resource = \<lambda>_. ThisNode, s_fn = \<lambda>c. DmesgStream diag\<rparr>,
       ms_bootstrap = dep_Bootstrap d\<rparr>)"

lemma new_machine_server: "NewMachineServer env d az audit = Ret (machine_server_of env d az audit)"
  by (simp add: NewMachineServer_def machine_server_of_def Let_def made_handlers[OF _ valid_actions(1)]
      made_handlers[OF _ valid_actions(2)] made_handlers[OF _ valid_actions(3)] made_handlers[OF _ valid_actions(4)]
      made_handlers[OF _ valid_actions(5)] made_handlers[OF _ valid_actions(6)] made_handlers[OF _ valid_actions(7)]
      made_handlers[OF _ valid_actions(8)] made_handlers[OF _ valid_actions(9)] made_handlers[OF _ valid_actions(10)]
      made_handlers[OF _ valid_actions(11)] made_handlers[OF _ valid_actions(12)] made_handlers[OF _ valid_actions(13)]
      made_handlers[OF _ valid_actions(14)])

section \<open>Properties\<close>

lemma execute_allowed_or_refused:
  assumes "Execute h zero c deps q w = Ret ((r, e), w')"
  shows "(\<exists>i z. IdentityFromContext c = Some i \<and> d_authz deps = Some z
        \<and> authorize z (ctx.truncate c) i (u_action h) (u_resource h q) = Inr Allow)
    \<or> (e \<noteq> None \<and> (w' = w \<or> (\<exists>i res out. emitAudit (d_audit deps) i (u_action h) res out (peerAddr c) w = Ret w')))"
proof (cases "gate c (d_authz deps) (u_action h) (u_resource h q)")
  case (Admit i)
  then show ?thesis by (auto simp: gate_admit_iff)
next
  case (Refuse x err)
  with assms show ?thesis
    by (cases x) (auto simp: unary_handler.exec_gate outcome_simps audit_opt_def split: prod.splits)
qed

lemma stream_allowed_or_refused:
  assumes "stream_Execute h c deps q send w = Ret (e, w')"
  shows "(\<exists>i z. IdentityFromContext c = Some i \<and> d_authz deps = Some z
        \<and> authorize z (ctx.truncate c) i (s_action h) (s_resource h q) = Inr Allow)
    \<or> (e \<noteq> None \<and> (w' = w \<or> (\<exists>i res out. emitAudit (d_audit deps) i (s_action h) res out (peerAddr c) w = Ret w')))"
proof (cases "gate c (d_authz deps) (s_action h) (s_resource h q)")
  case (Admit i)
  then show ?thesis by (auto simp: gate_admit_iff)
next
  case (Refuse x err)
  with assms show ?thesis
    by (cases x) (auto simp: stream_handler.exec_gate outcome_simps audit_opt_def split: prod.splits)
qed

lemma responded_iff: "responded f m = Ret ((x, e), w) \<longleftrightarrow> (\<exists>r. m = Ret ((r, e), w) \<and> x = f r)"
  by (cases m) (auto simp: responded_def outcome_simps split: prod.splits)

lemmas server_simps = machine_server_of_def Let_def

text \<open>Each call runs one handler with the action and the resource of the tables, or is refused at once.\<close>

lemma serve_cases:
  assumes "serve (machine_server_of env d az audit) sendL sendD c r w = Ret ((resp, err), w')"
  shows "(\<exists>a. rpc_action r = Some a
       \<and> ((\<exists>i z. IdentityFromContext c = Some i \<and> az = Some z \<and> authorize z (ctx.truncate c) i a (rpc_resource r) = Inr Allow)
          \<or> (err \<noteq> None \<and> (w' = w \<or> (\<exists>i res out. emitAudit audit i a res out (peerAddr c) w = Ret w')))))
    \<or> (rpc_action r = None \<and> err \<noteq> None \<and> w' = w)"
proof (cases r)
  case (Control q)
  then show ?thesis
    using assms
    by (auto simp: responded_iff ServiceControl_def server_simps split: if_splits dest!: execute_allowed_or_refused)
next
  case (Logs q)
  then show ?thesis
    using assms by (auto simp: outcome_simps server_simps split: prod.splits dest!: stream_allowed_or_refused)
next
  case (Dmesg q)
  then show ?thesis
    using assms by (auto simp: outcome_simps server_simps split: prod.splits dest!: stream_allowed_or_refused)
qed (use assms in \<open>auto simp: responded_iff server_simps dest!: execute_allowed_or_refused\<close>)

text \<open>
  C4: building the server never panics, and every call but \<open>BootstrapAuth\<close> is authorized with its own action and
  resource: unless the caller has an identity that the authorizer allows to do this action on this resource, the
  call returns an error and nothing but the audit log has changed.
\<close>

theorem api_authorized:
  "\<exists>s. NewMachineServer env d az audit = Ret s \<and>
     (\<forall>sendL sendD c r w resp err w'. serve s sendL sendD c r w = Ret ((resp, err), w') \<longrightarrow>
        (\<exists>i a z. IdentityFromContext c = Some i \<and> rpc_action r = Some a \<and> az = Some z
            \<and> authorize z (ctx.truncate c) i a (rpc_resource r) = Inr Allow)
        \<or> (err \<noteq> None \<and> (w' = w \<or> (\<exists>a i res out. rpc_action r = Some a \<and>
              emitAudit audit i a res out (peerAddr c) w = Ret w'))))"
proof (rule exI[of _ "machine_server_of env d az audit"], rule conjI[OF new_machine_server], intro allI impI)
  fix sendL sendD c r w resp err w'
  assume "serve (machine_server_of env d az audit) sendL sendD c r w = Ret ((resp, err), w')"
  from serve_cases[OF this]
  show "(\<exists>i a z. IdentityFromContext c = Some i \<and> rpc_action r = Some a \<and> az = Some z
            \<and> authorize z (ctx.truncate c) i a (rpc_resource r) = Inr Allow)
        \<or> (err \<noteq> None \<and> (w' = w \<or> (\<exists>a i res out. rpc_action r = Some a \<and>
              emitAudit audit i a res out (peerAddr c) w = Ret w')))"
    by blast
qed

text \<open>
  Calls with an argument that validation rejects; the unit of a log request is not among them.
\<close>

fun bad_input :: "rpc \<Rightarrow> bool" where
  "bad_input (ServiceStatus n) \<longleftrightarrow> UnitName n \<noteq> None"
| "bad_input (Upgrade img) \<longleftrightarrow> ImageRef img \<noteq> None"
| "bad_input (Control q) \<longleftrightarrow> UnitName (cq_Name q) \<noteq> None"
| "bad_input (ApplyConfig m) \<longleftrightarrow> m = None"
| "bad_input _ \<longleftrightarrow> False"

lemma execute_inert:
  assumes "\<And>c. \<exists>r e. u_fn h c q w = Ret ((r, Some e), w)" "d_audit deps = None"
  shows "\<exists>r e. Execute h zero c deps q w = Ret ((r, Some e), w)"
proof (cases "gate c (d_authz deps) (u_action h) (u_resource h q)")
  case (Refuse x e)
  with assms(2) show ?thesis by (cases x) (auto simp: unary_handler.exec_gate audit_opt_def emitAudit_def)
next
  case (Admit i)
  moreover obtain r e where "u_fn h c q w = Ret ((r, Some e), w)" using assms(1) by blast
  ultimately show ?thesis using assms(2) by (auto simp: unary_handler.exec_gate emitAudit_def)
qed


section \<open>What single calls do\<close>

lemma execute_admitted:
  assumes "IdentityFromContext c = Some i" "resource_validate (u_resource h q) = None" "d_authz deps = Some z"
    and "authorize z (ctx.truncate c) i (u_action h) (u_resource h q) = Inr Allow" "d_audit deps = None"
  shows "Execute h zero c deps q w = u_fn h c q w"
proof -
  have "gate c (d_authz deps) (u_action h) (u_resource h q) = Admit i" using assms by (simp add: gate_admit_iff)
  then show ?thesis using assms(5)
    by (cases "u_fn h c q w") (auto simp: unary_handler.exec_gate emitAudit_def)
qed

lemma execute_success:
  assumes "Execute h zero c deps q w = Ret ((r, None), w')" "d_audit deps = None"
  shows "u_fn h c q w = Ret ((r, None), w')"
proof (cases "gate c (d_authz deps) (u_action h) (u_resource h q)")
  case (Refuse x e)
  with assms show ?thesis by (auto simp: unary_handler.exec_gate outcome_simps)
next
  case (Admit i)
  with assms show ?thesis by (auto simp: unary_handler.exec_gate outcome_simps emitAudit_def split: prod.splits)
qed

text \<open>The operation a control request asks for.\<close>

definition control_op :: "32 word \<Rightarrow> ('w systemd_manager \<Rightarrow> string \<Rightarrow> 'w \<Rightarrow> error option \<times> 'w) option" where
  "control_op a =
     (if a = SERVICE_ACTION_START then Some sm_start else if a = SERVICE_ACTION_STOP then Some sm_stop
      else if a = SERVICE_ACTION_RESTART then Some sm_restart else None)"

text \<open>
  C27: a service control call that succeeds had a valid unit name, ran exactly the operation its action number asks
  for on that unit, without error, and answers with the state the unit has after it.
\<close>

theorem api_service_control:
  assumes "serve (machine_server_of env d az None) sendL sendD c (Control q) w = Ret ((resp, None), w')"
  shows "\<exists>sys op v st. UnitName (cq_Name q) = None \<and> dep_Systemd d = Some sys \<and> control_op (cq_Action q) = Some op
    \<and> op sys (cq_Name q) w = (None, v) \<and> sm_status sys (cq_Name q) v = (Inr st, w')
    \<and> resp = ControlResponse (Some \<lparr>cs_Name = us_Name st, cs_ActiveState = us_ActiveState st, cs_SubState = us_SubState st\<rparr>)"
proof -
  obtain r where s: "ServiceControl (machine_server_of env d az None) c q w = Ret ((r, None), w')" and resp: "resp = ControlResponse r"
    using assms by (auto simp: responded_iff)
  then obtain op where op: "control_op (cq_Action q) = Some op" "serviceControlFn (dep_Systemd d) op q w = Ret ((r, None), w')"
    by (auto simp: ServiceControl_def control_op_def server_simps split: if_splits dest!: execute_success)
  then show ?thesis
    by (auto simp: serviceControlFn_def resp split: option.splits prod.splits sum.splits)
qed

lemma proto_interface [simp]: "proto_to_interface (interface_to_proto i) = i"
  by (simp add: proto_to_interface_def interface_to_proto_def)

lemma proto_config [simp]: "protoToConfig (configToProto c) = c"
  by (simp add: protoToConfig_def configToProto_def map_idI)

lemma config_to_proto_fields [simp]:
  "cf_Hostname (configToProto c) = mc_Hostname c" "cf_KernelArgs (configToProto c) = mc_KernelArgs c"
  "cf_DnsServers (configToProto c) = mc_DNSServers c"
  by (simp_all add: configToProto_def)


text \<open>The events a logger of the world's rest records.\<close>

definition ext_recorder :: "event list world audit_logger" where
  "ext_recorder = \<lparr>should_log = (\<lambda>i a r out. Ret True), log_event = (\<lambda>e w. Ret (w\<lparr>w_ext := w_ext w @ [e]\<rparr>))\<rparr>"

lemma on_fs_rest [simp]: "w_ext (snd (on_fs f w)) = w_ext w" "w_boot (snd (on_fs f w)) = w_boot w"
  by (simp_all add: on_fs_def split: prod.split)

lemma run_bootstrap_rest [simp]: "w_ext (snd (run_bootstrap env t q w)) = w_ext w"
  by (simp add: run_bootstrap_def split: prod.split)


section \<open>Examples\<close>


definition test_api_env :: "(event list, nat, nat) api_env" where
  "test_api_env = \<lparr>en_uc = test_uc, en_go_version = ''go1.25'', en_hostname = (\<lambda>w. Inr ''n0''), en_sha256 = (\<lambda>x. x),
     en_crypto = (\<lambda>w. test_crypto)\<rparr>"

text \<open>A manager that does everything at once and records what it did.\<close>

definition did :: "string \<Rightarrow> string \<Rightarrow> event list world \<Rightarrow> error option \<times> event list world" where
  "did a n w = (None, w\<lparr>w_ext := w_ext w @ [zero_event\<lparr>ev_action := a, ev_res_id := n\<rparr>]\<rparr>)"

definition test_units :: "event list world systemd_manager" where
  "test_units =
     \<lparr>sm_list = (\<lambda>w. (Inr [], w)),
      sm_status = (\<lambda>n w. (Inr \<lparr>us_Name = n, us_Description = [], us_LoadState = ''loaded'', us_ActiveState = ''active'',
         us_SubState = ''running'', us_UnitFileState = [], us_MainPID = 7, us_MemoryBytes = 0, us_ActiveEnterTimestamp = []\<rparr>, w)),
      sm_start = did ''start'', sm_stop = did ''stop'', sm_restart = did ''restart'', sm_reboot = did ''reboot'' []\<rparr>"

lemmas unit_ops = systemd_manager.simps

definition test_deps :: "(event list, nat) api_deps" where
  "test_deps = \<lparr>dep_Health = None, dep_Bootc = None, dep_Journal = None, dep_Systemd = Some test_units, dep_Proc = None,
     dep_Network = Some network_NewManager, dep_Kargs = Some (kargs_NewManager test_uc), dep_Bootstrap = True\<rparr>"

definition test_world :: "fs \<Rightarrow> event list world" where
  "test_world s = \<lparr>w_fs = s, w_boot = NewManager ''/d'', w_ext = []\<rparr>"

lemma did_acts: "did a n w = (None, v) \<Longrightarrow> map ev_action (w_ext v) = map ev_action (w_ext w) @ [a]"
  by (auto simp: did_def)

lemma test_world_ext: "w_ext (test_world s) = []"
  by (simp add: test_world_def)

definition test_server :: "(event list, nat) machine_server" where
  "test_server = machine_server_of test_api_env test_deps (Some AllowAll) None"

lemma test_admitted:
  "IdentityFromContext test_ctx = Some \<lparr>id_name = ''bob'', id_groups = [], id_meta = Map.empty\<rparr>"
  "authorize AllowAll c i a r = Inr Allow"
  by (simp_all add: test_ctx_def IdentityFromContext_def AllowAll_def)

lemma test_serve_simps:
  "d_authz (ms_deps test_server) = Some AllowAll" "d_audit (ms_deps test_server) = None"
  by (simp_all add: test_server_def server_simps)

theorem api_authorized_witness:
  "\<exists>s. NewMachineServer test_api_env test_deps None None = Ret s \<and>
     (\<forall>sendL sendD resp w' w. serve s sendL sendD test_ctx Version w \<noteq> Ret ((resp, None), w'))"
proof (rule exE[OF api_authorized[of test_api_env test_deps None None]], elim conjE)
  fix s
  assume s: "NewMachineServer test_api_env test_deps None None = Ret s"
    and a: "\<forall>sendL sendD c r w resp err w'. serve s sendL sendD c r w = Ret ((resp, err), w') \<longrightarrow>
      (\<exists>i a z. IdentityFromContext c = Some i \<and> rpc_action r = Some a \<and> None = Some z
            \<and> authorize z (ctx.truncate c) i a (rpc_resource r) = Inr Allow)
        \<or> (err \<noteq> None \<and> (w' = w \<or> (\<exists>a i res out. rpc_action r = Some a \<and> emitAudit None i a res out (peerAddr c) w = Ret w')))"
  have "serve s sendL sendD test_ctx Version w \<noteq> Ret ((resp, None), w')" for sendL sendD resp w' w
    using a[rule_format, of sendL sendD test_ctx Version w resp None w'] by auto
  with s show ?thesis by (intro exI[of _ s]) simp
qed


theorem api_service_control_witness:
  "\<exists>v. sm_stop test_units ''a.service'' (test_world test_node) = (None, v) \<and> map ev_action (w_ext v) = [''stop'']
     \<and> (\<exists>r. serve test_server (\<lambda>r w. (None, w)) (\<lambda>r w. (None, w)) test_ctx (Control \<lparr>cq_Name = ''a.service'', cq_Action = 1\<rparr>)
          (test_world test_node) = Ret ((r, None), v))"
proof -
  let ?q = "\<lparr>cq_Name = ''a.service'', cq_Action = 1\<rparr>"
  let ?w = "test_world test_node"
  have un: "UnitName ''a.service'' = None" by code_simp
  have res: "resource_validate (serviceResource ''a.service'') = None" by code_simp
  have f: "u_fn (ms_stopService test_server) c = serviceControlFn (Some test_units) sm_stop"
    "u_resource (ms_stopService test_server) ?q = serviceResource ''a.service''" for c
    by (simp_all add: test_server_def server_simps test_deps_def)
  have "Execute (ms_stopService test_server) None test_ctx (ms_deps test_server) ?q ?w
      = u_fn (ms_stopService test_server) test_ctx ?q ?w"
    by (rule execute_admitted[OF test_admitted(1) _ _ test_admitted(2)]) (simp_all only: f res test_serve_simps)
  moreover have "\<exists>r v. serviceControlFn (Some test_units) sm_stop ?q ?w = Ret ((r, None), v)"
    by (simp add: serviceControlFn_def un test_units_def did_def)
  ultimately have "\<exists>r v. serve test_server (\<lambda>r w. (None, w)) (\<lambda>r w. (None, w)) test_ctx (Control ?q) ?w = Ret ((r, None), v)"
    unfolding f by (auto simp: ServiceControl_def SERVICE_ACTION_START_def SERVICE_ACTION_STOP_def responded_def)
  then obtain r v where s: "serve test_server (\<lambda>r w. (None, w)) (\<lambda>r w. (None, w)) test_ctx (Control ?q) ?w = Ret ((r, None), v)"
    by blast
  from api_service_control[OF this[unfolded test_server_def]]
  obtain sys op u st where sys: "dep_Systemd test_deps = Some sys" and op: "control_op (cq_Action ?q) = Some op"
    and run: "op sys (cq_Name ?q) ?w = (None, u)" and st: "sm_status sys (cq_Name ?q) u = (Inr st, v)"
    by (elim exE conjE)
  have sys': "sys = test_units" using sys by (simp add: test_deps_def)
  have op': "op = sm_stop" using op by (simp add: control_op_def SERVICE_ACTION_START_def SERVICE_ACTION_STOP_def)
  have "u = v" using st by (simp add: sys' test_units_def)
  with run have "did ''stop'' ''a.service'' ?w = (None, v)" unfolding sys' op' \<open>u = v\<close> control_request.simps by (simp only: test_units_def unit_ops)
  then have v: "sm_stop test_units ''a.service'' ?w = (None, v)" by (simp only: test_units_def unit_ops)
  have "map ev_action (w_ext v) = [''stop'']"
    using did_acts[OF \<open>did ''stop'' ''a.service'' ?w = (None, v)\<close>] unfolding test_world_ext by simp
  then show ?thesis using v s by (intro exI[of _ v] conjI exI[of _ r])
qed



end
