(* ===== verification/Agent_Server.thy ===== *)
theory Agent_Server
  imports Machine_Api
begin

text \<open>
  Package \<open>internal/agent\<close>: the gRPC server put together. The options name the TLS configuration, the dependencies
  of the calls, the authenticator, the authorizer and the audit log; the server runs every call through the
  authentication interceptors before the handlers of \<open>Machine_Api\<close>. The gRPC library is modelled by what the code
  relies on: the chain of interceptors, the method names of the generated code, and that a call that returns an
  error sends no response.
\<close>

section \<open>Methods\<close>

text \<open>The full names in the generated code.\<close>

definition service_prefix :: string where
  "service_prefix = ''/hb.v1alpha1.MachineService/''"

definition bootstrap_method :: string where
  "bootstrap_method = service_prefix @ ''BootstrapAuth''"

fun rpc_method :: "rpc \<Rightarrow> string" where
  "rpc_method Version = ''Version''"
| "rpc_method Health = ''Health''"
| "rpc_method Stats = ''Stats''"
| "rpc_method (ServiceStatus n) = ''ServiceStatus''"
| "rpc_method GetConfig = ''GetConfig''"
| "rpc_method (ApplyConfig m) = ''ApplyConfig''"
| "rpc_method (Upgrade img) = ''Upgrade''"
| "rpc_method Rollback = ''Rollback''"
| "rpc_method Reboot = ''Reboot''"
| "rpc_method (Control q) = ''ServiceControl''"
| "rpc_method (Logs q) = ''Logs''"
| "rpc_method (Dmesg q) = ''Dmesg''"

definition full_method :: "rpc \<Rightarrow> string" where
  "full_method r = service_prefix @ rpc_method r"

fun streaming :: "rpc \<Rightarrow> bool" where
  "streaming (Logs q) = True"
| "streaming (Dmesg q) = True"
| "streaming _ = False"

lemma method_not_bootstrap [simp]: "full_method r \<noteq> bootstrap_method"
  by (cases r) (simp_all add: full_method_def bootstrap_method_def)

section \<open>The server\<close>

record ('x, 'f) agent_options =
  op_TLS :: tls_config
  op_Deps :: "('x, 'f) api_deps"
  op_Auth :: "(rctx, 'x world) authenticator option"
  op_Authz :: "authorizer option"
  op_Audit :: "'x world audit_logger option"
  op_BootstrapActive :: bool

record ('x, 'f) agent_server =
  ag_tls :: tls_config
  ag_auth :: "(rctx, 'x world) authenticator option"
  ag_skip :: "string \<Rightarrow> bool"
  ag_machine :: "('x, 'f) machine_server"

text \<open>
  While enrolment is possible, clients need no certificate (it is verified if they show one) and the enrolment
  call needs no authentication.
\<close>

definition NewServer :: "('x, 'k, 'p) api_env \<Rightarrow> ('x, 'f) agent_options \<Rightarrow> ('x, 'f) agent_server go" where
  "NewServer env opts =
     (let tls = (if op_BootstrapActive opts then (op_TLS opts)\<lparr>tls_require_client := False\<rparr> else op_TLS opts);
          skip = (\<lambda>m. op_BootstrapActive opts \<and> m = bootstrap_method) in
      go_bind (NewMachineServer env (op_Deps opts) (op_Authz opts) (op_Audit opts)) (\<lambda>machine.
        Ret \<lparr>ag_tls = tls, ag_auth = op_Auth opts, ag_skip = skip, ag_machine = machine\<rparr>))"

definition Listen :: "(string \<Rightarrow> 'w \<Rightarrow> error option \<times> 'w) \<Rightarrow> string \<Rightarrow> 'w \<Rightarrow> error option \<times> 'w" where
  "Listen net_listen addr w =
     (case net_listen addr w of
        (Some e, w) \<Rightarrow> (Some (Wrap (''listen on '' @ addr) e), w)
      | (None, w) \<Rightarrow> (None, w))"

section \<open>A call\<close>

text \<open>An error leaves no response.\<close>

definition outcome :: "(('r \<times> error option) \<times> 'w) go \<Rightarrow> ((error + 'r) \<times> 'w) go" where
  "outcome m = go_bind m (\<lambda>((r, e), w). Ret (case e of None \<Rightarrow> Inr r | Some x \<Rightarrow> Inl x, w))"

definition unary_chain ::
    "('x, 'f) agent_server \<Rightarrow> rctx \<Rightarrow> 'q \<Rightarrow> string \<Rightarrow> (rctx, 'q, 'r, 'x world) unary_handler \<Rightarrow> 'x world \<Rightarrow>
     ((error + 'r) \<times> 'x world) go" where
  "unary_chain s c q m h w =
     (case ag_auth s of None \<Rightarrow> h c q w | Some a \<Rightarrow> UnaryInterceptor a (ag_skip s) c q m h w)"

definition stream_chain ::
    "('x, 'f) agent_server \<Rightarrow> rctx \<Rightarrow> string \<Rightarrow> (rctx, 'x world) stream_handler \<Rightarrow> 'x world \<Rightarrow>
     (error option \<times> 'x world) go" where
  "stream_chain s c m h w =
     (case ag_auth s of None \<Rightarrow> h c w | Some a \<Rightarrow> StreamInterceptor a (ag_skip s) c m h w)"

definition agent_call ::
    "('x, 'f) agent_server \<Rightarrow> (logs_response \<Rightarrow> 'x world \<Rightarrow> error option \<times> 'x world) \<Rightarrow>
     (dmesg_response \<Rightarrow> 'x world \<Rightarrow> error option \<times> 'x world) \<Rightarrow> rctx \<Rightarrow> rpc \<Rightarrow> 'x world \<Rightarrow>
     ((error + 'f response) \<times> 'x world) go" where
  "agent_call s sendL sendD c r w =
     (let run = (\<lambda>c w. serve (ag_machine s) sendL sendD c r w) in
      if streaming r then
        go_bind (stream_chain s c (full_method r) (\<lambda>c w. go_bind (run c w) (\<lambda>((x, e), w). Ret (e, w))) w)
          (\<lambda>(e, w). Ret (case e of None \<Rightarrow> Inr Streamed | Some x \<Rightarrow> Inl x, w))
      else unary_chain s c r (full_method r) (\<lambda>c q w. outcome (run c w)) w)"

definition agent_enrol ::
    "('x, 'k, 'p) api_env \<Rightarrow> ('x, 'f) agent_server \<Rightarrow> rctx \<Rightarrow> bootstrap_request \<Rightarrow> 'x world \<Rightarrow>
     ((error + bootstrap_response) \<times> 'x world) go" where
  "agent_enrol env s c q w = unary_chain s c q bootstrap_method (\<lambda>c q w. BootstrapAuth env (ag_machine s) c q w) w"

section \<open>Properties\<close>

lemma new_server:
  "NewServer env opts = Ret \<lparr>ag_tls = (if op_BootstrapActive opts then (op_TLS opts)\<lparr>tls_require_client := False\<rparr> else op_TLS opts),
     ag_auth = op_Auth opts, ag_skip = (\<lambda>m. op_BootstrapActive opts \<and> m = bootstrap_method),
     ag_machine = machine_server_of env (op_Deps opts) (op_Authz opts) (op_Audit opts)\<rparr>"
  by (simp add: NewServer_def new_machine_server Let_def)

lemma outcome_Inr: "outcome m = Ret (Inr r, w) \<longleftrightarrow> m = Ret ((r, None), w)"
  by (cases m) (auto simp: outcome_def split: prod.splits option.splits)

lemma outcome_Inl: "outcome m = Ret (Inl e, w) \<longleftrightarrow> (\<exists>r. m = Ret ((r, Some e), w))"
  by (cases m) (auto simp: outcome_def split: prod.splits option.splits)

text \<open>A call that is answered went through the authenticator and then through its handler.\<close>

lemma agent_call_answered:
  assumes "NewServer env opts = Ret s" "agent_call s sendL sendD c r w = Ret (Inr resp, w')" "ctx_identity c = None"
  obtains a i v x where "op_Auth opts = Some a" "authenticate a c w = (Inr i, v)"
    "serve (machine_server_of env (op_Deps opts) (op_Authz opts) (op_Audit opts)) sendL sendD (ContextWithIdentity c i) r v = Ret ((x, None), w')"
proof -
  let ?m = "machine_server_of env (op_Deps opts) (op_Authz opts) (op_Audit opts)"
  have s: "ag_auth s = op_Auth opts" "ag_skip s (full_method r) = False" "ag_machine s = ?m"
    using assms(1) by (auto simp: new_server)
  show thesis
  proof (cases "op_Auth opts")
    case None
    have "\<exists>x. serve ?m sendL sendD c r w = Ret ((x, None), w')"
      using assms(2) None
      by (auto simp: agent_call_def unary_chain_def stream_chain_def s outcome_simps outcome_Inr Let_def
          split: if_splits prod.splits option.splits)
    then obtain x where "serve ?m sendL sendD c r w = Ret ((x, None), w')" by blast
    from serve_cases[OF this] assms(3) show thesis by (auto simp: IdentityFromContext_def)
  next
    case (Some a)
    obtain q v where q: "authenticate a c w = (q, v)" by fastforce
    show thesis
    proof (cases q)
      case (Inl e)
      with assms(2) Some q show thesis
        by (auto simp: agent_call_def unary_chain_def stream_chain_def UnaryInterceptor_def StreamInterceptor_def s Let_def
            split: if_splits)
    next
      case (Inr i)
      have "\<exists>x. serve ?m sendL sendD (ContextWithIdentity c i) r v = Ret ((x, None), w')"
        using assms(2) Some q Inr
        by (auto simp: agent_call_def unary_chain_def stream_chain_def UnaryInterceptor_def StreamInterceptor_def s
            outcome_simps outcome_Inr Let_def split: if_splits prod.splits option.splits)
      with that[OF Some, of i v] q Inr show thesis by blast
    qed
  qed
qed

text \<open>
  a request from the network is answered without an error only if the configured authenticator gave an identity
  for it and the configured authorizer allows that identity the action of this call on its resource. This holds
  for every call but the enrolment, whether enrolment is active or not.
\<close>

theorem agent_answers_only_authorized:
  assumes "NewServer env opts = Ret s" "agent_call s sendL sendD c r w = Ret (Inr resp, w')" "ctx_identity c = None"
  shows "\<exists>a i v z act. op_Auth opts = Some a \<and> authenticate a c w = (Inr i, v) \<and> op_Authz opts = Some z
    \<and> rpc_action r = Some act
    \<and> authorize z (ctx.truncate (ContextWithIdentity c i)) i act (rpc_resource r) = Inr Allow"
proof -
  obtain a i v x where a: "op_Auth opts = Some a" "authenticate a c w = (Inr i, v)"
    and x: "serve (machine_server_of env (op_Deps opts) (op_Authz opts) (op_Audit opts)) sendL sendD (ContextWithIdentity c i) r v = Ret ((x, None), w')"
    by (rule agent_call_answered[OF assms])
  from serve_cases[OF x] show ?thesis
    using a by (auto simp: IdentityFromContext_def ContextWithIdentity_def)
qed

text \<open>
  with the mTLS authenticator the identity that acts is the subject of a client certificate the TLS layer
  verified, so without one no call but the enrolment is answered; and the TLS layer itself asks for one unless
  enrolment was active when the agent started.
\<close>

theorem agent_mtls:
  assumes "NewServer env opts = Ret s" "mtls_new None = Inr a" "op_Auth opts = Some a" "ctx_identity c = None"
    and "agent_call s sendL sendD c r w = Ret (Inr resp, w')"
  shows "(\<exists>p leaf chain chains. ctx_peer c = Some p \<and> peer_auth p = TLSInfo ((leaf # chain) # chains)
      \<and> (\<exists>z act. op_Authz opts = Some z \<and> rpc_action r = Some act \<and>
           (\<exists>i. id_name i = cert_cn leaf \<and> authorize z (ctx.truncate (ContextWithIdentity c i)) i act (rpc_resource r) = Inr Allow)))
    \<and> tls_require_client (ag_tls s) = (tls_require_client (op_TLS opts) \<and> \<not> op_BootstrapActive opts)"
proof
  obtain a' i v x where a: "op_Auth opts = Some a'" "authenticate a' c w = (Inr i, v)"
    and x: "serve (machine_server_of env (op_Deps opts) (op_Authz opts) (op_Audit opts)) sendL sendD (ContextWithIdentity c i) r v = Ret ((x, None), w')"
    by (rule agent_call_answered[OF assms(1,5,4)])
  have "mtls_authenticate c = Inr i"
    using a assms(2,3) by (auto simp: mtls_new_def)
  then obtain p leaf chain chains where "ctx_peer c = Some p" "peer_auth p = TLSInfo ((leaf # chain) # chains)"
    "id_name i = cert_cn leaf"
    by (auto simp: mtls_authenticate_def Let_def split: option.splits auth_info.splits list.splits if_splits)
  with serve_cases[OF x] show "\<exists>p leaf chain chains. ctx_peer c = Some p \<and> peer_auth p = TLSInfo ((leaf # chain) # chains)
      \<and> (\<exists>z act. op_Authz opts = Some z \<and> rpc_action r = Some act \<and>
           (\<exists>i. id_name i = cert_cn leaf \<and> authorize z (ctx.truncate (ContextWithIdentity c i)) i act (rpc_resource r) = Inr Allow))"
    by (auto simp: IdentityFromContext_def ContextWithIdentity_def)
  show "tls_require_client (ag_tls s) = (tls_require_client (op_TLS opts) \<and> \<not> op_BootstrapActive opts)"
    using assms(1) by (auto simp: new_server split: if_splits)
qed

section \<open>Examples\<close>

definition test_options :: "(event list, nat) agent_options" where
  "test_options = \<lparr>op_TLS = \<lparr>tls_cert = ''C'', tls_client_cas = ''CA'', tls_require_client = True, tls_min_13 = True\<rparr>,
     op_Deps = test_deps, op_Auth = Some \<lparr>authn_name = ''mtls'', authenticate = (\<lambda>c w. (mtls_authenticate c, w))\<rparr>,
     op_Authz = Some AllowAll, op_Audit = None, op_BootstrapActive = True\<rparr>"

definition test_cert_ctx :: rctx where
  "test_cert_ctx = \<lparr>ctx_peer = Some \<lparr>peer_addr = ''10.0.0.1'',
       peer_auth = TLSInfo [[\<lparr>cert_cn = ''bob'', cert_org = [], cert_serial = ''1'', cert_not_after = ''x''\<rparr>]]\<rparr>,
     ctx_metadata = None, ctx_identity = None, ctx_authz = None, ctx_checked = False\<rparr>"

lemma test_answered:
  "\<exists>s resp. NewServer test_api_env test_options = Ret s \<and>
     agent_call s (\<lambda>r w. (None, w)) (\<lambda>r w. (None, w)) test_cert_ctx Version (test_world test_node) = Ret (Inr resp, test_world test_node)"
proof -
  obtain i where i: "mtls_authenticate test_cert_ctx = Inr i"
    by (simp add: mtls_authenticate_def test_cert_ctx_def)
  obtain s where s: "NewServer test_api_env test_options = Ret s" by (simp add: new_server)
  then have f: "ag_auth s = op_Auth test_options" "ag_skip s (full_method r) = False"
    "ag_machine s = machine_server_of test_api_env test_deps (Some AllowAll) None" for r
    by (auto simp: new_server test_options_def)
  have "\<exists>resp. agent_call s (\<lambda>r w. (None, w)) (\<lambda>r w. (None, w)) test_cert_ctx Version (test_world test_node) = Ret (Inr resp, test_world test_node)"
    by (simp add: agent_call_def f unary_chain_def UnaryInterceptor_def test_options_def i ContextWithIdentity_def Let_def
        server_simps execute_admitted IdentityFromContext_def test_admitted(2) version_fn_def test_deps_def responded_def outcome_def)
  with s show ?thesis by blast
qed

theorem agent_answers_only_authorized_witness:
  "\<exists>i z. mtls_authenticate test_cert_ctx = Inr i \<and> op_Authz test_options = Some z
     \<and> authorize z (ctx.truncate (ContextWithIdentity test_cert_ctx i)) i ''core:GetVersion'' ThisNode = Inr Allow"
proof -
  obtain s resp where s: "NewServer test_api_env test_options = Ret s"
    "agent_call s (\<lambda>r w. (None, w)) (\<lambda>r w. (None, w)) test_cert_ctx Version (test_world test_node) = Ret (Inr resp, test_world test_node)"
    using test_answered by blast
  have "ctx_identity test_cert_ctx = None" by (simp add: test_cert_ctx_def)
  from agent_answers_only_authorized[OF s this] show ?thesis by (auto simp: test_options_def)
qed

theorem agent_mtls_witness:
  "\<exists>s. NewServer test_api_env test_options = Ret s \<and> \<not> tls_require_client (ag_tls s)
     \<and> (\<exists>p leaf chain chains. ctx_peer test_cert_ctx = Some p \<and> peer_auth p = TLSInfo ((leaf # chain) # chains))"
proof -
  obtain s resp where s: "NewServer test_api_env test_options = Ret s"
    "agent_call s (\<lambda>r w. (None, w)) (\<lambda>r w. (None, w)) test_cert_ctx Version (test_world test_node) = Ret (Inr resp, test_world test_node)"
    using test_answered by blast
  have c: "ctx_identity test_cert_ctx = None" by (simp add: test_cert_ctx_def)
  have a: "mtls_new None = Inr (the (op_Auth test_options))" "op_Auth test_options = Some (the (op_Auth test_options))"
    by (simp_all add: test_options_def mtls_new_def)
  from agent_mtls[OF s(1) a c s(2)] s(1) show ?thesis by (auto simp: test_options_def)
qed

end
