(* ===== verification/Plugins.thy ===== *)
theory Plugins
  imports Authn Machine_Config Health Bootc Journal Proc_Stats
begin

text \<open>
  Package \<open>internal/plugin\<close> and the four plugins under \<open>plugins/\<close>: the registry of factories, and what each plugin
  holds and which health probes it brings. What the plugins reach outside the agent (the system bus, the bootc and
  journalctl commands, the files in \<open>/proc\<close>) is the record \<open>plugin_env\<close>.
\<close>

section \<open>The registry\<close>

definition plugin_NewRegistry :: "string \<rightharpoonup> 'f" where
  "plugin_NewRegistry = Map.empty"

definition plugin_Register :: "string \<Rightarrow> 'f \<Rightarrow> (string \<rightharpoonup> 'f) \<Rightarrow> error option \<times> (string \<rightharpoonup> 'f)" where
  "plugin_Register name f r =
     (case r name of
        Some g \<Rightarrow> (Some (MsgQ ''plugin already registered: '' name []), r)
      | None \<Rightarrow> (None, r(name \<mapsto> f)))"

definition plugin_Names :: "(string set \<Rightarrow> string list) \<Rightarrow> (string \<rightharpoonup> 'f) \<Rightarrow> string list" where
  "plugin_Names order r = order (dom r)"

definition plugin_Create ::
    "(string set \<Rightarrow> string list) \<Rightarrow> (string \<rightharpoonup> (string option \<Rightarrow> error + 'a)) \<Rightarrow> string \<Rightarrow> string option \<Rightarrow> error + 'a" where
  "plugin_Create order r name cfg =
     (case r name of
        None \<Rightarrow> Inl (MsgQ ''unknown plugin: '' name
                  ('' (registered: ['' @ join_with '' '' (plugin_Names order r) @ ''])''))
      | Some factory \<Rightarrow> factory cfg)"

interpretation plugin_registry: factory_registry plugin_Register "\<lambda>r. r"
  by unfold_locales (auto simp: plugin_Register_def split: option.splits)

section \<open>The plugins\<close>

record ('w, 'f) plugin_env =
  pe_uc :: unicode
  pe_bus :: "'w systemd_bus"
  pe_bootc :: "'w executor"
  pe_float :: "string \<Rightarrow> string option"
  pe_journalctl :: "string list \<Rightarrow> 'w \<Rightarrow> journal_run \<times> 'w"
  pe_floats :: "'f floats"
  pe_proc :: "'w \<Rightarrow> proc_source"

record 'w services_plugin =
  sp_systemd :: "'w systemd_manager"
  sp_HealthUnits :: "string list"

record ('w, 'f) diagnostics_plugin =
  dp_journal :: "'w journal_reader"
  dp_proc :: "'w \<Rightarrow> (error + 'f stats) \<times> 'w"

record 'w lifecycle_plugin =
  lp_bootc :: "'w bootc_manager"

record config_plugin =
  cp_network :: net_manager
  cp_kargs :: kargs_manager

datatype ('w, 'f) plugin =
    Services "'w services_plugin"
  | Diagnostics "('w, 'f) diagnostics_plugin"
  | Lifecycle "'w lifecycle_plugin"
  | ConfigPlugin config_plugin

definition services_New :: "('w, 'f) plugin_env \<Rightarrow> string option \<Rightarrow> error + 'w services_plugin" where
  "services_New env raw =
     res_bind (case raw of
         None \<Rightarrow> Inr []
       | Some s \<Rightarrow> wrap_err ''parse services config''
           (res_bind (json_members_of s) (\<lambda>ms. json_field ''health_units'' as_strings ms [])))
       (\<lambda>units. Inr \<lparr>sp_systemd = DBusManager (pe_bus env),
          sp_HealthUnits = (if length units = 0 then [''crio.service'', ''kubelet.service''] else units)\<rparr>)"

definition diagnostics_New :: "('w, 'f) plugin_env \<Rightarrow> string option \<Rightarrow> error + ('w, 'f) diagnostics_plugin" where
  "diagnostics_New env raw =
     Inr \<lparr>dp_journal = JournalctlReader (pe_float env) (pe_journalctl env),
          dp_proc = (\<lambda>w. (proc_Read (pe_floats env) [''/'', ''/var''] (pe_proc env w), w))\<rparr>"

definition lifecycle_New :: "('w, 'f) plugin_env \<Rightarrow> string option \<Rightarrow> error + 'w lifecycle_plugin" where
  "lifecycle_New env raw = Inr \<lparr>lp_bootc = bootc_CLI (pe_bootc env)\<rparr>"

definition config_New :: "('w, 'f) plugin_env \<Rightarrow> string option \<Rightarrow> error + config_plugin" where
  "config_New env raw = Inr \<lparr>cp_network = network_NewManager, cp_kargs = kargs_NewManager (pe_uc env)\<rparr>"

fun plugin_Name :: "('w, 'f) plugin \<Rightarrow> string" where
  "plugin_Name (Services p) = ''services''"
| "plugin_Name (Diagnostics p) = ''diagnostics''"
| "plugin_Name (Lifecycle p) = ''lifecycle''"
| "plugin_Name (ConfigPlugin p) = ''config''"

text \<open>\<open>Init\<close> of every plugin returns nil.\<close>

fun plugin_Init :: "('w, 'f) plugin \<Rightarrow> error option" where
  "plugin_Init p = None"

definition bootc_probe :: "unicode \<Rightarrow> 'w bootc_manager \<Rightarrow> 'w \<Rightarrow> (int \<times> string) \<times> 'w" where
  "bootc_probe uc b w =
     (case bm_Status b w of
        (Inl e, w) \<Rightarrow> ((Unknown, error_text uc e), w)
      | (Inr st, w) \<Rightarrow>
          ((Health.Healthy, bc_Image st @ (if bc_Staged st \<noteq> [] then '' (staged: '' @ bc_Staged st @ '')'' else [])), w))"

fun HealthChecks :: "('w, 'f) plugin_env \<Rightarrow> ('w, 'f) plugin \<Rightarrow> 'w probe list" where
  "HealthChecks env (Services p) = SystemdUnitProbes (pe_uc env) (pe_bus env) (sp_HealthUnits p)"
| "HealthChecks env (Diagnostics p) = []"
| "HealthChecks env (Lifecycle p) =
     [\<lparr>pr_Name = ''lifecycle:bootc'', pr_Critical = False, pr_Check = bootc_probe (pe_uc env) (lp_bootc p)\<rparr>]"
| "HealthChecks env (ConfigPlugin p) = []"

section \<open>Facts\<close>

lemma registered_lookup:
  "plugin_registry.register_all xs plugin_NewRegistry m = map_of xs m"
  using plugin_registry.register_all_lookup[of plugin_NewRegistry m xs] by (simp add: plugin_NewRegistry_def)

lemma services_default: "services_New env None = Inr \<lparr>sp_systemd = DBusManager (pe_bus env),
    sp_HealthUnits = [''crio.service'', ''kubelet.service'']\<rparr>"
  by (simp add: services_New_def)

text \<open>A probe of the lifecycle plugin never makes the node unhealthy: it is not critical and never reports so.\<close>

lemma bootc_probe_mild: "fst (fst (bootc_probe uc b w)) \<noteq> Unhealthy"
  by (auto simp: bootc_probe_def Unknown_def Health.Healthy_def Unhealthy_def split: prod.split sum.split)

end
