(* ===== verification/Hb_Agent.thy ===== *)
theory Hb_Agent
  imports Agent_Server Plugins Oidc Cedar Agent_Config
begin

text \<open>
  \<open>cmd/hb-agent\<close>: the start of the agent from its configuration, with the registries of authenticators, authorizers
  and plugins, the audit log and the server, and the health loop that feeds the watchdog. The world of the agent adds
  to \<open>world\<close> the file logger and the OIDC provider, which are objects the code mutates. What is outside the process
  is the record \<open>hb_env\<close>.
\<close>

section \<open>The world and the environment\<close>

record 'y agent_ext =
  ae_log :: file_logger
  ae_oidc :: oidc_provider
  ae_rest :: 'y

type_synonym 'y agent_world = "'y agent_ext world"

record ('y, 'f, 'k, 'p, 'pol) hb_env =
  he_api :: "('y agent_ext, 'k, 'p) api_env"
  he_plugins :: "('y agent_world, 'f) plugin_env"
  he_order :: "string set \<Rightarrow> string list"
  he_key_pair :: "string \<Rightarrow> string \<Rightarrow> error + string"
  he_is_pool :: "string \<Rightarrow> bool"
  he_oidc :: "'y agent_world oidc_env"
  he_cedar :: "'pol cedar_lib"
  he_rand_key :: "'y agent_world \<Rightarrow> error + string"
  he_canon :: "string \<Rightarrow> string option"
  he_hmac :: "string \<Rightarrow> string \<Rightarrow> string"
  he_stamp :: "'y agent_world \<Rightarrow> (string \<times> string \<times> int) \<times> 'y agent_world"
  he_listen :: "string \<Rightarrow> 'y agent_world \<Rightarrow> error option \<times> 'y agent_world"
  he_notify :: "string \<Rightarrow> 'y agent_world \<Rightarrow> error option \<times> 'y agent_world"

definition set_log :: "file_logger \<Rightarrow> 'y agent_world \<Rightarrow> 'y agent_world" where
  "set_log l w = w\<lparr>w_ext := (w_ext w)\<lparr>ae_log := l\<rparr>\<rparr>"

definition set_oidc :: "oidc_provider \<Rightarrow> 'y agent_world \<Rightarrow> 'y agent_world" where
  "set_oidc p w = w\<lparr>w_ext := (w_ext w)\<lparr>ae_oidc := p\<rparr>\<rparr>"

section \<open>The audit log as the server sees it\<close>

text \<open>
  \<open>NewServer\<close> takes an \<open>audit.Logger\<close>, an interface. The agent passes a \<open>*FileLogger\<close>: the interface is never nil, and
  when the logger could not be opened it holds a nil pointer whose methods panic.
\<close>

definition log_in_world :: "('y, 'f, 'k, 'p, 'pol) hb_env \<Rightarrow> event \<Rightarrow> 'y agent_world \<Rightarrow> 'y agent_world" where
  "log_in_world env e w =
     (case he_stamp env w of
        ((ts, bytes, cutoff), w) \<Rightarrow>
          (case Log (he_hmac env) ts bytes cutoff e (ae_log (w_ext w), w_fs w) of
             (l, s) \<Rightarrow> set_log l (w\<lparr>w_fs := s\<rparr>)))"

definition file_audit :: "('y, 'f, 'k, 'p, 'pol) hb_env \<Rightarrow> audit_config \<Rightarrow> 'y agent_world audit_logger" where
  "file_audit env cfg =
     \<lparr>should_log = (\<lambda>i a r out. Ret (ShouldLog cfg i a r out)), log_event = (\<lambda>e w. Ret (log_in_world env e w))\<rparr>"

definition nil_file_audit :: "'w audit_logger" where
  "nil_file_audit = \<lparr>should_log = (\<lambda>i a r out. nil_panic), log_event = (\<lambda>e w. nil_panic)\<rparr>"

definition lifecycle_event :: "string \<Rightarrow> string \<Rightarrow> event" where
  "lifecycle_event t out = zero_event\<lparr>ev_type := ''lifecycle.'' @ t, ev_action := t, ev_outcome := out\<rparr>"

definition emitLifecycle ::
    "('y, 'f, 'k, 'p, 'pol) hb_env \<Rightarrow> bool \<Rightarrow> string \<Rightarrow> string \<Rightarrow> 'y agent_world \<Rightarrow> 'y agent_world" where
  "emitLifecycle env open t out w = (if \<not> open then w else log_in_world env (lifecycle_event t out) w)"

section \<open>Registries\<close>

definition must :: "unicode \<Rightarrow> error option \<Rightarrow> unit go" where
  "must uc e = (case e of None \<Rightarrow> Ret () | Some x \<Rightarrow> Panic (error_text uc x))"

fun must_register ::
    "unicode \<Rightarrow> (string \<Rightarrow> 'f \<Rightarrow> 'r \<Rightarrow> error option \<times> 'r) \<Rightarrow> (string \<times> 'f) list \<Rightarrow> 'r \<Rightarrow> 'r go" where
  "must_register uc register [] r = Ret r"
| "must_register uc register ((n, f) # xs) r =
     (case register n f r of (e, r) \<Rightarrow> go_bind (must uc e) (\<lambda>_. must_register uc register xs r))"

context factory_registry
begin

text \<open>Registering different names in a registry that has none of them does not panic, and each name gets its factory.\<close>

lemma must_register_fresh:
  "distinct (map fst xs) \<Longrightarrow> \<forall>n\<in>fst ` set xs. lookup r n = None \<Longrightarrow>
     must_register uc register xs r = Ret (register_all xs r)"
proof (induction xs arbitrary: r)
  case (Cons x xs)
  obtain n f where x: "x = (n, f)" by fastforce
  obtain e r' where reg: "register n f r = (e, r')" by fastforce
  have "lookup r n = None" using Cons.prems(2) x by simp
  then have "e = None" "\<forall>m\<in>fst ` set xs. lookup r' m = None"
    using fresh[of r n f] inserted[of r n f] Cons.prems reg x by auto
  then show ?case using Cons.IH[of r'] Cons.prems(1) x reg by (simp add: must_def)
qed simp

end

text \<open>A factory that needs the world (the discovery of a provider, the policy files) gives an action on it.\<close>

type_synonym ('w, 'a) factory = "string option \<Rightarrow> error + ('w \<Rightarrow> (error + 'a) \<times> 'w)"

definition pure_factory :: "(string option \<Rightarrow> error + 'a) \<Rightarrow> ('w, 'a) factory" where
  "pure_factory f cfg = (case f cfg of Inl e \<Rightarrow> Inl e | Inr x \<Rightarrow> Inr (\<lambda>w. (Inr x, w)))"

definition token_authenticator :: "(string \<Rightarrow> string) \<Rightarrow> token_provider \<Rightarrow> (rctx, 'w) authenticator" where
  "token_authenticator sha256 p =
     \<lparr>authn_name = ''token'', authenticate = (\<lambda>c w. (token_authenticate sha256 p c, w))\<rparr>"

definition oidc_authenticator :: "'y agent_world oidc_env \<Rightarrow> (rctx, 'y agent_world) authenticator" where
  "oidc_authenticator env =
     \<lparr>authn_name = ''oidc'', authenticate = (\<lambda>c w.
        (case oidc_Authenticate env (ae_oidc (w_ext w)) c w of ((r, p), w) \<Rightarrow> (r, set_oidc p w)))\<rparr>"

definition oidc_factory :: "'y agent_world oidc_env \<Rightarrow> ('y agent_world, (rctx, 'y agent_world) authenticator) factory" where
  "oidc_factory env cfg =
     Inr (\<lambda>w. (case oidc_New env cfg w of
        (Inl e, w) \<Rightarrow> (Inl e, w)
      | (Inr p, w) \<Rightarrow> (Inr (oidc_authenticator env), set_oidc p w)))"

definition config_option :: "string \<Rightarrow> string option" where
  "config_option s = (if s \<noteq> [] then Some s else None)"

definition authn_factories ::
    "('y, 'f, 'k, 'p, 'pol) hb_env \<Rightarrow> (string \<times> ('y agent_world, (rctx, 'y agent_world) authenticator) factory) list" where
  "authn_factories env =
     [(''mtls'', pure_factory mtls_new), (''oidc'', oidc_factory (he_oidc env)),
      (''token'', pure_factory (\<lambda>cfg. res_bind (token_new cfg) (\<lambda>p. Inr (token_authenticator (en_sha256 (he_api env)) p))))]"

definition createAuthenticator ::
    "('y, 'f, 'k, 'p, 'pol) hb_env \<Rightarrow> agent_config \<Rightarrow> 'y agent_world \<Rightarrow>
     ((error + (rctx, 'y agent_world) authenticator) \<times> 'y agent_world) go" where
  "createAuthenticator env cfg w =
     go_bind (must_register (en_uc (he_api env)) Register (authn_factories env) Map.empty) (\<lambda>r.
       Ret (case Create (he_order env) r (cfg_AuthMethod cfg) (config_option (cfg_AuthConfig cfg)) of
          Inl e \<Rightarrow> (Inl e, w)
        | Inr create \<Rightarrow> create w))"

definition authz_factories ::
    "('y, 'f, 'k, 'p, 'pol) hb_env \<Rightarrow> (string \<times> ('y agent_world, authorizer) factory) list" where
  "authz_factories env =
     [(''allow-all'', pure_factory NewAllowAll), (''cedar'', \<lambda>cfg. Inr (on_fs (cedar_New (he_cedar env) cfg)))]"

definition createAuthorizer ::
    "('y, 'f, 'k, 'p, 'pol) hb_env \<Rightarrow> agent_config \<Rightarrow> 'y agent_world \<Rightarrow> ((error + authorizer) \<times> 'y agent_world) go" where
  "createAuthorizer env cfg w =
     go_bind (must_register (en_uc (he_api env)) authz_Register (authz_factories env) Map.empty) (\<lambda>r.
       Ret (case authz_Create (he_order env) r (cfg_AuthzMethod cfg) (config_option (cfg_AuthzConfig cfg)) of
          Inl e \<Rightarrow> (Inl e, w)
        | Inr create \<Rightarrow> create w))"

definition plugin_factories :: "('w, 'f) plugin_env \<Rightarrow> (string \<times> (string option \<Rightarrow> error + ('w, 'f) plugin)) list" where
  "plugin_factories env =
     [(''services'', \<lambda>cfg. res_bind (services_New env cfg) (\<lambda>p. Inr (Services p))),
      (''diagnostics'', \<lambda>cfg. res_bind (diagnostics_New env cfg) (\<lambda>p. Inr (Diagnostics p))),
      (''lifecycle'', \<lambda>cfg. res_bind (lifecycle_New env cfg) (\<lambda>p. Inr (Lifecycle p))),
      (''config'', \<lambda>cfg. res_bind (config_New env cfg) (\<lambda>p. Inr (ConfigPlugin p)))]"

definition newPluginRegistry :: "('w, 'f) plugin_env \<Rightarrow> (string \<rightharpoonup> string option \<Rightarrow> error + ('w, 'f) plugin) go" where
  "newPluginRegistry env = must_register (pe_uc env) plugin_Register (plugin_factories env) plugin_NewRegistry"

section \<open>Plugins and dependencies\<close>

fun loadPlugins ::
    "unicode \<Rightarrow> (string set \<Rightarrow> string list) \<Rightarrow> (string \<rightharpoonup> string option \<Rightarrow> error + ('w, 'f) plugin) \<Rightarrow> string list \<Rightarrow>
     error + ('w, 'f) plugin list" where
  "loadPlugins uc order r [] = Inr []"
| "loadPlugins uc order r (n # ns) =
     (case plugin_Create order r n None of
        Inl e \<Rightarrow> Inl (Wrap (''plugin '' @ go_quote uc n) e)
      | Inr p \<Rightarrow>
          (case plugin_Init p of
             Some e \<Rightarrow> Inl (Wrap (''plugin '' @ go_quote uc n @ '' init'') e)
           | None \<Rightarrow> res_bind (loadPlugins uc order r ns) (\<lambda>ps. Inr (p # ps))))"

definition no_deps :: "('x, 'f) api_deps" where
  "no_deps = \<lparr>dep_Health = None, dep_Bootc = None, dep_Journal = None, dep_Systemd = None, dep_Proc = None,
     dep_Network = None, dep_Kargs = None, dep_Bootstrap = False\<rparr>"

fun buildDeps :: "('x world, 'f) plugin \<Rightarrow> ('x, 'f) api_deps \<Rightarrow> ('x, 'f) api_deps" where
  "buildDeps (Services p) d = d\<lparr>dep_Systemd := Some (sp_systemd p)\<rparr>"
| "buildDeps (Diagnostics p) d = d\<lparr>dep_Journal := Some (dp_journal p), dep_Proc := Some (dp_proc p)\<rparr>"
| "buildDeps (Lifecycle p) d = d\<lparr>dep_Bootc := Some (lp_bootc p)\<rparr>"
| "buildDeps (ConfigPlugin p) d = d\<lparr>dep_Network := Some (cp_network p), dep_Kargs := Some (cp_kargs p)\<rparr>"

section \<open>Starting\<close>

text \<open>What runs after the start: the server, the probes and the log the health loop uses.\<close>

record ('y, 'f) started =
  sd_server :: "('y agent_ext, 'f) agent_server"
  sd_probes :: "'y agent_world probe list"
  sd_audit :: "'y agent_world audit_logger"
  sd_log_open :: bool
  sd_interval :: int

definition open_audit ::
    "('y, 'f, 'k, 'p, 'pol) hb_env \<Rightarrow> 'y agent_world \<Rightarrow> ('y agent_world audit_logger \<times> bool) \<times> 'y agent_world" where
  "open_audit env w =
     (case on_fs (NewFileLogger (he_canon env) (he_rand_key env w) audit_DefaultConfig) w of
        (Inl e, w) \<Rightarrow> ((nil_file_audit, False), w)
      | (Inr l, w) \<Rightarrow> ((file_audit env (fl_cfg l), True), set_log l w))"

definition log_fingerprints :: "('y, 'f, 'k, 'p, 'pol) hb_env \<Rightarrow> string \<Rightarrow> 'y agent_world \<Rightarrow> 'y agent_world" where
  "log_fingerprints env dir w =
     (let a = he_api env;
          w = snd (on_fs (CAFingerprint (en_sha256 a) (en_crypto a w) dir) w) in
      snd (on_fs (ServerFingerprint (en_sha256 a) (en_crypto a w) dir) w))"

definition hb_serve ::
    "('y, 'f, 'k, 'p, 'pol) hb_env \<Rightarrow> agent_config \<Rightarrow> tls_config \<Rightarrow> (rctx, 'y agent_world) authenticator \<Rightarrow> authorizer \<Rightarrow>
     ('y agent_world, 'f) plugin list \<Rightarrow> 'y agent_world \<Rightarrow> ((error + ('y, 'f) started) \<times> 'y agent_world) go" where
  "hb_serve env cfg tls auth az ps w =
     (let probes = fold (\<lambda>p agg. register_probes (HealthChecks (he_plugins env) p) agg) ps [];
          d = (fold buildDeps ps no_deps)\<lparr>dep_Bootstrap := True\<rparr>;
          w = log_fingerprints env (cfg_TLSDir cfg) (w\<lparr>w_boot := NewManager (cfg_TLSDir cfg)\<rparr>) in
      (case open_audit env w of
         ((audit, opened), w) \<Rightarrow>
           (case on_fs (Enabled (w_boot w)) (emitLifecycle env opened ''startup'' ''success'' w) of
              (active, w) \<Rightarrow>
                go_bind (NewServer (he_api env) \<lparr>op_TLS = tls, op_Deps = d, op_Auth = Some auth, op_Authz = Some az,
                    op_Audit = Some audit, op_BootstrapActive = active\<rparr>) (\<lambda>srv.
                  (case Listen (he_listen env) (cfg_ListenAddr cfg) w of
                     (Some e, w) \<Rightarrow> Ret (Inl e, w)
                   | (None, w) \<Rightarrow>
                       Ret (Inr \<lparr>sd_server = srv, sd_probes = probes, sd_audit = audit, sd_log_open = opened,
                              sd_interval = cfg_HealthInterval cfg\<rparr>,
                         snd (he_notify env ''READY=1'' w)))))))"

definition hb_start ::
    "('y, 'f, 'k, 'p, 'pol) hb_env \<Rightarrow> agent_config \<Rightarrow> 'y agent_world \<Rightarrow>
     ((error + ('y, 'f) started) \<times> 'y agent_world) go" where
  "hb_start env cfg w =
     (case on_fs (pki_Bootstrap (en_crypto (he_api env) w) (cfg_TLSDir cfg)) w of
        (Some e, w) \<Rightarrow> Ret (Inl (Wrap ''pki bootstrap'' e), w)
      | (None, w) \<Rightarrow>
          (case on_fs (LoadServerTLS (he_key_pair env) (he_is_pool env) (cfg_TLSDir cfg)) w of
             (Inl e, w) \<Rightarrow> Ret (Inl (Wrap ''load TLS'' e), w)
           | (Inr tls, w) \<Rightarrow>
               go_bind (createAuthenticator env cfg w) (\<lambda>(auth, w).
                 (case auth of
                    Inl e \<Rightarrow> Ret (Inl (Wrap ''create authenticator'' e), w)
                  | Inr auth \<Rightarrow>
                      go_bind (createAuthorizer env cfg w) (\<lambda>(az, w).
                        (case az of
                           Inl e \<Rightarrow> Ret (Inl (Wrap ''create authorizer'' e), w)
                         | Inr az \<Rightarrow>
                             go_bind (newPluginRegistry (he_plugins env)) (\<lambda>r.
                               (case loadPlugins (en_uc (he_api env)) (he_order env) r (cfg_Plugins cfg) of
                                  Inl e \<Rightarrow> Ret (Inl (Wrap ''load plugins'' e), w)
                                | Inr ps \<Rightarrow> hb_serve env cfg tls auth az ps w))))))))"

section \<open>The health loop\<close>

text \<open>
  \<open>watchdogLoop\<close> over a health check, a logger and the notification of the watchdog. The channel that is ready first
  at each turn of the loop is given by a list of choices; \<open>None\<close> as result means that the list ended while the loop was
  still running.
\<close>

record 'w watchdog =
  wd_check :: "'w \<Rightarrow> (error + health_result) \<times> 'w"
  wd_audit :: "'w audit_logger option"
  wd_ping :: "'w \<Rightarrow> error option \<times> 'w"

datatype ready = Ticker | Cancelled_ctx

definition status_name :: "int \<Rightarrow> string" where
  "status_name s =
     (if s = Health.Healthy then ''healthy'' else if s = Degraded then ''degraded'' else if s = Unhealthy then ''unhealthy'' else [])"

definition health_change_event :: "int \<Rightarrow> int \<Rightarrow> event" where
  "health_change_event prev new =
     zero_event\<lparr>ev_type := ''lifecycle.health_change'', ev_action := ''health_change'', ev_outcome := status_name new,
       ev_detail := [(''from'', status_name prev), (''to'', status_name new)]\<rparr>"

definition watchdog_tick :: "'w watchdog \<Rightarrow> int \<Rightarrow> 'w \<Rightarrow> (int \<times> 'w) go" where
  "watchdog_tick d prev w =
     (case wd_check d w of
        (Inl e, w) \<Rightarrow> Ret (prev, w)
      | (Inr r, w) \<Rightarrow>
          go_bind (if hr_Status r \<noteq> prev \<and> prev \<noteq> Unknown then
               (case wd_audit d of None \<Rightarrow> Ret w | Some l \<Rightarrow> log_event l (health_change_event prev (hr_Status r)) w)
             else Ret w) (\<lambda>w.
            Ret (hr_Status r, if hr_Status r \<noteq> Unhealthy then snd (wd_ping d w) else w)))"

fun watchdog_run :: "'w watchdog \<Rightarrow> ready list \<Rightarrow> int \<Rightarrow> 'w \<Rightarrow> (error option option \<times> 'w) go" where
  "watchdog_run d [] prev w = Ret (None, w)"
| "watchdog_run d (Cancelled_ctx # cs) prev w = Ret (Some None, w)"
| "watchdog_run d (Ticker # cs) prev w = go_bind (watchdog_tick d prev w) (\<lambda>(prev, w). watchdog_run d cs prev w)"

definition watchdogLoop :: "'w watchdog \<Rightarrow> int \<Rightarrow> ready list \<Rightarrow> 'w \<Rightarrow> (error option option \<times> 'w) go" where
  "watchdogLoop d interval cs w =
     (if interval \<le> 0 then Panic ''non-positive interval for NewTicker'' else watchdog_run d cs Unknown w)"

text \<open>The loop of a started agent.\<close>

definition agent_watchdog :: "('y, 'f, 'k, 'p, 'pol) hb_env \<Rightarrow> ('y, 'f) started \<Rightarrow> 'y agent_world watchdog" where
  "agent_watchdog env st =
     \<lparr>wd_check = aggregator_Check (sd_probes st), wd_audit = Some (sd_audit st), wd_ping = he_notify env ''WATCHDOG=1''\<rparr>"

text \<open>The shutdown: the event; stopping the server sends no further response.\<close>

definition shutdown :: "('y, 'f, 'k, 'p, 'pol) hb_env \<Rightarrow> ('y, 'f) started \<Rightarrow> 'y agent_world \<Rightarrow> 'y agent_world" where
  "shutdown env st w = emitLifecycle env (sd_log_open st) ''shutdown'' ''success'' w"

section \<open>The registries' contents\<close>

lemma authn_created:
  "createAuthenticator env cfg w =
     Ret (case map_of (authn_factories env) (cfg_AuthMethod cfg) of
        None \<Rightarrow> (Inl (MsgQ ''unknown authenticator: '' (cfg_AuthMethod cfg)
            ('' (registered: ['' @ join_with '' '' (Names (he_order env) (map_of (authn_factories env))) @ ''])'')), w)
      | Some f \<Rightarrow> (case f (config_option (cfg_AuthConfig cfg)) of Inl e \<Rightarrow> (Inl e, w) | Inr create \<Rightarrow> create w))"
proof -
  have reg: "must_register (en_uc (he_api env)) Register (authn_factories env) Map.empty = Ret (map_of (authn_factories env))"
    using authn_registry.must_register_fresh[of "authn_factories env" Map.empty]
      authn_registry.register_all_lookup[of Map.empty _ "authn_factories env"]
    by (auto simp: authn_factories_def fun_eq_iff)
  show ?thesis
    by (simp add: createAuthenticator_def reg Create_def split: option.split)
qed

lemma authz_created:
  "createAuthorizer env cfg w =
     Ret (case map_of (authz_factories env) (cfg_AuthzMethod cfg) of
        None \<Rightarrow> (Inl (MsgQ ''unknown authorizer: '' (cfg_AuthzMethod cfg)
            ('' (registered: ['' @ join_with '' '' (authz_Names (he_order env) (map_of (authz_factories env))) @ ''])'')), w)
      | Some f \<Rightarrow> (case f (config_option (cfg_AuthzConfig cfg)) of Inl e \<Rightarrow> (Inl e, w) | Inr create \<Rightarrow> create w))"
proof -
  have reg: "must_register (en_uc (he_api env)) authz_Register (authz_factories env) Map.empty = Ret (map_of (authz_factories env))"
    using authz_registry.must_register_fresh[of "authz_factories env" Map.empty]
      authz_registry.register_all_lookup[of Map.empty _ "authz_factories env"]
    by (auto simp: authz_factories_def fun_eq_iff)
  show ?thesis
    by (simp add: createAuthorizer_def reg authz_Create_def split: option.split)
qed

lemma plugins_registered: "newPluginRegistry env = Ret (map_of (plugin_factories env))"
proof -
  have "plugin_registry.register_all (plugin_factories env) plugin_NewRegistry = map_of (plugin_factories env)"
    by (simp add: fun_eq_iff registered_lookup)
  then show ?thesis
    using plugin_registry.must_register_fresh[of "plugin_factories env" plugin_NewRegistry]
    by (simp add: newPluginRegistry_def plugin_factories_def plugin_NewRegistry_def)
qed

section \<open>What a started agent is\<close>

definition started_options ::
    "('y, 'f, 'k, 'p, 'pol) hb_env \<Rightarrow> tls_config \<Rightarrow> (rctx, 'y agent_world) authenticator \<Rightarrow> authorizer \<Rightarrow>
     ('y agent_world, 'f) plugin list \<Rightarrow> 'y agent_world audit_logger \<Rightarrow> bool \<Rightarrow> ('y agent_ext, 'f) agent_options" where
  "started_options env tls auth az ps audit active =
     \<lparr>op_TLS = tls, op_Deps = (fold buildDeps ps no_deps)\<lparr>dep_Bootstrap := True\<rparr>, op_Auth = Some auth, op_Authz = Some az,
      op_Audit = Some audit, op_BootstrapActive = active\<rparr>"

lemma open_audit_kind:
  "open_audit env w = ((audit, opened), v) \<Longrightarrow> if opened then \<exists>c. audit = file_audit env c else audit = nil_file_audit"
  by (auto simp: open_audit_def split: prod.splits sum.splits)

lemma hb_serve_started:
  assumes "hb_serve env cfg tls auth az ps w = Ret (Inr st, w')"
  shows "\<exists>active. NewServer (he_api env) (started_options env tls auth az ps (sd_audit st) active) = Ret (sd_server st)
    \<and> (if sd_log_open st then \<exists>c. sd_audit st = file_audit env c else sd_audit st = nil_file_audit) \<and> sd_interval st = cfg_HealthInterval cfg"
proof -
  define u where "u = log_fingerprints env (cfg_TLSDir cfg) (w\<lparr>w_boot := NewManager (cfg_TLSDir cfg)\<rparr>)"
  obtain audit opened v where o: "open_audit env u = ((audit, opened), v)" by (metis prod.collapse)
  obtain active x where e: "on_fs (Enabled (w_boot v)) (emitLifecycle env opened ''startup'' ''success'' v) = (active, x)"
    by fastforce
  obtain srv where srv: "NewServer (he_api env) (started_options env tls auth az ps audit active) = Ret srv"
    by (simp add: new_server)
  note serve = assms[unfolded hb_serve_def Let_def, folded u_def,
      unfolded o prod.case e srv[unfolded started_options_def] go_bind.simps]
  obtain y where l: "Listen (he_listen env) (cfg_ListenAddr cfg) x = (None, y)"
    using serve by (auto split: prod.splits option.splits)
  have st: "sd_server st = srv" "sd_audit st = audit" "sd_log_open st = opened" "sd_interval st = cfg_HealthInterval cfg"
    using serve[unfolded l prod.case option.case] by auto
  show ?thesis using srv open_audit_kind[OF o] by (auto simp: st)
qed

lemma hb_start_parts:
  assumes "hb_start env cfg w = Ret (Inr st, w')"
  obtains tls auth az ps u1 v1 u2 v2 v3 where
    "createAuthenticator env cfg u1 = Ret (Inr auth, v1)" "createAuthorizer env cfg u2 = Ret (Inr az, v2)"
    "loadPlugins (en_uc (he_api env)) (he_order env) (map_of (plugin_factories (he_plugins env))) (cfg_Plugins cfg) = Inr ps"
    "hb_serve env cfg tls auth az ps v3 = Ret (Inr st, w')"
proof -
  define a where "a = he_api env"
  obtain e u where 1: "on_fs (pki_Bootstrap (en_crypto a w) (cfg_TLSDir cfg)) w = (e, u)" by fastforce
  obtain t v where 2: "on_fs (LoadServerTLS (he_key_pair env) (he_is_pool env) (cfg_TLSDir cfg)) u = (t, v)" by fastforce
  note start = assms[unfolded hb_start_def, folded a_def, unfolded 1 2 prod.case]
  from start have "e = None" by (cases e) simp_all
  note start = start[unfolded this option.case 2 prod.case]
  from start obtain tls where "t = Inr tls" by (cases t) simp_all
  note start = start[unfolded this sum.case]
  from start obtain q v1 where 3: "createAuthenticator env cfg v = Ret (q, v1)" by (auto simp: outcome_simps)
  note start = start[unfolded 3 go_bind.simps prod.case]
  from start obtain auth where q: "q = Inr auth" by (cases q) simp_all
  note start = start[unfolded this sum.case]
  from start obtain z v2 where 4: "createAuthorizer env cfg v1 = Ret (z, v2)" by (auto simp: outcome_simps)
  note start = start[unfolded 4 go_bind.simps prod.case]
  from start obtain az where z: "z = Inr az" by (cases z) simp_all
  note start = start[unfolded this sum.case]
  note start = start[unfolded plugins_registered go_bind.simps]
  let ?load = "loadPlugins (en_uc a) (he_order env) (map_of (plugin_factories (he_plugins env))) (cfg_Plugins cfg)"
  from start obtain ps where 6: "?load = Inr ps" by (cases ?load) simp_all
  show thesis using that[OF 3[unfolded q] 4[unfolded z] 6[unfolded a_def]] start[unfolded 6 sum.case] .
qed

lemma hb_start_started:
  assumes "hb_start env cfg w = Ret (Inr st, w')"
  obtains tls auth az ps u1 v1 u2 v2 v3 where
    "createAuthenticator env cfg u1 = Ret (Inr auth, v1)" "createAuthorizer env cfg u2 = Ret (Inr az, v2)"
    "hb_serve env cfg tls auth az ps v3 = Ret (Inr st, w')"
  using hb_start_parts[OF assms] by metis

lemma started_server:
  assumes "NewServer (he_api env) (started_options env tls auth az ps audit active) = Ret s"
  shows "ag_skip s (full_method r) = False" "ag_auth s = Some auth"
    and "ag_machine s = machine_server_of (he_api env) ((fold buildDeps ps no_deps)\<lparr>dep_Bootstrap := True\<rparr>) (Some az) (Some audit)"
  using assms by (auto simp: new_server started_options_def)

lemma no_health_dep: "dep_Health (fold buildDeps ps d) = dep_Health d"
proof (induction ps arbitrary: d)
  case (Cons p ps)
  have "dep_Health (buildDeps p d) = dep_Health d" by (cases p) simp_all
  with Cons show ?case by simp
qed simp

section \<open>Properties\<close>

text \<open>
  C5: an agent that started answers a request without an error only to a caller that the configured authentication
  method identified and the configured authorization method allows: both methods are among the registered ones,
  a misspelt or failing one keeps the agent from starting, and there is no way around them but the enrolment.
\<close>

theorem agent_end_to_end:
  assumes "hb_start env cfg w0 = Ret (Inr st, w1)" "ctx_identity c = None"
    and "agent_call (sd_server st) sendL sendD c r w = Ret (Inr resp, w')"
  shows "cfg_AuthMethod cfg \<in> {''mtls'', ''oidc'', ''token''} \<and> cfg_AuthzMethod cfg \<in> {''allow-all'', ''cedar''}
    \<and> (\<exists>auth az u1 v1 u2 v2. createAuthenticator env cfg u1 = Ret (Inr auth, v1) \<and> createAuthorizer env cfg u2 = Ret (Inr az, v2)
      \<and> (\<exists>i v act. authenticate auth c w = (Inr i, v) \<and> rpc_action r = Some act
          \<and> authorize az (ctx.truncate (ContextWithIdentity c i)) i act (rpc_resource r) = Inr Allow))"
proof -
  obtain tls auth az ps u1 v1 u2 v2 v3 where a: "createAuthenticator env cfg u1 = Ret (Inr auth, v1)"
    and z: "createAuthorizer env cfg u2 = Ret (Inr az, v2)" and s: "hb_serve env cfg tls auth az ps v3 = Ret (Inr st, w1)"
    by (rule hb_start_started[OF assms(1)])
  from hb_serve_started[OF s] obtain active where
    srv: "NewServer (he_api env) (started_options env tls auth az ps (sd_audit st) active) = Ret (sd_server st)" by blast
  obtain b i v x where b: "op_Auth (started_options env tls auth az ps (sd_audit st) active) = Some b" "authenticate b c w = (Inr i, v)"
    and x: "serve (machine_server_of (he_api env) (op_Deps (started_options env tls auth az ps (sd_audit st) active))
        (op_Authz (started_options env tls auth az ps (sd_audit st) active))
        (op_Audit (started_options env tls auth az ps (sd_audit st) active))) sendL sendD (ContextWithIdentity c i) r v = Ret ((x, None), w')"
    by (rule agent_call_answered[OF srv assms(3,2)])
  have "\<exists>act. rpc_action r = Some act \<and> authorize az (ctx.truncate (ContextWithIdentity c i)) i act (rpc_resource r) = Inr Allow"
    using serve_cases[OF x] by (auto simp: IdentityFromContext_def ContextWithIdentity_def started_options_def)
  moreover have "authenticate auth c w = (Inr i, v)" using b by (simp add: started_options_def)
  moreover have "cfg_AuthMethod cfg \<in> {''mtls'', ''oidc'', ''token''}"
    using a by (auto simp: authn_created authn_factories_def split: option.splits if_splits)
  moreover have "cfg_AuthzMethod cfg \<in> {''allow-all'', ''cedar''}"
    using z by (auto simp: authz_created authz_factories_def split: option.splits if_splits)
  ultimately show ?thesis using a z by blast
qed

lemma nil_audit_emit [simp]: "emitAudit (Some nil_file_audit) i a res out addr w = nil_panic"
  by (simp add: emitAudit_def nil_file_audit_def nil_panic_def)

lemma execute_nil_audit:
  assumes "resource_validate (u_resource h q) = None" "d_audit deps = Some nil_file_audit"
  shows "\<not> returns (Execute h zero c deps q w)"
proof (cases "gate c (d_authz deps) (u_action h) (u_resource h q)")
  case (Refuse x e)
  moreover from this assms(1) have "x \<noteq> None" by (auto elim: gate_refusal_audit)
  ultimately show ?thesis using assms(2)
    by (auto simp: unary_handler.exec_gate audit_opt_def nil_panic_def split: prod.splits)
next
  case (Admit i)
  then show ?thesis using assms(2)
    by (auto simp: unary_handler.exec_gate nil_panic_def outcome_simps split: prod.splits)
qed

lemma stream_nil_audit:
  assumes "resource_validate (s_resource h q) = None" "d_audit deps = Some nil_file_audit"
  shows "\<not> returns (stream_Execute h c deps q send w)"
proof (cases "gate c (d_authz deps) (s_action h) (s_resource h q)")
  case (Refuse x e)
  moreover from this assms(1) have "x \<noteq> None" by (auto elim: gate_refusal_audit)
  ultimately show ?thesis using assms(2)
    by (auto simp: stream_handler.exec_gate audit_opt_def nil_panic_def split: prod.splits)
next
  case (Admit i)
  then show ?thesis using assms(2)
    by (auto simp: stream_handler.exec_gate nil_panic_def outcome_simps split: prod.splits)
qed

lemma serve_nil_audit:
  assumes "rpc_action r \<noteq> None"
  shows "\<not> returns (serve (machine_server_of env d az (Some nil_file_audit)) sendL sendD c r w)"
proof -
  have res: "resource_validate (rpc_resource r) = None" by (rule rpc_resource_valid)
  have resp: "returns (responded f m) \<longleftrightarrow> returns m" for f m
    by (cases m) (auto simp: responded_def)
  show ?thesis
  proof (cases r)
    case (Logs q)
    then show ?thesis
      using stream_nil_audit[of "ms_logs (machine_server_of env d az (Some nil_file_audit))" q "ms_deps (machine_server_of env d az (Some nil_file_audit))" c sendL w]
      by (auto simp: outcome_simps server_simps)
  next
    case (Dmesg q)
    then show ?thesis
      using stream_nil_audit[of "ms_dmesg (machine_server_of env d az (Some nil_file_audit))" q "ms_deps (machine_server_of env d az (Some nil_file_audit))" c sendD w]
      by (auto simp: outcome_simps server_simps)
  next
    case (Control q)
    with assms res show ?thesis
      by (auto simp: ServiceControl_def server_simps resp execute_nil_audit simp del: returns.simps)
  qed (use res in \<open>auto simp: server_simps resp execute_nil_audit simp del: returns.simps\<close>)
qed

text \<open>A call that reaches a server behind the interceptors.\<close>

lemma agent_call_returns:
  assumes "returns (agent_call s sendL sendD c r w)" "ag_auth s = Some a" "ag_skip s (full_method r) = False"
    and "authenticate a c w = (Inr i, v)"
  shows "returns (serve (ag_machine s) sendL sendD (ContextWithIdentity c i) r v)"
  using assms
  by (auto simp: agent_call_def unary_chain_def stream_chain_def UnaryInterceptor_def StreamInterceptor_def outcome_def
      outcome_simps Let_def split: if_splits prod.splits)

text \<open>
  C32: when the audit log cannot be opened the agent starts all the same, with a nil logger in a non-nil interface:
  every call of an authenticated client, allowed or denied, then panics, which ends the process. The warning that
  audit logging is disabled describes what was meant.
\<close>

theorem audit_unavailable_panics:
  assumes "hb_start env cfg w0 = Ret (Inr st, w1)" "\<not> sd_log_open st"
    and "ag_auth (sd_server st) = Some a" "authenticate a c w = (Inr i, v)" "rpc_action r \<noteq> None"
  shows "\<exists>m. agent_call (sd_server st) sendL sendD c r w = Panic m"
proof -
  obtain tls auth az ps u1 v1 u2 v2 v3 where s: "hb_serve env cfg tls auth az ps v3 = Ret (Inr st, w1)"
    using hb_start_started[OF assms(1)] by metis
  from hb_serve_started[OF s] assms(2) obtain active where
    "NewServer (he_api env) (started_options env tls auth az ps nil_file_audit active) = Ret (sd_server st)" by auto
  note f = started_server(1,3)[OF this]
  have "\<not> returns (agent_call (sd_server st) sendL sendD c r w)"
    using agent_call_returns[OF _ assms(3) f(1) assms(4), of sendL sendD r] serve_nil_audit[OF assms(5)] unfolding f(2) by blast
  then show ?thesis by (cases "agent_call (sd_server st) sendL sendD c r w") auto
qed

text \<open>
  the agent never gives its health aggregator to the server, so a health call that is allowed panics, whatever
  plugins are loaded.
\<close>

theorem health_call_panics:
  assumes "hb_start env cfg w0 = Ret (Inr st, w1)" "ag_auth (sd_server st) = Some a" "authenticate a c w = (Inr i, v)"
    and "d_authz (ms_deps (ag_machine (sd_server st))) = Some z"
    and "authorize z (ctx.truncate (ContextWithIdentity c i)) i ''core:GetHealth'' ThisNode = Inr Allow"
  shows "\<exists>m. agent_call (sd_server st) sendL sendD c Health w = Panic m"
proof -
  obtain tls auth az ps u1 v1 u2 v2 v3 where s: "hb_serve env cfg tls auth az ps v3 = Ret (Inr st, w1)"
    using hb_start_started[OF assms(1)] by metis
  from hb_serve_started[OF s] obtain active where
    "NewServer (he_api env) (started_options env tls auth az ps (sd_audit st) active) = Ret (sd_server st)" by auto
  note f = started_server(1,3)[OF this]
  have "az = z" using assms(4) by (simp add: f(2) server_simps)
  then have "gate (ContextWithIdentity c i) (Some az) ''core:GetHealth'' ThisNode = Admit i"
    using assms(5) by (simp add: gate_admit_iff IdentityFromContext_def ContextWithIdentity_def)
  then have "\<not> returns (serve (ag_machine (sd_server st)) sendL sendD (ContextWithIdentity c i) Health v)"
    by (simp add: f(2) server_simps responded_def unary_handler.exec_gate health_fn_def no_health_dep no_deps_def nil_panic_def)
  then have "\<not> returns (agent_call (sd_server st) sendL sendD c Health w)"
    using agent_call_returns[OF _ assms(2) f(1) assms(3), of sendL sendD Health] by blast
  then show ?thesis by (cases "agent_call (sd_server st) sendL sendD c Health w") auto
qed

section \<open>What the health loop does\<close>

text \<open>A check that follows a script, where \<open>None\<close> is an error, with the pings counted and the events kept.\<close>

type_synonym script_world = "int option list \<times> nat \<times> event list"

definition scripted_check :: "script_world \<Rightarrow> (error + health_result) \<times> script_world" where
  "scripted_check w =
     (case w of (q, n, es) \<Rightarrow>
        (case q of
           [] \<Rightarrow> (Inl (Msg ''check''), w)
         | None # q \<Rightarrow> (Inl (Msg ''check''), (q, n, es))
         | Some s # q \<Rightarrow> (Inr \<lparr>hr_Status = s, hr_Checks = []\<rparr>, (q, n, es))))"

definition scripted :: "script_world watchdog" where
  "scripted =
     \<lparr>wd_check = scripted_check,
      wd_audit = Some \<lparr>should_log = (\<lambda>i a r out. Ret True), log_event = (\<lambda>e (q, n, es). Ret (q, n, es @ [e]))\<rparr>,
      wd_ping = (\<lambda>(q, n, es). (None, (q, n + 1, es)))\<rparr>"

text \<open>The statuses of the checks that did not fail, and the changes between consecutive ones from a known status.\<close>

definition statuses :: "int option list \<Rightarrow> int list" where
  "statuses q = map the (filter (\<lambda>x. x \<noteq> None) q)"

fun changes :: "int \<Rightarrow> int list \<Rightarrow> (int \<times> int) list" where
  "changes prev [] = []"
| "changes prev (s # ss) = (if s \<noteq> prev \<and> prev \<noteq> Unknown then [(prev, s)] else []) @ changes s ss"

definition pings_due :: "int list \<Rightarrow> nat" where
  "pings_due ss = length (filter (\<lambda>s. s \<noteq> Unhealthy) ss)"

lemma statuses_simps [simp]:
  "statuses [] = []" "statuses (None # q) = statuses q" "statuses (Some s # q) = s # statuses q"
  by (simp_all add: statuses_def)

lemma tick_scripted:
  "watchdog_tick scripted prev (None # q, n, es) = Ret (prev, (q, n, es))"
  "watchdog_tick scripted prev (Some s # q, n, es) =
     Ret (s, (q, n + (if s \<noteq> Unhealthy then 1 else 0),
       es @ (if s \<noteq> prev \<and> prev \<noteq> Unknown then [health_change_event prev s] else [])))"
  by (simp_all add: watchdog_tick_def scripted_def scripted_check_def)

lemma run_scripted:
  "watchdog_run scripted (replicate (length q) Ticker @ cs) prev (q @ r, n, es) =
     watchdog_run scripted cs (last (prev # statuses q))
       (r, n + pings_due (statuses q), es @ map (\<lambda>(a, b). health_change_event a b) (changes prev (statuses q)))"
proof (induction q arbitrary: prev n es)
  case (Cons x q)
  show ?case
  proof (cases x)
    case None
    then show ?thesis using Cons.IH[of prev n es] by (simp add: tick_scripted)
  next
    case (Some s)
    then show ?thesis using Cons.IH[of s] by (simp add: tick_scripted pings_due_def)
  qed
qed (simp add: pings_due_def)

text \<open>
  C31: over any run of checks, until it is cancelled, the health loop pings the watchdog exactly once for each check
  that succeeded with a status other than unhealthy, so that systemd restarts an unhealthy node, and writes exactly
  one event for each change between consecutive statuses, the first status after the start excepted. Failed checks
  count as nothing.
\<close>

theorem watchdog_spec:
  assumes "0 < interval"
  shows "watchdogLoop scripted interval (replicate (length q) Ticker @ [Cancelled_ctx]) (q, 0, []) =
    Ret (Some None, [], pings_due (statuses q), map (\<lambda>(a, b). health_change_event a b) (changes Unknown (statuses q)))"
  using assms run_scripted[of q "[Cancelled_ctx]" Unknown "[]" 0 "[]"] by (simp add: watchdogLoop_def)

theorem watchdog_spec_witness:
  "watchdogLoop scripted 1 (replicate 5 Ticker @ [Cancelled_ctx]) ([Some Health.Healthy, Some Unhealthy, None, Some Unhealthy, Some Degraded], 0, []) =
     Ret (Some None, [], 2, [health_change_event Health.Healthy Unhealthy, health_change_event Unhealthy Degraded])"
  using watchdog_spec[of 1 "[Some Health.Healthy, Some Unhealthy, None, Some Unhealthy, Some Degraded]"]
  by (simp add: pings_due_def Unknown_def Health.Healthy_def Unhealthy_def Degraded_def replicate_def numeral_eq_Suc)

text \<open>
  the interval comes from the environment unchecked: a zero or negative \<open>HB_HEALTH_INTERVAL\<close> makes the agent panic
  when the loop starts, after the server is already listening; every other interval is used.
\<close>

theorem watchdog_interval:
  assumes "hb_start env (Load parse os_env) w = Ret (Inr st, w')" "Getenv os_env ''HB_HEALTH_INTERVAL'' \<noteq> []"
    and "parse (Getenv os_env ''HB_HEALTH_INTERVAL'') = Some d"
  shows "(\<exists>m. watchdogLoop (agent_watchdog env st) (sd_interval st) [] v = Panic m) \<longleftrightarrow> d \<le> 0"
proof -
  obtain tls auth az ps v3 where s: "hb_serve env (Load parse os_env) tls auth az ps v3 = Ret (Inr st, w')"
    using hb_start_started[OF assms(1)] by metis
  have "sd_interval st = d"
    using hb_serve_started[OF s] assms(2,3) by (auto simp: Load_def envOrDuration_def Let_def)
  then show ?thesis by (simp add: watchdogLoop_def)
qed

section \<open>Examples\<close>

lemma hb_serve_runs:
  assumes "\<And>a v. he_listen env a v = (None, v)"
  obtains st w' where "hb_serve env cfg tls auth az ps w = Ret (Inr st, w')"
    "sd_log_open st = snd (fst (open_audit env (log_fingerprints env (cfg_TLSDir cfg) (w\<lparr>w_boot := NewManager (cfg_TLSDir cfg)\<rparr>))))"
    "ag_auth (sd_server st) = Some auth" "d_authz (ms_deps (ag_machine (sd_server st))) = Some az"
proof -
  define u where "u = log_fingerprints env (cfg_TLSDir cfg) (w\<lparr>w_boot := NewManager (cfg_TLSDir cfg)\<rparr>)"
  obtain audit opened v where o: "open_audit env u = ((audit, opened), v)" by (metis prod.collapse)
  obtain active x where e: "on_fs (Enabled (w_boot v)) (emitLifecycle env opened ''startup'' ''success'' v) = (active, x)"
    by fastforce
  obtain srv where srv: "NewServer (he_api env) (started_options env tls auth az ps audit active) = Ret srv"
    by (simp add: new_server)
  have l: "Listen (he_listen env) (cfg_ListenAddr cfg) x = (None, x)" by (simp add: Listen_def assms)
  define probes where "probes = fold (\<lambda>p agg. register_probes (HealthChecks (he_plugins env) p) agg) ps []"
  have "hb_serve env cfg tls auth az ps w = Ret (Inr \<lparr>sd_server = srv, sd_probes = probes, sd_audit = audit,
      sd_log_open = opened, sd_interval = cfg_HealthInterval cfg\<rparr>, snd (he_notify env ''READY=1'' x))"
    unfolding hb_serve_def Let_def u_def[symmetric] probes_def[symmetric]
    by (simp add: o e srv[unfolded started_options_def] l)
  then show thesis
    by (rule that) (simp_all add: u_def[symmetric] o started_server[OF srv] server_simps)
qed

lemma calm_fingerprint: "calm (w_fs w) \<Longrightarrow> snd (on_fs (fingerprint h cr a b p) w) = w"
  by (auto simp: on_fs_def fingerprint_def ReadFile_def split: prod.splits sum.splits option.splits)

definition test_plugin_env :: "(unit agent_world, nat) plugin_env" where
  "test_plugin_env =
     \<lparr>pe_uc = test_uc,
      pe_bus = \<lparr>bus_connect = (\<lambda>w. (Some (Ext ''dbus''), w)), bus_list = (\<lambda>w. (Inr [], w)), bus_props = (\<lambda>u w. (Inr Map.empty, w)),
        bus_type_props = (\<lambda>u t w. (Inr Map.empty, w)), bus_start = (\<lambda>u m w. (Inr ''done'', w)), bus_stop = (\<lambda>u m w. (Inr ''done'', w)),
        bus_restart = (\<lambda>u m w. (Inr ''done'', w)), run_command = (\<lambda>a w. ((None, []), w))\<rparr>,
      pe_bootc = \<lparr>ex_output = (\<lambda>a w. (Inr ''{}'', w)), ex_combined = (\<lambda>a w. ((None, []), w))\<rparr>,
      pe_float = Some, pe_journalctl = (\<lambda>a w. (Exited [] None, w)),
      pe_floats = \<lparr>fl_parse = length, fl_percent = (\<lambda>a b. 0), fl_zero = 0\<rparr>,
      pe_proc = (\<lambda>w. \<lparr>ps_file = (\<lambda>p. Inl ErrNotExist), ps_statfs = (\<lambda>p. Inl ErrNotExist), ps_cpus = 1\<rparr>)\<rparr>"

definition test_agent_fs :: fs where
  "test_agent_fs =
     \<lparr>fs_files = [(''/d/ca.crt'', \<lparr>f_data = ''C:ca'', f_time = 0\<rparr>), (''/d/server.crt'', \<lparr>f_data = ''S'', f_time = 0\<rparr>),
        (''/d/server.key'', \<lparr>f_data = ''K'', f_time = 0\<rparr>)],
      fs_dirs = [''/'', ''/d'', ''/var'', ''/var/log'', ''/var/log/hummingbird'', ''/var/log/hummingbird/audit''],
      fs_now = 1, fs_faults = []\<rparr>"

definition quiet_oidc_env :: "'w oidc_env" where
  "quiet_oidc_env = \<lparr>e_get = (\<lambda>ca u w. (Inl (Ext ''down''), w)), e_now = (\<lambda>w. (0, w)), e_read_file = (\<lambda>p w. (Inl ErrNotExist, w)),
     e_pool_ok = (\<lambda>s. True), e_float = Some, e_int64 = (\<lambda>s. 0), e_hash = (\<lambda>h s. s), e_rsa_verify = (\<lambda>n e h d s. None),
     e_ecdsa_verify = (\<lambda>c x y d s. True), e_uc = test_uc, e_ago = (\<lambda>d. []), e_on_curve = (\<lambda>c x y. None)\<rparr>"

text \<open>An environment whose random source gives a key for the audit log, or none.\<close>

definition test_hb :: "error + string \<Rightarrow> (unit, nat, nat, nat, string) hb_env" where
  "test_hb key =
     \<lparr>he_api = \<lparr>en_uc = test_uc, en_go_version = ''go1.25'', en_hostname = (\<lambda>w. Inr ''n0''), en_sha256 = (\<lambda>x. x), en_crypto = (\<lambda>w. test_crypto)\<rparr>,
      he_plugins = test_plugin_env, he_order = (\<lambda>s. []), he_key_pair = (\<lambda>c k. Inr c), he_is_pool = (\<lambda>s. True),
      he_oidc = quiet_oidc_env, he_cedar = test_cedar, he_rand_key = (\<lambda>w. key), he_canon = Some, he_hmac = (\<lambda>k s. s),
      he_stamp = (\<lambda>w. ((''t'', ''bytes'', 0), w)), he_listen = (\<lambda>a w. (None, w)), he_notify = (\<lambda>m w. (None, w))\<rparr>"

definition test_agent_cfg :: "agent_config" where
  "test_agent_cfg = (Load (\<lambda>s. if s = ''0s'' then Some 0 else None) [''HB_TLS_DIR'' \<mapsto> ''/d'', ''HB_HEALTH_INTERVAL'' \<mapsto> ''0s'', ''HB_PLUGINS'' \<mapsto> ''config''])"

definition test_agent_world :: "unit agent_world" where
  "test_agent_world = \<lparr>w_fs = test_agent_fs, w_boot = NewManager [],
     w_ext = \<lparr>ae_log = test_logger 0 [], ae_oidc = test_provider, ae_rest = ()\<rparr>\<rparr>"

lemma test_agent_parts:
  "pki_Bootstrap test_crypto ''/d'' test_agent_fs = (None, test_agent_fs)"
  "LoadServerTLS (\<lambda>c k. Inr c) (\<lambda>s. True) ''/d'' test_agent_fs =
     (Inr \<lparr>tls_cert = ''S'', tls_client_cas = ''C:ca'', tls_require_client = True, tls_min_13 = True\<rparr>, test_agent_fs)"
  "case fst (NewFileLogger Some (Inl e) audit_DefaultConfig test_agent_fs) of Inl e \<Rightarrow> True | Inr l \<Rightarrow> False"
  "case fst (NewFileLogger Some (Inr (replicate 32 CHR ''k'')) audit_DefaultConfig test_agent_fs) of Inl e \<Rightarrow> False | Inr l \<Rightarrow> True"
  by code_simp+

lemma test_agent_cfg_fields:
  "cfg_TLSDir test_agent_cfg = ''/d''" "cfg_AuthMethod test_agent_cfg = ''mtls''" "cfg_AuthConfig test_agent_cfg = []"
  "cfg_AuthzMethod test_agent_cfg = ''allow-all''" "cfg_AuthzConfig test_agent_cfg = []" "cfg_Plugins test_agent_cfg = [''config'']"
  by code_simp+

definition test_mtls :: "(rctx, 'w) authenticator" where
  "test_mtls = \<lparr>authn_name = ''mtls'', authenticate = (\<lambda>c w. (mtls_authenticate c, w))\<rparr>"

lemma test_hb_starts:
  assumes ps: "loadPlugins (en_uc (he_api (test_hb key))) (he_order (test_hb key)) (map_of (plugin_factories (he_plugins (test_hb key)))) ns = Inr ps"
  obtains st w' tls v where "hb_start (test_hb key) (test_agent_cfg\<lparr>cfg_Plugins := ns\<rparr>) test_agent_world = Ret (Inr st, w')"
    "sd_log_open st = (case fst (NewFileLogger Some key audit_DefaultConfig test_agent_fs) of Inl e \<Rightarrow> False | Inr l \<Rightarrow> True)"
    "ag_auth (sd_server st) = Some test_mtls" "d_authz (ms_deps (ag_machine (sd_server st))) = Some AllowAll"
    "hb_serve (test_hb key) (test_agent_cfg\<lparr>cfg_Plugins := ns\<rparr>) tls test_mtls AllowAll ps v = Ret (Inr st, w')"
proof -
  let ?e = "test_hb key" and ?c = "test_agent_cfg\<lparr>cfg_Plugins := ns\<rparr>" and ?w = test_agent_world
  let ?tls = "\<lparr>tls_cert = ''S'', tls_client_cas = ''C:ca'', tls_require_client = True, tls_min_13 = True\<rparr>"
  have api: "en_crypto (he_api ?e) v = test_crypto" "he_key_pair ?e = (\<lambda>c k. Inr c)" "he_is_pool ?e = (\<lambda>s. True)"
    "he_listen ?e a v = (None, v)" "he_canon ?e = Some" "he_rand_key ?e v = key" "w_fs ?w = test_agent_fs" for a v
    by (simp_all add: test_hb_def test_agent_world_def)
  have fs: "on_fs (pki_Bootstrap test_crypto ''/d'') ?w = (None, ?w)"
    "on_fs (LoadServerTLS (\<lambda>c k. Inr c) (\<lambda>s. True) ''/d'') ?w = (Inr ?tls, ?w)"
    by (simp_all add: on_fs_def api test_agent_parts)
  have auth: "createAuthenticator ?e ?c v = Ret (Inr test_mtls, v)" for v
    by (simp add: authn_created authn_factories_def test_agent_cfg_fields pure_factory_def mtls_new_def test_mtls_def)
  have az: "createAuthorizer ?e ?c v = Ret (Inr AllowAll, v)" for v
    by (simp add: authz_created authz_factories_def test_agent_cfg_fields pure_factory_def NewAllowAll_def)
  have start: "hb_start ?e ?c ?w = hb_serve ?e ?c ?tls test_mtls AllowAll ps ?w"
    by (simp add: hb_start_def api fs auth az plugins_registered ps test_agent_cfg_fields del: loadPlugins.simps)
  have calm: "calm (w_fs ?w)"
    by (simp add: test_agent_world_def test_agent_fs_def calm_def)
  have same: "log_fingerprints ?e ''/d'' (?w\<lparr>w_boot := b\<rparr>) = ?w\<lparr>w_boot := b\<rparr>" for b
    by (simp add: log_fingerprints_def Let_def CAFingerprint_def ServerFingerprint_def calm_fingerprint calm)
  have "snd (fst (open_audit ?e (?w\<lparr>w_boot := b\<rparr>)))
      = (case fst (NewFileLogger Some key audit_DefaultConfig test_agent_fs) of Inl e \<Rightarrow> False | Inr l \<Rightarrow> True)" for b
    by (auto simp: open_audit_def on_fs_def api split: prod.splits sum.splits)
  then show thesis
    using hb_serve_runs[OF api(4), of ?c ?tls test_mtls AllowAll ps ?w thesis] same start that[of _ _ ?tls ?w]
    by (simp add: test_agent_cfg_fields)
qed

lemma test_hb_started:
  obtains st w' tls ps v where "hb_start (test_hb key) test_agent_cfg test_agent_world = Ret (Inr st, w')"
    "sd_log_open st = (case fst (NewFileLogger Some key audit_DefaultConfig test_agent_fs) of Inl e \<Rightarrow> False | Inr l \<Rightarrow> True)"
    "ag_auth (sd_server st) = Some test_mtls" "d_authz (ms_deps (ag_machine (sd_server st))) = Some AllowAll"
    "hb_serve (test_hb key) test_agent_cfg tls test_mtls AllowAll ps v = Ret (Inr st, w')"
    "dep_Bootc (fold buildDeps ps no_deps) = None"
proof -
  have cfg: "test_agent_cfg\<lparr>cfg_Plugins := [''config'']\<rparr> = test_agent_cfg"
    using test_agent_cfg_fields(6) by (cases test_agent_cfg) simp
  obtain ps where ps: "loadPlugins (en_uc (he_api (test_hb key))) (he_order (test_hb key))
      (map_of (plugin_factories (he_plugins (test_hb key)))) [''config''] = Inr ps"
    and boot: "dep_Bootc (fold buildDeps ps no_deps) = None"
    by (simp add: plugin_Create_def plugin_factories_def config_New_def no_deps_def)
  show thesis by (rule test_hb_starts[OF ps, unfolded cfg]) (rule that[OF _ _ _ _ _ boot])
qed

theorem audit_unavailable_panics_witness:
  "\<exists>st w1 m. hb_start (test_hb (Inl (Ext ''rand''))) test_agent_cfg test_agent_world = Ret (Inr st, w1)
     \<and> agent_call (sd_server st) (\<lambda>r w. (None, w)) (\<lambda>r w. (None, w)) test_cert_ctx Version w1 = Panic m"
proof -
  obtain st w1 where st: "hb_start (test_hb (Inl (Ext ''rand''))) test_agent_cfg test_agent_world = Ret (Inr st, w1)"
    and opened: "sd_log_open st = (case fst (NewFileLogger Some (Inl (Ext ''rand'')) audit_DefaultConfig test_agent_fs) of Inl e \<Rightarrow> False | Inr l \<Rightarrow> True)"
    and auth: "ag_auth (sd_server st) = Some test_mtls"
    by (rule test_hb_started)
  have closed: "\<not> sd_log_open st"
    using test_agent_parts(3)[of "Ext ''rand''"] unfolding opened by (simp split: sum.splits)
  note s = st closed auth
  obtain i where "mtls_authenticate test_cert_ctx = Inr i" by (simp add: mtls_authenticate_def test_cert_ctx_def)
  then have "authenticate test_mtls test_cert_ctx w1 = (Inr i, w1)" by (simp add: test_mtls_def)
  from audit_unavailable_panics[OF s this, of Version] s(1) show ?thesis by auto
qed

theorem health_call_panics_witness:
  "\<exists>st w1 m. hb_start (test_hb (Inr (replicate 32 CHR ''k''))) test_agent_cfg test_agent_world = Ret (Inr st, w1)
     \<and> agent_call (sd_server st) (\<lambda>r w. (None, w)) (\<lambda>r w. (None, w)) test_cert_ctx Health w1 = Panic m"
proof -
  obtain st w1 where s: "hb_start (test_hb (Inr (replicate 32 CHR ''k''))) test_agent_cfg test_agent_world = Ret (Inr st, w1)"
    "ag_auth (sd_server st) = Some test_mtls" and z: "d_authz (ms_deps (ag_machine (sd_server st))) = Some AllowAll"
    by (rule test_hb_started)
  obtain i where "mtls_authenticate test_cert_ctx = Inr i" by (simp add: mtls_authenticate_def test_cert_ctx_def)
  then have "authenticate test_mtls test_cert_ctx w1 = (Inr i, w1)" by (simp add: test_mtls_def)
  from health_call_panics[OF s this z test_admitted(2)] s(1) show ?thesis by blast
qed

theorem watchdog_interval_witness:
  "\<exists>st w1 m. hb_start (test_hb (Inl (Ext ''rand''))) test_agent_cfg test_agent_world = Ret (Inr st, w1)
     \<and> watchdogLoop (agent_watchdog (test_hb (Inl (Ext ''rand''))) st) (sd_interval st) [] w1 = Panic m"
proof -
  obtain st w1 where s: "hb_start (test_hb (Inl (Ext ''rand''))) test_agent_cfg test_agent_world = Ret (Inr st, w1)"
    by (rule test_hb_started)
  have "(\<exists>m. watchdogLoop (agent_watchdog (test_hb (Inl (Ext ''rand''))) st) (sd_interval st) [] w1 = Panic m) \<longleftrightarrow> (0::int) \<le> 0"
    by (rule watchdog_interval[OF s[unfolded test_agent_cfg_def]]) (simp_all add: Getenv_def)
  with s show ?thesis by blast
qed

lemma test_version_call:
  "\<exists>st w1. hb_start (test_hb (Inr (replicate 32 CHR ''k''))) test_agent_cfg test_agent_world = Ret (Inr st, w1)
     \<and> (\<exists>resp w'. agent_call (sd_server st) (\<lambda>r w. (None, w)) (\<lambda>r w. (None, w)) test_cert_ctx Version w1 = Ret (Inr resp, w'))"
proof -
  let ?k = "Inr (replicate 32 CHR ''k'')"
  obtain st w1 tls ps v where st: "hb_start (test_hb ?k) test_agent_cfg test_agent_world = Ret (Inr st, w1)"
    and opened: "sd_log_open st = (case fst (NewFileLogger Some ?k audit_DefaultConfig test_agent_fs) of Inl e \<Rightarrow> False | Inr l \<Rightarrow> True)"
    and auth: "ag_auth (sd_server st) = Some test_mtls"
    and sv: "hb_serve (test_hb ?k) test_agent_cfg tls test_mtls AllowAll ps v = Ret (Inr st, w1)"
    and boot: "dep_Bootc (fold buildDeps ps no_deps) = None"
    by (rule test_hb_started)
  have "sd_log_open st"
    using test_agent_parts(4) unfolding opened by (simp split: sum.splits)
  with hb_serve_started[OF sv] obtain active cfg where
    srv: "NewServer (he_api (test_hb ?k)) (started_options (test_hb ?k) tls test_mtls AllowAll ps (file_audit (test_hb ?k) cfg) active) = Ret (sd_server st)"
    by auto
  obtain i where i: "mtls_authenticate test_cert_ctx = Inr i" by (simp add: mtls_authenticate_def test_cert_ctx_def)
  have admit: "gate (ContextWithIdentity test_cert_ctx i) (Some AllowAll) ''core:GetVersion'' ThisNode = Admit i"
    by (simp add: gate_admit_iff IdentityFromContext_def ContextWithIdentity_def test_admitted(2))
  have "\<exists>resp w'. agent_call (sd_server st) (\<lambda>r w. (None, w)) (\<lambda>r w. (None, w)) test_cert_ctx Version w1 = Ret (Inr resp, w')"
    by (simp add: agent_call_def unary_chain_def UnaryInterceptor_def auth started_server(1,3)[OF srv] test_mtls_def i Let_def
        server_simps unary_handler.exec_gate admit version_fn_def boot emitAudit_def file_audit_def responded_def outcome_def)
  then obtain resp w' where call: "agent_call (sd_server st) (\<lambda>r w. (None, w)) (\<lambda>r w. (None, w)) test_cert_ctx Version w1 = Ret (Inr resp, w')"
    by blast
  with st show ?thesis by blast
qed

theorem agent_end_to_end_witness:
  "\<exists>st w1. hb_start (test_hb (Inr (replicate 32 CHR ''k''))) test_agent_cfg test_agent_world = Ret (Inr st, w1)
     \<and> (\<exists>resp w'. agent_call (sd_server st) (\<lambda>r w. (None, w)) (\<lambda>r w. (None, w)) test_cert_ctx Version w1 = Ret (Inr resp, w'))
     \<and> cfg_AuthMethod test_agent_cfg \<in> {''mtls'', ''oidc'', ''token''}"
proof -
  obtain st w1 resp w' where st: "hb_start (test_hb (Inr (replicate 32 CHR ''k''))) test_agent_cfg test_agent_world = Ret (Inr st, w1)"
    and call: "agent_call (sd_server st) (\<lambda>r w. (None, w)) (\<lambda>r w. (None, w)) test_cert_ctx Version w1 = Ret (Inr resp, w')"
    using test_version_call by blast
  have "ctx_identity test_cert_ctx = None" by (simp add: test_cert_ctx_def)
  from agent_end_to_end[OF st this call] have "cfg_AuthMethod test_agent_cfg \<in> {''mtls'', ''oidc'', ''token''}" by (rule conjunct1)
  with st call show ?thesis by (intro exI[of _ st] exI[of _ w1] conjI exI[of _ resp] exI[of _ w'])
qed

end
