(* ===== verification/Frame.thy ===== *)
theory Frame
  imports Hb_Agent
begin

text \<open>
  What the calls leave alone. An observation of the world, a function \<open>v\<close>, is kept by an operation when it is the same
  after it. If everything outside the agent keeps an observation and it does not look at the files, then every call of the
  interface keeps it, and so do the checks of the health loop and the authenticators. The contract is the locale
  \<open>file_blind\<close>, interpreted on the two parts of the world beside the files: the enrolment manager, so that no call but the
  enrolment itself touches its count of failures, and the rest, so that reading and applying a configuration reaches no
  unit, no image and no audit log but through the files.
\<close>

section \<open>Keeping an observation\<close>

named_theorems kept "operations that keep an observation"

definition keeps :: "('w \<Rightarrow> 'o) \<Rightarrow> ('w \<Rightarrow> 'a \<times> 'w) \<Rightarrow> bool" where
  "keeps v f \<longleftrightarrow> (\<forall>w. v (snd (f w)) = v w)"

definition keeps_go :: "('w \<Rightarrow> 'o) \<Rightarrow> ('w \<Rightarrow> ('a \<times> 'w) go) \<Rightarrow> bool" where
  "keeps_go v m \<longleftrightarrow> (\<forall>w r w'. m w = Ret (r, w') \<longrightarrow> v w' = v w)"

lemma keepsD: "keeps v f \<Longrightarrow> f w = (r, w') \<Longrightarrow> v w' = v w"
  unfolding keeps_def by (metis snd_conv)

lemma keepsI: "(\<And>w r w'. f w = (r, w') \<Longrightarrow> v w' = v w) \<Longrightarrow> keeps v f"
  unfolding keeps_def by (metis surjective_pairing)

lemma keeps_goD: "keeps_go v m \<Longrightarrow> m w = Ret (r, w') \<Longrightarrow> v w' = v w"
  unfolding keeps_go_def by blast

lemma keeps_goI: "(\<And>w r w'. m w = Ret (r, w') \<Longrightarrow> v w' = v w) \<Longrightarrow> keeps_go v m"
  unfolding keeps_go_def by blast

lemma keeps_Pair [kept]: "keeps v (Pair x)"
  by (simp add: keeps_def)

lemma keeps_bind:
  "keeps v f \<Longrightarrow> (\<And>r. keeps v (k r)) \<Longrightarrow> keeps v (\<lambda>w. case f w of (r, w) \<Rightarrow> k r w)"
  unfolding keeps_def by (metis (mono_tags, lifting) prod.case_eq_if)

lemma keeps_go_pure: "keeps v f \<Longrightarrow> keeps_go v (\<lambda>w. Ret (f w))"
  by (auto intro: keeps_goI dest: keepsD)

definition keeps_log :: "('w \<Rightarrow> 'o) \<Rightarrow> 'w audit_logger \<Rightarrow> bool" where
  "keeps_log v l \<longleftrightarrow> (\<forall>e w w'. log_event l e w = Ret w' \<longrightarrow> v w' = v w)"

lemma emit_kept:
  assumes "\<And>l. logger = Some l \<Longrightarrow> keeps_log v l" "emitAudit logger i a res out addr w = Ret w'"
  shows "v w' = v w"
  using assms by (auto simp: emitAudit_def keeps_log_def outcome_simps split: option.splits if_splits)

section \<open>The interfaces\<close>

definition bus_keeps :: "('w \<Rightarrow> 'o) \<Rightarrow> 'w systemd_bus \<Rightarrow> bool" where
  "bus_keeps v b \<longleftrightarrow> keeps v (bus_connect b) \<and> keeps v (bus_list b) \<and> (\<forall>u. keeps v (bus_props b u))
     \<and> (\<forall>u t. keeps v (bus_type_props b u t)) \<and> (\<forall>u m. keeps v (bus_start b u m)) \<and> (\<forall>u m. keeps v (bus_stop b u m))
     \<and> (\<forall>u m. keeps v (bus_restart b u m)) \<and> (\<forall>c. keeps v (run_command b c))"

definition systemd_keeps :: "('w \<Rightarrow> 'o) \<Rightarrow> 'w systemd_manager \<Rightarrow> bool" where
  "systemd_keeps v s \<longleftrightarrow> keeps v (sm_list s) \<and> (\<forall>u. keeps v (sm_status s u)) \<and> (\<forall>u. keeps v (sm_start s u))
     \<and> (\<forall>u. keeps v (sm_stop s u)) \<and> (\<forall>u. keeps v (sm_restart s u)) \<and> keeps v (sm_reboot s)"

definition bootc_keeps :: "('w \<Rightarrow> 'o) \<Rightarrow> 'w bootc_manager \<Rightarrow> bool" where
  "bootc_keeps v b \<longleftrightarrow> keeps v (bm_Status b) \<and> (\<forall>i. keeps v (bm_Switch b i)) \<and> keeps v (bm_Rollback b)"

definition deps_keep :: "('x world \<Rightarrow> 'o) \<Rightarrow> ('x, 'f) api_deps \<Rightarrow> bool" where
  "deps_keep v d \<longleftrightarrow> (\<forall>f. dep_Health d = Some f \<longrightarrow> keeps v f) \<and> (\<forall>b. dep_Bootc d = Some b \<longrightarrow> bootc_keeps v b)
     \<and> (\<forall>j. dep_Journal d = Some j \<longrightarrow> (\<forall>q. keeps v (jr_Stream j q))) \<and> (\<forall>s. dep_Systemd d = Some s \<longrightarrow> systemd_keeps v s)
     \<and> (\<forall>f. dep_Proc d = Some f \<longrightarrow> keeps v f)"

text \<open>The system bus, the commands and the journal, which are what the plugins reach.\<close>

definition plugins_keep :: "('w \<Rightarrow> 'o) \<Rightarrow> ('w, 'f) plugin_env \<Rightarrow> bool" where
  "plugins_keep v p \<longleftrightarrow> bus_keeps v (pe_bus p) \<and> (\<forall>c. keeps v (ex_output (pe_bootc p) c))
     \<and> (\<forall>c. keeps v (ex_combined (pe_bootc p) c)) \<and> (\<forall>c. keeps v (pe_journalctl p c))"

lemma bus_keepsD:
  assumes "bus_keeps v b"
  shows "bus_connect b w = (r1, w') \<Longrightarrow> v w' = v w" "bus_list b w = (r2, w') \<Longrightarrow> v w' = v w"
    "bus_props b u w = (r3, w') \<Longrightarrow> v w' = v w" "bus_type_props b u t w = (r4, w') \<Longrightarrow> v w' = v w"
    "bus_start b u m w = (r5, w') \<Longrightarrow> v w' = v w" "bus_stop b u m w = (r6, w') \<Longrightarrow> v w' = v w"
    "bus_restart b u m w = (r7, w') \<Longrightarrow> v w' = v w" "run_command b c w = (r8, w') \<Longrightarrow> v w' = v w"
  using assms unfolding bus_keeps_def by (blast dest: keepsD)+

lemma systemd_keepsD:
  assumes "systemd_keeps v s"
  shows "sm_status s u w = (r1, w') \<Longrightarrow> v w' = v w" "sm_start s u w = (r2, w') \<Longrightarrow> v w' = v w"
    "sm_stop s u w = (r3, w') \<Longrightarrow> v w' = v w" "sm_restart s u w = (r4, w') \<Longrightarrow> v w' = v w"
    "sm_reboot s w = (r5, w') \<Longrightarrow> v w' = v w"
  using assms unfolding systemd_keeps_def by (blast dest: keepsD)+

lemma bootc_keepsD:
  assumes "bootc_keeps v b"
  shows "bm_Status b w = (r1, w') \<Longrightarrow> v w' = v w" "bm_Switch b i w = (r2, w') \<Longrightarrow> v w' = v w"
    "bm_Rollback b w = (r3, w') \<Longrightarrow> v w' = v w"
  using assms unfolding bootc_keeps_def by (blast dest: keepsD)+

lemma unit_job_kept:
  assumes "bus_keeps v b" and call: "\<And>w r w'. call u ''replace'' w = (r, w') \<Longrightarrow> v w' = v w"
  shows "keeps v (unit_job b verb call u)"
proof (rule keepsI)
  fix w r w' assume "unit_job b verb call u w = (r, w')"
  then show "v w' = v w"
    using bus_keepsD(1)[OF assms(1), of w] call
    by (cases "bus_connect b w") (auto simp: unit_job_def split: prod.splits option.splits sum.splits)
qed

lemma manager_kept:
  assumes "bus_keeps v b"
  shows "systemd_keeps v (DBusManager b)"
proof -
  note bus = bus_keepsD[OF assms]
  have "keeps v (ListUnits b)"
    by (rule keepsI) (auto simp: ListUnits_def split: prod.splits option.splits sum.splits dest!: bus)
  moreover have "keeps v (UnitStatus b u)" for u
    by (rule keepsI) (auto simp: UnitStatus_def Let_def split: prod.splits option.splits sum.splits dest!: bus)
  moreover have "keeps v (systemd_Reboot b)"
    by (rule keepsI) (auto simp: systemd_Reboot_def split: prod.splits option.splits dest!: bus)
  moreover have "keeps v (StartUnit b u)" "keeps v (StopUnit b u)" "keeps v (RestartUnit b u)" for u
    unfolding StartUnit_def StopUnit_def RestartUnit_def by (rule unit_job_kept[OF assms], erule bus)+
  ultimately show ?thesis by (simp add: systemd_keeps_def DBusManager_def)
qed

lemma cli_kept:
  assumes "\<And>c. keeps v (ex_output x c)" "\<And>c. keeps v (ex_combined x c)"
  shows "bootc_keeps v (bootc_CLI x)"
proof -
  have x: "ex_output x c w = (r, w') \<Longrightarrow> v w' = v w" "ex_combined x c w = (q, w') \<Longrightarrow> v w' = v w" for c w r q w'
    using assms by (blast dest: keepsD)+
  have "keeps v (bootc_Status x)" by (rule keepsI) (auto simp: bootc_Status_def split: prod.splits sum.splits dest!: x)
  moreover have "keeps v (bootc_Switch x i)" for i
    by (rule keepsI) (auto simp: bootc_Switch_def split: prod.splits option.splits if_splits dest!: x)
  moreover have "keeps v (bootc_Rollback x)"
    by (rule keepsI) (auto simp: bootc_Rollback_def split: prod.splits option.splits dest!: x)
  ultimately show ?thesis by (simp add: bootc_keeps_def bootc_CLI_def)
qed

lemma journal_kept:
  assumes "\<And>c. keeps v (j c)"
  shows "keeps v (jr_Stream (JournalctlReader fp j) q)"
proof (rule keepsI)
  fix w r w' assume "jr_Stream (JournalctlReader fp j) q w = (r, w')"
  then show "v w' = v w"
    using keepsD[OF assms] by (auto simp: JournalctlReader_def journal_Stream_def split: prod.splits)
qed

lemma upgrade_kept:
  assumes "bootc_keeps v (um_bootc m)" "systemd_keeps v (um_systemd m)"
  shows "keeps v (upgrade_Upgrade m i)" "keeps v (upgrade_Rollback m)" "keeps v (upgrade_Reboot m)"
proof -
  note b = bootc_keepsD[OF assms(1)] and s = systemd_keepsD[OF assms(2)]
  show "keeps v (upgrade_Upgrade m i)"
    by (rule keepsI) (auto simp: upgrade_Upgrade_def split: prod.splits option.splits sum.splits if_splits dest!: b)
  show "keeps v (upgrade_Rollback m)"
    by (rule keepsI) (auto simp: upgrade_Rollback_def split: prod.splits option.splits sum.splits dest!: b)
  show "keeps v (upgrade_Reboot m)"
    by (rule keepsI) (auto simp: upgrade_Reboot_def dest!: s)
qed

section \<open>Calls\<close>

context guarded
begin

text \<open>A handler keeps what its function and the audit log keep.\<close>

lemma exec_kept:
  assumes run: "\<And>u r u'. run h c req u = Ret (r, u') \<Longrightarrow> v u' = v u"
    and log: "\<And>l. d_audit deps = Some l \<Longrightarrow> keeps_log v l"
    and exec: "exec h c deps req w = Ret (r, w')"
  shows "v w' = v w"
proof (cases "gate c (d_authz deps) (action h) (resource_of h req)")
  case (Refuse x e)
  then have "audit_opt (d_audit deps) (action h) (peerAddr c) x w = Ret w'"
    using exec by (auto simp: exec_gate outcome_simps)
  then show ?thesis
    using emit_kept[OF log] by (auto simp: audit_opt_def split: option.splits prod.splits)
next
  case (Admit i)
  then show ?thesis
    using exec run emit_kept[OF log] by (fastforce simp: exec_gate outcome_simps split: prod.splits)
qed

end

lemma responded_kept: "keeps_go v m \<Longrightarrow> keeps_go v (\<lambda>w. responded f (m w))"
  by (rule keeps_goI) (auto simp: responded_iff dest: keeps_goD)

lemma execute_kept:
  assumes "\<And>l. d_audit deps = Some l \<Longrightarrow> keeps_log v l" "keeps_go v (u_fn h c req)"
  shows "keeps_go v (Execute h z c deps req)"
  by (rule keeps_goI) (rule unary_handler.exec_kept[OF keeps_goD[OF assms(2)] assms(1)])

lemma stream_execute_kept:
  assumes "\<And>l. d_audit deps = Some l \<Longrightarrow> keeps_log v l" "keeps_go v (s_fn h c req send)"
  shows "keeps_go v (stream_Execute h c deps req send)"
  by (rule keeps_goI) (rule stream_handler.exec_kept[OF keeps_goD[OF assms(2)] assms(1)])

lemma deps_keepD:
  assumes "deps_keep v d"
  shows "dep_Health d = Some f \<Longrightarrow> keeps v f" "dep_Bootc d = Some b \<Longrightarrow> bootc_keeps v b"
    "dep_Journal d = Some j \<Longrightarrow> keeps v (jr_Stream j q)" "dep_Systemd d = Some s \<Longrightarrow> systemd_keeps v s"
    "dep_Proc d = Some g \<Longrightarrow> keeps v g"
  using assms unfolding deps_keep_def by blast+

lemma send_all_kept: "(\<And>r. keeps v (send r)) \<Longrightarrow> send_all send rs w = (e, w') \<Longrightarrow> v w' = v w"
proof (induction rs arbitrary: w)
  case (Cons r rs)
  then show ?case using keepsD[OF Cons.prems(1), of r w] by (auto split: prod.splits option.splits)
qed simp

lemma journal_stream_kept:
  assumes "\<And>r q. j = Some r \<Longrightarrow> keeps v (jr_Stream r q)" "\<And>r. keeps v (send r)"
  shows "keeps_go v (journal_stream t j opts f send)"
proof (rule keeps_goI)
  fix w r w' assume a: "journal_stream t j opts f send w = Ret (r, w')"
  then obtain jr where j: "j = Some jr" by (cases j) (auto simp: journal_stream_def nil_panic_def)
  obtain es err u where u: "jr_Stream jr opts w = ((es, err), u)" by (metis surj_pair)
  obtain e u' where u': "send_all send (map f es) u = (e, u')" by fastforce
  have "w' = u'" using a by (auto simp: journal_stream_def j u u' split: option.splits)
  then show "v w' = v w" using keepsD[OF assms(1)[OF j] u] send_all_kept[OF assms(2) u'] by simp
qed

lemma replied_kept: "keeps_go v m \<Longrightarrow> keeps_go v (\<lambda>w. replied (m w))"
  by (rule keeps_goI) (auto simp: replied_def outcome_simps dest: keeps_goD)

lemma control_kept:
  assumes "\<And>s. sys = Some s \<Longrightarrow> systemd_keeps v s \<and> keeps v (op s (cq_Name q))"
  shows "keeps_go v (serviceControlFn sys op q)"
proof (rule keeps_goI)
  fix w r w' assume a: "serviceControlFn sys op q w = Ret (r, w')"
  show "v w' = v w"
  proof (cases sys)
    case (Some s)
    note k = systemd_keepsD(1)[OF conjunct1[OF assms[OF Some]]] keepsD[OF conjunct2[OF assms[OF Some]]]
    from a Some show ?thesis
      by (auto simp: serviceControlFn_def split: option.splits prod.splits sum.splits dest!: k)
  qed (use a in \<open>auto simp: serviceControlFn_def split: option.splits\<close>)
qed

locale file_blind =
  fixes v :: "'x world \<Rightarrow> 'o"
  assumes files: "v (w\<lparr>w_fs := s\<rparr>) = v w"
begin

lemma on_fs_kept: "keeps v (on_fs f)"
  by (rule keepsI) (auto simp: on_fs_def files split: prod.splits)

text \<open>The functions of the calls.\<close>

lemma functions_kept:
  assumes d: "deps_keep v d"
  shows "keeps_go v (version_fn env d)" "keeps_go v (health_fn d)"
    "keeps_go v (diagnostics_Stats (NewDiagnosticsServer (dep_Journal d) (dep_Systemd d) (dep_Proc d)))"
    "keeps_go v (diagnostics_ServiceStatus (NewDiagnosticsServer (dep_Journal d) (dep_Systemd d) (dep_Proc d)) n)"
    "keeps_go v (getConfig_fn env a)" "keeps_go v (applyConfig_fn env a m)"
proof -
  note k = deps_keepD[OF d]
  have b: "dep_Bootc d = Some b \<Longrightarrow> bm_Status b w = (r, w') \<Longrightarrow> v w' = v w" for b w r w'
    using bootc_keepsD(1)[OF k(2)] by blast
  have h: "dep_Health d = Some f \<Longrightarrow> f w = (r, w') \<Longrightarrow> v w' = v w" for f w r w' using keepsD[OF k(1)] by blast
  have p: "dep_Proc d = Some f \<Longrightarrow> f w = (r, w') \<Longrightarrow> v w' = v w" for f w r w' using keepsD[OF k(5)] by blast
  have s: "dep_Systemd d = Some s \<Longrightarrow> sm_status s u w = (r, w') \<Longrightarrow> v w' = v w" for s u w r w'
    using systemd_keepsD(1)[OF k(4)] by blast
  show "keeps_go v (version_fn env d)"
    by (rule keeps_goI) (auto simp: version_fn_def Let_def split: option.splits prod.splits sum.splits dest: b)
  show "keeps_go v (health_fn d)"
    by (rule keeps_goI) (auto simp: health_fn_def nil_panic_def split: option.splits prod.splits sum.splits dest: h)
  show "keeps_go v (diagnostics_Stats (NewDiagnosticsServer (dep_Journal d) (dep_Systemd d) (dep_Proc d)))"
    by (rule keeps_goI) (auto simp: diagnostics_Stats_def NewDiagnosticsServer_def nil_panic_def
        split: option.splits prod.splits sum.splits dest: p)
  show "keeps_go v (diagnostics_ServiceStatus (NewDiagnosticsServer (dep_Journal d) (dep_Systemd d) (dep_Proc d)) n)"
    by (rule keeps_goI) (auto simp: diagnostics_ServiceStatus_def NewDiagnosticsServer_def nil_panic_def
        split: option.splits prod.splits sum.splits dest: s)
  show "keeps_go v (getConfig_fn env a)"
    by (rule keeps_goI) (auto simp: getConfig_fn_def config_GetConfig_def replied_def
        split: option.splits prod.splits sum.splits dest!: keepsD[OF on_fs_kept])
  show "keeps_go v (applyConfig_fn env a m)"
    by (rule keeps_goI) (auto simp: applyConfig_fn_def config_ApplyConfig_def replied_def
        split: option.splits prod.splits sum.splits dest!: keepsD[OF on_fs_kept])
qed

lemma upgrade_functions_kept:
  assumes d: "deps_keep v d"
  shows "keeps_go v (upgrade_fn (newUpgradeManagerFromDeps d) i)" "keeps_go v (rollback_fn (newUpgradeManagerFromDeps d))"
    "keeps_go v (reboot_fn (newUpgradeManagerFromDeps d))"
proof -
  note k = deps_keepD[OF d]
  have u: "keeps v (upgrade_Upgrade m i)" "keeps v (upgrade_Rollback m)" "keeps v (upgrade_Reboot m)"
    if "newUpgradeManagerFromDeps d = Some m" for m
    using that upgrade_kept[of v m] k(2,4) by (auto simp: newUpgradeManagerFromDeps_def split: option.splits)
  note u = keepsD[OF u(1)] keepsD[OF u(2)] keepsD[OF u(3)]
  show "keeps_go v (upgrade_fn (newUpgradeManagerFromDeps d) i)"
    by (rule keeps_goI) (auto simp: upgrade_fn_def split: option.splits prod.splits sum.splits dest: u)
  show "keeps_go v (rollback_fn (newUpgradeManagerFromDeps d))"
    by (rule keeps_goI) (auto simp: rollback_fn_def split: option.splits prod.splits sum.splits dest: u)
  show "keeps_go v (reboot_fn (newUpgradeManagerFromDeps d))"
    by (rule keeps_goI) (auto simp: reboot_fn_def split: option.splits prod.splits dest: u)
qed

lemma serve_kept:
  assumes d: "deps_keep v d" and log: "\<And>l. audit = Some l \<Longrightarrow> keeps_log v l"
    and send: "\<And>r. keeps v (sendL r)" "\<And>r. keeps v (sendD r)"
  shows "keeps_go v (serve (machine_server_of env d az audit) sendL sendD c q)"
proof -
  note f = functions_kept[OF d] upgrade_functions_kept[OF d]
  have control: "keeps_go v (serviceControlFn (dep_Systemd d) op p)" if "\<And>s u. systemd_keeps v s \<Longrightarrow> keeps v (op s u)" for op p
    using that deps_keepD(4)[OF d] by (intro control_kept) blast
  have c: "keeps_go v (serviceControlFn (dep_Systemd d) sm_start p)" "keeps_go v (serviceControlFn (dep_Systemd d) sm_stop p)"
    "keeps_go v (serviceControlFn (dep_Systemd d) sm_restart p)" for p
    by (rule control, simp add: systemd_keeps_def)+
  have j: "keeps_go v (journal_stream t (dep_Journal d) opts g send)" if "\<And>r. keeps v (send r)" for t opts g send
    using that deps_keepD(3)[OF d] by (intro journal_stream_kept) blast+
  let ?s = "machine_server_of env d az audit"
  have log': "\<And>l. d_audit (ms_deps ?s) = Some l \<Longrightarrow> keeps_log v l" using log by (simp add: server_simps)
  have unary: "v w' = v w" if "responded f (Execute h z c (ms_deps ?s) p w) = Ret (r, w')" "keeps_go v (u_fn h c p)" for h z p f r w w'
  proof -
    have "keeps_go v (Execute h z c (ms_deps ?s) p)" by (rule execute_kept[OF log' that(2)])
    then show ?thesis using that(1) by (cases r) (auto simp: responded_iff dest: keeps_goD)
  qed
  show ?thesis
  proof (cases q)
    case (Control p)
    have "keeps_go v (Execute (ms_startService ?s) None c (ms_deps ?s) p)" "keeps_go v (Execute (ms_stopService ?s) None c (ms_deps ?s) p)"
      "keeps_go v (Execute (ms_restartService ?s) None c (ms_deps ?s) p)"
      by (rule execute_kept[OF log'], simp_all add: server_simps c)+
    note e = keeps_goD[OF this(1)] keeps_goD[OF this(2)] keeps_goD[OF this(3)]
    have "keeps_go v (ServiceControl ?s c p)"
      by (rule keeps_goI) (auto simp: ServiceControl_def split: if_splits dest: e)
    then show ?thesis by (auto intro!: keeps_goI simp: Control responded_iff dest: keeps_goD)
  next
    case (Logs p)
    have "keeps_go v (LogsStream (NewDiagnosticsServer (dep_Journal d) (dep_Systemd d) (dep_Proc d)) p sendL)"
      by (rule keeps_goI) (auto simp: LogsStream_def NewDiagnosticsServer_def dest: keeps_goD[OF j[OF send(1)]])
    then have "keeps_go v (stream_Execute (ms_logs ?s) c (ms_deps ?s) p sendL)"
      by (intro stream_execute_kept[OF log']) (simp_all add: server_simps)
    then show ?thesis by (auto intro!: keeps_goI simp: Logs outcome_simps dest: keeps_goD)
  next
    case (Dmesg p)
    have "keeps_go v (DmesgStream (NewDiagnosticsServer (dep_Journal d) (dep_Systemd d) (dep_Proc d)) p sendD)"
      by (rule keeps_goI) (auto simp: DmesgStream_def NewDiagnosticsServer_def dest: keeps_goD[OF j[OF send(2)]])
    then have "keeps_go v (stream_Execute (ms_dmesg ?s) c (ms_deps ?s) p sendD)"
      by (intro stream_execute_kept[OF log']) (simp_all add: server_simps)
    then show ?thesis by (auto intro!: keeps_goI simp: Dmesg outcome_simps dest: keeps_goD)
  qed (rule keeps_goI, simp only: serve.simps, erule unary, simp add: server_simps f replied_kept)+
qed

end

interpretation enrolment_kept: file_blind w_boot
  by unfold_locales simp

interpretation rest_kept: file_blind w_ext
  by unfold_locales simp

end
