(* ===== verification/Agent_Run.thy ===== *)
theory Agent_Run
  imports Frame
begin

text \<open>
  The process of \<open>cmd/hb-agent\<close>: \<open>main\<close>, and the running agent as a transition system. A step is a call, an enrolment, a
  tick of the health loop or the end of the context, by a signal or a failure of the server, in any order; calls that were
  accepted before the context ended may still be answered after it. A panic ends the process, so it has no step. What is
  shown of all runs rests on the frames of \<open>Frame\<close>.
\<close>

section \<open>The process\<close>

definition hb_version :: string where
  "hb_version = ''0.1.0-dev''"

datatype ('y, 'f) process = Exit nat | Running "('y, 'f) started"

text \<open>What \<open>main\<close> prints, and the process it leaves: it has ended, or it serves.\<close>

definition hb_main ::
    "('y, 'f, 'k, 'p, 'pol) hb_env \<Rightarrow> (string \<Rightarrow> int option) \<Rightarrow> environment \<Rightarrow> string list \<Rightarrow> 'y agent_world \<Rightarrow>
     ((string \<times> ('y, 'f) process) \<times> 'y agent_world) go" where
  "hb_main env parse os_env args w =
     (if length args > 1 \<and> args ! 1 = ''version'' then Ret ((''hb-agent '' @ hb_version @ [CHR 0x0A], Exit 0), w)
      else go_bind (hb_start env (Load parse os_env) w) (\<lambda>(r, w).
        (case r of
           Inl e \<Rightarrow> Ret (([], Exit 1), w)
         | Inr st \<Rightarrow> Ret (([], Running st), w))))"

section \<open>The running agent\<close>

datatype agent_input = CallIn rctx rpc | EnrolIn rctx bootstrap_request | TickIn | CancelIn

datatype 'f agent_output = Answered "error + 'f response" | EnrolAnswered "error + bootstrap_response" | Silent

record 'y run_state =
  rs_world :: "'y agent_world"
  rs_health :: int
  rs_stopping :: bool

definition fresh_run :: "'y agent_world \<Rightarrow> 'y run_state" where
  "fresh_run w = \<lparr>rs_world = w, rs_health = Unknown, rs_stopping = False\<rparr>"

inductive agent_step ::
    "('y, 'f, 'k, 'p, 'pol) hb_env \<Rightarrow> ('y, 'f) started \<Rightarrow> (logs_response \<Rightarrow> 'y agent_world \<Rightarrow> error option \<times> 'y agent_world) \<Rightarrow>
     (dmesg_response \<Rightarrow> 'y agent_world \<Rightarrow> error option \<times> 'y agent_world) \<Rightarrow>
     'y run_state \<Rightarrow> agent_input \<times> 'f agent_output \<Rightarrow> 'y run_state \<Rightarrow> bool"
  for env st sendL sendD where
  call_step: "agent_call (sd_server st) sendL sendD c q (rs_world s) = Ret (x, w) \<Longrightarrow>
    agent_step env st sendL sendD s (CallIn c q, Answered x) (s\<lparr>rs_world := w\<rparr>)"
| enrol_step: "agent_enrol (he_api env) (sd_server st) c q (rs_world s) = Ret (x, w) \<Longrightarrow>
    agent_step env st sendL sendD s (EnrolIn c q, EnrolAnswered x) (s\<lparr>rs_world := w\<rparr>)"
| tick_step: "\<not> rs_stopping s \<Longrightarrow> sd_interval st > 0 \<Longrightarrow>
    watchdog_tick (agent_watchdog env st) (rs_health s) (rs_world s) = Ret (p, w) \<Longrightarrow>
    agent_step env st sendL sendD s (TickIn, Silent) (s\<lparr>rs_world := w, rs_health := p\<rparr>)"
| cancel_step: "\<not> rs_stopping s \<Longrightarrow>
    agent_step env st sendL sendD s (CancelIn, Silent) (s\<lparr>rs_world := shutdown env st (rs_world s), rs_stopping := True\<rparr>)"

inductive agent_run for env st sendL sendD where
  done_run: "agent_run env st sendL sendD s [] s"
| step_run: "agent_step env st sendL sendD s e s' \<Longrightarrow> agent_run env st sendL sendD s' es s'' \<Longrightarrow>
    agent_run env st sendL sendD s (e # es) s''"

inductive_cases agent_run_consE: "agent_run env st sendL sendD s (e # es) s'"

inductive_simps agent_run_nil [simp]: "agent_run env st sendL sendD s [] s'"

lemma agent_run_append:
  "agent_run env st sendL sendD s (es @ fs) s' \<longleftrightarrow>
     (\<exists>m. agent_run env st sendL sendD s es m \<and> agent_run env st sendL sendD m fs s')"
proof (induction es arbitrary: s)
  case (Cons e es)
  then show ?case by (auto elim!: agent_run_consE intro: step_run) (blast intro: step_run)
qed simp

text \<open>An enrolment that compared a wrong token, and one that gave a certificate.\<close>

fun guessed :: "agent_input \<times> 'f agent_output \<Rightarrow> bool" where
  "guessed (EnrolIn c q, EnrolAnswered (Inl e)) \<longleftrightarrow> e = Wrap ''bootstrap'' auth_failure"
| "guessed _ \<longleftrightarrow> False"

fun joined :: "agent_input \<times> 'f agent_output \<Rightarrow> bool" where
  "joined (EnrolIn c q, EnrolAnswered (Inr r)) \<longleftrightarrow> True"
| "joined _ \<longleftrightarrow> False"

section \<open>What is outside the agent\<close>

text \<open>Nothing outside the process reaches an observation: the bus, the commands, the network, the clock.\<close>

definition outside_keeps :: "('y agent_world \<Rightarrow> 'o) \<Rightarrow> ('y, 'f, 'k, 'p, 'pol) hb_env \<Rightarrow> bool" where
  "outside_keeps v env \<longleftrightarrow> plugins_keep v (he_plugins env) \<and> keeps v (he_stamp env) \<and> (\<forall>a. keeps v (he_listen env a))
     \<and> (\<forall>t. keeps v (he_notify env t)) \<and> (\<forall>ca u. keeps v (e_get (he_oidc env) ca u)) \<and> keeps v (e_now (he_oidc env))
     \<and> (\<forall>f. keeps v (e_read_file (he_oidc env) f))"

section \<open>Authentication keeps the enrolment manager\<close>

lemma oidc_kept:
  assumes get: "\<And>ca u. keeps v (e_get env ca u)" and now: "keeps v (e_now env)"
  shows "keeps v (oidc_Authenticate env p c)"
proof -
  have get: "v w' = v w" if "e_get env ca u w = (r, w')" for ca u w r w' using keepsD[OF get that] .
  have now: "v w' = v w" if "e_now env w = (r, w')" for w r w' using keepsD[OF now that] .
  have k_ref: "keeps v (refresh env k)" for k
    by (rule keepsI) (auto simp: refresh_def fetch_def split: prod.splits sum.splits if_splits option.splits dest!: get now)
  have ref: "v w' = v w" if "refresh env k w = (r, w')" for k w r w' using keepsD[OF k_ref that] .
  have k_key: "keeps v (getKey env kid k)" for kid k
    by (rule keepsI) (auto simp: getKey_def Let_def split: prod.splits option.splits if_splits bool.splits dest!: ref now)
  have key: "v w' = v w" if "getKey env kid k w = (r, w')" for kid k w r w' using keepsD[OF k_key that] .
  have k_times: "keeps v (check_times env cs)" for cs
  proof (rule keepsI)
    fix w r w' assume a: "check_times env cs w = (r, w')"
    obtain t1 u1 where 1: "e_now env w = (t1, u1)" by fastforce
    obtain t2 u2 where 2: "e_now env u1 = (t2, u2)" by fastforce
    obtain t3 u3 where 3: "e_now env u2 = (t3, u3)" by fastforce
    have "w' \<in> {u1, u2, u3}"
      using a unfolding check_times_def 1 2 3 prod.case
      by (auto split: option.splits json.splits if_splits)
    then show "v w' = v w" using now[OF 1] now[OF 2] now[OF 3] by auto
  qed
  have times: "v w' = v w" if "check_times env cs w = (r, w')" for cs w r w' using keepsD[OF k_times that] .
  have k_claims: "keeps v (verify_claims env g cs)" for g cs
    by (rule keepsI) (auto simp: verify_claims_def split: prod.splits option.splits if_splits dest!: times)
  have claims: "v w' = v w" if "verify_claims env g cs w = (r, w')" for g cs w r w' using keepsD[OF k_claims that] .
  have k_tok: "keeps v (verifyToken env p t)" for p t
    by (rule keepsI) (auto simp: verifyToken_def Let_def split: list.splits prod.splits sum.splits option.splits dest!: key claims)
  have tok: "v w' = v w" if "verifyToken env p t w = (r, w')" for p t w r w' using keepsD[OF k_tok that] .
  show ?thesis
    by (rule keepsI) (auto simp: oidc_Authenticate_def Let_def split: option.splits list.splits if_splits prod.splits sum.splits dest!: tok)
qed

lemma set_objects [simp]: "w_boot (set_oidc p w) = w_boot w" "w_boot (set_log l w) = w_boot w" "w_fs (set_log l w) = w_fs w"
  by (simp_all add: set_oidc_def set_log_def)

lemma authenticator_kept:
  assumes out: "outside_keeps w_boot env" and auth: "createAuthenticator env cfg w = Ret (Inr a, w')"
  shows "keeps w_boot (authenticate a c)"
proof -
  have o: "keeps w_boot (oidc_Authenticate (he_oidc env) p c)" for p
    using out by (intro oidc_kept) (auto simp: outside_keeps_def)
  have "a = oidc_authenticator (he_oidc env) \<or> keeps w_boot (authenticate a c)"
    using auth
    by (auto simp: keeps_def authn_created authn_factories_def pure_factory_def oidc_factory_def mtls_new_def token_authenticator_def outcome_simps
        split: option.splits if_splits sum.splits prod.splits)
  then show ?thesis
  proof
    assume a: "a = oidc_authenticator (he_oidc env)"
    show ?thesis
      by (rule keepsI) (auto simp: a oidc_authenticator_def split: prod.splits dest!: keepsD[OF o])
  qed
qed

section \<open>What the plugins bring\<close>

lemma loaded_deps_kept:
  assumes out: "plugins_keep v p" and load: "loadPlugins uc ord (map_of (plugin_factories p)) ns = Inr ps"
    and d: "deps_keep v d"
  shows "deps_keep v (fold buildDeps ps d)"
  using load d
proof (induction ns arbitrary: ps d)
  case (Cons n ns)
  obtain x xs where ps: "ps = x # xs" "loadPlugins uc ord (map_of (plugin_factories p)) ns = Inr xs"
    and x: "plugin_Create ord (map_of (plugin_factories p)) n None = Inr x"
    using Cons.prems(1) by (auto simp: outcome_simps split: sum.splits)
  have "deps_keep v (buildDeps x d)"
  proof (cases x)
    case (Services s)
    then have "sp_systemd s = DBusManager (pe_bus p)"
      using x by (auto simp: plugin_Create_def plugin_factories_def services_New_def diagnostics_New_def lifecycle_New_def
          config_New_def outcome_simps split: option.splits if_splits)
    then show ?thesis using Services Cons.prems(2) manager_kept out by (auto simp: deps_keep_def plugins_keep_def)
  next
    case (Diagnostics s)
    then have "dp_journal s = JournalctlReader (pe_float p) (pe_journalctl p)" "keeps v (dp_proc s)"
      using x by (auto simp: plugin_Create_def plugin_factories_def services_New_def diagnostics_New_def lifecycle_New_def
          config_New_def outcome_simps keeps_def split: option.splits if_splits)
    then show ?thesis using Diagnostics Cons.prems(2) journal_kept out by (auto simp: deps_keep_def plugins_keep_def)
  next
    case (Lifecycle s)
    then have "lp_bootc s = bootc_CLI (pe_bootc p)"
      using x by (auto simp: plugin_Create_def plugin_factories_def services_New_def diagnostics_New_def lifecycle_New_def
          config_New_def outcome_simps split: option.splits if_splits)
    then show ?thesis using Lifecycle Cons.prems(2) cli_kept out by (auto simp: deps_keep_def plugins_keep_def)
  qed (use Cons.prems(2) in \<open>auto simp: deps_keep_def\<close>)
  then show ?case using Cons.IH ps by simp
qed simp

lemma unit_probe_kept:
  assumes "bus_keeps v b"
  shows "keeps v (unit_probe uc b u)"
  by (rule keepsI)
    (auto simp: unit_probe_def Let_def split: prod.splits option.splits sum.splits dest!: bus_keepsD(1,3)[OF assms])

lemma loaded_probes_kept:
  assumes out: "plugins_keep v p" and load: "loadPlugins uc ord (map_of (plugin_factories p)) ns = Inr ps"
    and x: "x \<in> set ps" "pr \<in> set (HealthChecks p x)"
  shows "keeps v (pr_Check pr)"
  using load x
proof (induction ns arbitrary: ps)
  case (Cons n ns)
  obtain y xs where ps: "ps = y # xs" "loadPlugins uc ord (map_of (plugin_factories p)) ns = Inr xs"
    and y: "plugin_Create ord (map_of (plugin_factories p)) n None = Inr y"
    using Cons.prems(1) by (auto simp: outcome_simps split: sum.splits)
  show ?case
  proof (cases "x = y")
    case True
    have cli: "bootc_keeps v (bootc_CLI (pe_bootc p))" using out by (intro cli_kept) (auto simp: plugins_keep_def)
    have boot: "lp_bootc q = bootc_CLI (pe_bootc p)" if "x = Lifecycle q" for q
      using y True that by (auto simp: plugin_Create_def plugin_factories_def services_New_def diagnostics_New_def lifecycle_New_def
          config_New_def outcome_simps split: option.splits if_splits)
    have "keeps v (bootc_probe uc' (bootc_CLI (pe_bootc p)))" for uc'
      by (rule keepsI) (auto simp: bootc_probe_def split: prod.splits sum.splits dest!: bootc_keepsD(1)[OF cli])
    then show ?thesis
      using Cons.prems(3) boot unit_probe_kept[of v "pe_bus p"] out
      by (cases x) (auto simp: SystemdUnitProbes_def plugins_keep_def)
  qed (use Cons ps in auto)
qed simp

lemma fold_register: "set (fold (\<lambda>p agg. register_probes (f p) agg) ps agg) = set agg \<union> (\<Union>p\<in>set ps. set (f p))"
  by (induction ps arbitrary: agg) (auto simp: register_probes_def)

lemma run_probes_kept:
  "(\<And>p. p \<in> set ps \<Longrightarrow> keeps v (pr_Check p)) \<Longrightarrow> run_probes ps r w = (r', w') \<Longrightarrow> v w' = v w"
proof (induction ps arbitrary: r w)
  case (Cons p ps)
  obtain st u where p: "pr_Check p w = (st, u)" by fastforce
  have "v u = v w" using keepsD[OF Cons.prems(1) p] by simp
  then show ?case using Cons p by (auto split: prod.splits)
qed simp

lemma check_kept:
  assumes "\<And>p. p \<in> set ps \<Longrightarrow> keeps v (pr_Check p)"
  shows "keeps v (aggregator_Check ps)"
proof (rule keepsI)
  fix w r w' assume "aggregator_Check ps w = (r, w')"
  then obtain h where "run_probes ps \<lparr>hr_Status = Health.Healthy, hr_Checks = []\<rparr> w = (h, w')"
    by (auto simp: aggregator_Check_def split: prod.splits)
  then show "v w' = v w" using run_probes_kept[OF assms] by blast
qed

section \<open>What a started agent is\<close>

lemma file_audit_kept:
  assumes "outside_keeps w_boot env"
  shows "w_boot (log_in_world env e w) = w_boot w" "keeps_log w_boot (file_audit env cfg)" "keeps_log w_boot nil_file_audit"
proof -
  show l: "w_boot (log_in_world env e w) = w_boot w" for e w
  proof -
    obtain t u where t: "he_stamp env w = (t, u)" by fastforce
    have k: "keeps w_boot (he_stamp env)" using assms by (simp add: outside_keeps_def)
    show ?thesis using keepsD[OF k t] t by (auto simp: log_in_world_def split: prod.splits)
  qed
  show "keeps_log w_boot (file_audit env cfg)" "keeps_log w_boot nil_file_audit"
    using l by (auto simp: keeps_log_def file_audit_def nil_file_audit_def nil_panic_def)
qed

text \<open>Serving starts with a manager that has seen no failure, and registers the probes of the plugins.\<close>

lemma hb_serve_parts:
  assumes out: "outside_keeps w_boot env" and serve: "hb_serve env cfg tls auth az ps w = Ret (Inr st, w')"
  shows "bs_attempts (w_boot w') = 0" "sd_probes st = fold (\<lambda>p agg. register_probes (HealthChecks (he_plugins env) p) agg) ps []"
proof -
  define u where "u = log_fingerprints env (cfg_TLSDir cfg) (w\<lparr>w_boot := NewManager (cfg_TLSDir cfg)\<rparr>)"
  have files: "w_boot (snd (on_fs f x)) = w_boot x" for f :: "fs \<Rightarrow> 'q \<times> fs" and x :: "'a agent_world"
    using enrolment_kept.on_fs_kept[of f] unfolding keeps_def by blast
  obtain audit opened v where o: "open_audit env u = ((audit, opened), v)" by (metis prod.collapse)
  obtain active x where e: "on_fs (Enabled (w_boot v)) (emitLifecycle env opened ''startup'' ''success'' v) = (active, x)"
    by fastforce
  obtain srv where srv: "NewServer (he_api env) (started_options env tls auth az ps audit active) = Ret srv"
    by (simp add: new_server)
  note serve = serve[unfolded hb_serve_def Let_def, folded u_def,
      unfolded o prod.case e srv[unfolded started_options_def] go_bind.simps]
  obtain y where l: "Listen (he_listen env) (cfg_ListenAddr cfg) x = (None, y)"
    using serve by (auto split: prod.splits option.splits)
  note serve = serve[unfolded l prod.case option.case]
  show "sd_probes st = fold (\<lambda>p agg. register_probes (HealthChecks (he_plugins env) p) agg) ps []" using serve by auto
  have "w_boot u = NewManager (cfg_TLSDir cfg)" by (simp add: u_def log_fingerprints_def Let_def files)
  moreover have "w_boot v = w_boot u"
  proof -
    obtain q z where q: "on_fs (NewFileLogger (he_canon env) (he_rand_key env u) audit_DefaultConfig) u = (q, z)" by fastforce
    have "w_boot z = w_boot u" using files[of "NewFileLogger (he_canon env) (he_rand_key env u) audit_DefaultConfig" u] q by simp
    then show ?thesis using o by (auto simp: open_audit_def q split: sum.splits)
  qed
  moreover have "w_boot x = w_boot v"
  proof -
    have "w_boot x = w_boot (emitLifecycle env opened ''startup'' ''success'' v)"
      using files[of "Enabled (w_boot v)" "emitLifecycle env opened ''startup'' ''success'' v"] unfolding e by simp
    then show ?thesis using file_audit_kept(1)[OF out] by (simp add: emitLifecycle_def)
  qed
  moreover have "w_boot y = w_boot x"
  proof -
    obtain q z where q: "he_listen env (cfg_ListenAddr cfg) x = (q, z)" by fastforce
    have k: "keeps w_boot (he_listen env (cfg_ListenAddr cfg))" using out by (simp add: outside_keeps_def)
    from l have "z = y" by (auto simp: Listen_def q split: option.splits)
    with keepsD[OF k q] show ?thesis by simp
  qed
  moreover have "w_boot w' = w_boot y"
  proof -
    have k: "keeps w_boot (he_notify env ''READY=1'')" using out by (simp add: outside_keeps_def)
    have "w' = snd (he_notify env ''READY=1'' y)" using serve by simp
    with k show ?thesis by (simp add: keeps_def)
  qed
  ultimately show "bs_attempts (w_boot w') = 0" by (simp add: NewManager_def)
qed

text \<open>The parts of a started agent keep the enrolment manager, which is fresh.\<close>

lemma started_parts:
  assumes out: "outside_keeps w_boot env" and start: "hb_start env cfg w0 = Ret (Inr st, w1)"
  obtains opts auth where "NewServer (he_api env) opts = Ret (sd_server st)" "op_Auth opts = Some auth"
    "\<And>c. keeps w_boot (authenticate auth c)" "deps_keep w_boot (op_Deps opts)" "op_Audit opts = Some (sd_audit st)"
    "keeps_log w_boot (sd_audit st)" "\<And>p. p \<in> set (sd_probes st) \<Longrightarrow> keeps w_boot (pr_Check p)" "bs_attempts (w_boot w1) = 0"
proof -
  obtain tls auth az ps u1 v1 u2 v2 v3 where a: "createAuthenticator env cfg u1 = Ret (Inr auth, v1)"
    and load: "loadPlugins (en_uc (he_api env)) (he_order env) (map_of (plugin_factories (he_plugins env))) (cfg_Plugins cfg) = Inr ps"
    and serve: "hb_serve env cfg tls auth az ps v3 = Ret (Inr st, w1)"
    by (rule hb_start_parts[OF start]) blast
  obtain active where srv: "NewServer (he_api env) (started_options env tls auth az ps (sd_audit st) active) = Ret (sd_server st)"
    and audit: "if sd_log_open st then \<exists>c. sd_audit st = file_audit env c else sd_audit st = nil_file_audit"
    using hb_serve_started[OF serve] by blast
  have pl: "plugins_keep w_boot (he_plugins env)" using out by (simp add: outside_keeps_def)
  have "deps_keep w_boot no_deps" by (simp add: deps_keep_def no_deps_def)
  from loaded_deps_kept[OF pl load this] have d: "deps_keep w_boot ((fold buildDeps ps no_deps)\<lparr>dep_Bootstrap := True\<rparr>)"
    by (simp add: deps_keep_def)
  have l: "keeps_log w_boot (sd_audit st)" using audit file_audit_kept(2,3)[OF out] by (auto split: if_splits)
  have probes: "set (sd_probes st) = (\<Union>p\<in>set ps. set (HealthChecks (he_plugins env) p))" and fresh: "bs_attempts (w_boot w1) = 0"
    using hb_serve_parts[OF out serve] by (simp_all add: fold_register)
  show thesis
    by (rule that[OF srv, of auth])
      (use d l fresh probes loaded_probes_kept[OF pl load] authenticator_kept[OF out a] in \<open>auto simp: started_options_def\<close>)
qed

section \<open>The steps and the count of failures\<close>

text \<open>A call with the enrolment manager: the failures counted, and what is impossible when it is locked.\<close>

definition counted :: "'x world \<Rightarrow> error + bootstrap_response \<Rightarrow> 'x world \<Rightarrow> bool" where
  "counted w x w' \<longleftrightarrow>
     bs_attempts (w_boot w') = bs_attempts (w_boot w) + (if x = Inl (Wrap ''bootstrap'' auth_failure) then 1 else 0)
     \<and> (x = Inl (Wrap ''bootstrap'' auth_failure) \<longrightarrow> bs_attempts (w_boot w) < maxAttempts)
     \<and> (maxAttempts \<le> bs_attempts (w_boot w) \<longrightarrow> x \<in> range Inl)"

lemma counted_same: "w_boot w' = w_boot w \<Longrightarrow> e \<noteq> Wrap ''bootstrap'' auth_failure \<Longrightarrow> counted w (Inl e) w'"
  by (simp add: counted_def)

lemma run_bootstrap_counts:
  assumes "run_bootstrap env t csr w = (Ret r, w')"
  shows "(case r of Inl e \<Rightarrow> counted w (Inl (Wrap ''bootstrap'' e)) w'
    | Inr b \<Rightarrow> bs_attempts (w_boot w') = bs_attempts (w_boot w) \<and> bs_attempts (w_boot w) < maxAttempts)"
proof -
  obtain m s where b: "Bootstrap (en_sha256 env) (en_crypto env w) t csr (w_boot w) (w_fs w) = (Ret r, m, s)" "w_boot w' = m"
    using assms by (auto simp: run_bootstrap_def split: prod.splits)
  show ?thesis
    using Bootstrap_attempts[OF b(1)] Bootstrap_locked[OF b(1)] b(2)
    by (cases r) (auto simp: counted_def not_le[symmetric])
qed

lemma enrolment_counts:
  assumes log: "keeps_log w_boot l" and run: "BootstrapAuth env (machine_server_of env d az (Some l)) c q w = Ret (x, w')"
  shows "counted w x w'"
proof (cases "dep_Bootstrap d")
  case True
  have files: "w_boot u' = w_boot u" if "on_fs f u = (r, u')" for f :: "fs \<Rightarrow> 'q \<times> fs" and u u' :: "'a world" and r
    using keepsD[OF enrolment_kept.on_fs_kept that] .
  obtain b v where e: "on_fs (Enabled (w_boot w)) w = (b, v)" by fastforce
  note v = files[OF e]
  show ?thesis
  proof (cases b)
    case b: True
    obtain m u where m: "run_bootstrap env (bq_Token q) (bq_Csr q) v = (m, u)" by fastforce
    obtain r where r: "m = Ret r" using run True b by (cases m) (auto simp: BootstrapAuth_def server_simps e m)
    note cnt = run_bootstrap_counts[OF m[unfolded r]]
    show ?thesis
    proof (cases r)
      case (Inl err)
      obtain z where z: "emitBootstrapAudit (Some l) (case ctx_peer c of None \<Rightarrow> ''unknown'' | Some p \<Rightarrow> peer_addr p) ''denied'' u = Ret z"
          "w' = z" "x = Inl (Wrap ''bootstrap'' err)"
        using run True b r Inl by (auto simp: BootstrapAuth_def server_simps e m outcome_simps)
      then have "w_boot z = w_boot u" using log by (auto simp: emitBootstrapAudit_def keeps_log_def)
      with z cnt v Inl show ?thesis by (simp add: counted_def)
    next
      case (Inr br)
      obtain z where z: "emitBootstrapAudit (Some l) (case ctx_peer c of None \<Rightarrow> ''unknown'' | Some p \<Rightarrow> peer_addr p) ''success'' u = Ret z"
        and rest: "(case on_fs (CAFingerprint (en_sha256 env) (en_crypto env z) (bs_dir (w_boot z))) z of
            (fp, w) \<Rightarrow> Ret (Inr \<lparr>bp_CaCert = br_ca_cert br, bp_ClientCert = br_client_cert br,
                bp_CaFingerprint = (case fp of Inl e \<Rightarrow> [] | Inr f \<Rightarrow> f)\<rparr>, w)) = Ret (x, w')"
        using run True b r Inr by (auto simp: BootstrapAuth_def server_simps e m outcome_simps)
      obtain fp y where y: "on_fs (CAFingerprint (en_sha256 env) (en_crypto env z) (bs_dir (w_boot z))) z = (fp, y)" by fastforce
      have "y = w'" "x \<in> range Inr" using rest unfolding y by auto
      moreover have "w_boot y = w_boot u" using z log files[OF y] by (auto simp: emitBootstrapAudit_def keeps_log_def)
      ultimately show ?thesis using cnt v Inr by (auto simp: counted_def)
    qed
  next
    case False
    then show ?thesis
      using run True v by (auto simp: BootstrapAuth_def server_simps e intro!: counted_same)
  qed
next
  case False
  then show ?thesis using run by (auto simp: BootstrapAuth_def server_simps intro!: counted_same)
qed

text \<open>Every step but a wrong guess leaves the count as it is.\<close>

lemma tick_kept:
  assumes check: "keeps v (wd_check d)" and ping: "keeps v (wd_ping d)" and log: "\<And>l. wd_audit d = Some l \<Longrightarrow> keeps_log v l"
    and tick: "watchdog_tick d prev w = Ret (p, w')"
  shows "v w' = v w"
proof -
  obtain r u where c: "wd_check d w = (r, u)" by fastforce
  have ping: "v (snd (wd_ping d x)) = v x" for x using ping by (simp add: keeps_def)
  show ?thesis
    using tick keepsD[OF check c] ping log
    by (auto simp: watchdog_tick_def c keeps_log_def outcome_simps split: sum.splits if_splits option.splits)
qed

lemma call_kept:
  assumes srv: "NewServer env opts = Ret s" and auth: "op_Auth opts = Some a" "\<And>c. keeps w_boot (authenticate a c)"
    and d: "deps_keep w_boot (op_Deps opts)" and log: "op_Audit opts = Some l" "keeps_log w_boot l"
    and send: "\<And>r. keeps w_boot (sendL r)" "\<And>r. keeps w_boot (sendD r)"
    and call: "agent_call s sendL sendD c q w = Ret (x, w')"
  shows "w_boot w' = w_boot w"
proof -
  let ?m = "machine_server_of env (op_Deps opts) (op_Authz opts) (op_Audit opts)"
  have s: "ag_auth s = Some a" "ag_skip s (full_method q) = False" "ag_machine s = ?m"
    using srv auth(1) by (auto simp: new_server)
  have serve: "keeps_go w_boot (serve ?m sendL sendD c q)" for c
    by (rule enrolment_kept.serve_kept[OF d _ send]) (use log in auto)
  obtain i v where v: "authenticate a c w = (i, v)" by fastforce
  have "w' = v \<or> (\<exists>c r. serve ?m sendL sendD c q v = Ret (r, w'))"
    using call
    by (auto simp: agent_call_def unary_chain_def stream_chain_def UnaryInterceptor_def StreamInterceptor_def s v
        outcome_def outcome_simps Let_def split: if_splits prod.splits option.splits sum.splits)
  with keepsD[OF auth(2) v] keeps_goD[OF serve] show ?thesis by metis
qed

lemma enrol_kept:
  assumes srv: "NewServer env opts = Ret s" and auth: "op_Auth opts = Some a" "\<And>c. keeps w_boot (authenticate a c)"
    and log: "op_Audit opts = Some l" "keeps_log w_boot l" and call: "agent_enrol env s c q w = Ret (x, w')"
  shows "counted w x w'"
proof -
  let ?m = "machine_server_of env (op_Deps opts) (op_Authz opts) (Some l)"
  have s: "ag_auth s = Some a" "ag_machine s = ?m" using srv auth(1) log(1) by (auto simp: new_server)
  obtain i v where v: "authenticate a c w = (i, v)" by fastforce
  note same = keepsD[OF auth(2) v]
  consider "BootstrapAuth env ?m c q w = Ret (x, w')" | e where "x = Inl (StatusOf Unauthenticated ''authentication failed'' e)" "w' = v"
    | j where "BootstrapAuth env ?m (ContextWithIdentity c j) q v = Ret (x, w')"
    using call by (auto simp: agent_enrol_def unary_chain_def UnaryInterceptor_def s v split: if_splits sum.splits)
  then show ?thesis
  proof cases
    case 1 then show ?thesis by (rule enrolment_counts[OF log(2)])
  next
    case 2 then show ?thesis using same by (simp add: counted_same)
  next
    case 3 then show ?thesis using enrolment_counts[OF log(2) 3] same by (simp add: counted_def)
  qed
qed

lemma step_counts:
  assumes out: "outside_keeps w_boot env" and start: "hb_start env cfg w0 = Ret (Inr st, w1)"
    and send: "\<And>r. keeps w_boot (sendL r)" "\<And>r. keeps w_boot (sendD r)"
    and step: "agent_step env st sendL sendD s e s'"
  shows "bs_attempts (w_boot (rs_world s')) = bs_attempts (w_boot (rs_world s)) + (if guessed e then 1 else 0)
    \<and> (guessed e \<longrightarrow> bs_attempts (w_boot (rs_world s)) < maxAttempts)
    \<and> (maxAttempts \<le> bs_attempts (w_boot (rs_world s)) \<longrightarrow> \<not> joined e)"
proof -
  obtain opts a where srv: "NewServer (he_api env) opts = Ret (sd_server st)" and auth: "op_Auth opts = Some a"
      "\<And>c. keeps w_boot (authenticate a c)" and d: "deps_keep w_boot (op_Deps opts)" and log: "op_Audit opts = Some (sd_audit st)"
      "keeps_log w_boot (sd_audit st)" and pr: "\<And>p. p \<in> set (sd_probes st) \<Longrightarrow> keeps w_boot (pr_Check p)"
    by (rule started_parts[OF out start]) blast
  show ?thesis
    using step
  proof (cases rule: agent_step.cases)
    case (call_step c q x w)
    then show ?thesis using call_kept[OF srv auth d log send call_step(3)] by simp
  next
    case (enrol_step c q x w)
    then show ?thesis using enrol_kept[OF srv auth log enrol_step(3)] by (cases x) (auto simp: counted_def)
  next
    case (tick_step p w)
    have "keeps w_boot (he_notify env t)" for t using out by (simp add: outside_keeps_def)
    then have "w_boot w = w_boot (rs_world s)"
      using log(2) check_kept[OF pr] by (intro tick_kept[OF _ _ _ tick_step(5)]) (auto simp: agent_watchdog_def)
    then show ?thesis using tick_step by simp
  next
    case cancel_step
    then show ?thesis by (simp add: shutdown_def emitLifecycle_def file_audit_kept(1)[OF out])
  qed
qed

lemma run_attempts:
  assumes out: "outside_keeps w_boot env" and start: "hb_start env cfg w0 = Ret (Inr st, w1)"
    and send: "\<And>r. keeps w_boot (sendL r)" "\<And>r. keeps w_boot (sendD r)"
    and run: "agent_run env st sendL sendD s es s'"
    and "bs_attempts (w_boot (rs_world s)) \<le> maxAttempts"
  shows "bs_attempts (w_boot (rs_world s')) = bs_attempts (w_boot (rs_world s)) + length (filter guessed es)
    \<and> bs_attempts (w_boot (rs_world s')) \<le> maxAttempts
    \<and> (maxAttempts \<le> bs_attempts (w_boot (rs_world s)) \<longrightarrow> filter joined es = [])"
  using run assms(6)
proof (induction rule: agent_run.induct)
  case (step_run s e s' es s'')
  note st = step_counts[OF out start send step_run.hyps(1)]
  have le: "bs_attempts (w_boot (rs_world s')) \<le> maxAttempts" using st step_run.prems by (auto split: if_splits)
  show ?case using step_run.IH[OF le] st step_run.prems by auto
qed simp

text \<open>
  C12: however its calls, enrolments, health checks and the signal that ends it are interleaved, a started agent compares at
  most three wrong tokens with the stored hash, and once it has compared three, no enrolment gives a certificate any
  more: nothing but an enrolment reaches the count, whatever clients ask for and whatever the files do. Of what is outside
  the process it is only assumed that it does not change the agent's memory.
\<close>

theorem agent_lockout:
  assumes "hb_start env cfg w0 = Ret (Inr st, w1)" "outside_keeps w_boot env"
    and "\<And>r. keeps w_boot (sendL r)" "\<And>r. keeps w_boot (sendD r)"
    and "agent_run env st sendL sendD (fresh_run w1) (es @ fs) s"
  shows "length (filter guessed (es @ fs)) \<le> 3 \<and> (length (filter guessed es) = 3 \<longrightarrow> filter joined fs = [])"
proof -
  obtain m where m: "agent_run env st sendL sendD (fresh_run w1) es m" "agent_run env st sendL sendD m fs s"
    using assms(5) by (auto simp: agent_run_append)
  have "bs_attempts (w_boot w1) = 0" using started_parts[OF assms(2,1)] by metis
  then have zero: "bs_attempts (w_boot (rs_world (fresh_run w1))) = 0" by (simp add: fresh_run_def)
  note all = run_attempts[OF assms(2,1,3,4,5)] and first = run_attempts[OF assms(2,1,3,4) m(1)]
    and rest = run_attempts[OF assms(2,1,3,4) m(2)]
  show ?thesis using all first rest zero by (auto simp: maxAttempts_def)
qed

section \<open>An example\<close>

lemma test_outside: "outside_keeps w_boot (test_hb key)"
  by (simp add: outside_keeps_def plugins_keep_def bus_keeps_def keeps_def test_hb_def test_plugin_env_def quiet_oidc_env_def)

end
