(* ===== verification/Agent_Live.thy ===== *)
theory Agent_Live
  imports Agent_Run
begin

text \<open>
  That the agent answers: the start never panics, every call to a running agent but the health call returns, whatever it
  asks for and whatever the node does, and a call that returns without an error carries the message of its own method.
\<close>

section \<open>The start\<close>

lemma hb_serve_returns: "returns (hb_serve env cfg tls auth az ps w)"
  by (simp add: hb_serve_def Let_def new_server split: prod.split option.split)

lemma hb_start_returns: "returns (hb_start env cfg w)"
  by (simp add: hb_start_def authn_created authz_created plugins_registered hb_serve_returns
      split: prod.split option.split sum.split)


section \<open>Calls return\<close>

lemma replied_returns [simp]: "returns (replied m) \<longleftrightarrow> returns m"
  by (cases m) (auto simp: replied_def outcome_simps split: prod.splits)

lemma responded_returns [simp]: "returns (responded f m) \<longleftrightarrow> returns m"
  by (cases m) (auto simp: responded_def outcome_simps split: prod.splits)

lemma outcome_returns [simp]: "returns (outcome m) \<longleftrightarrow> returns m"
  by (cases m) (auto simp: outcome_def outcome_simps split: prod.splits)

lemma bind_pair_returns [simp]:
  "returns (go_bind m (\<lambda>(x, w). Ret (f x w))) \<longleftrightarrow> returns m"
  "returns (go_bind n (\<lambda>((x, e), w). Ret (g x e w))) \<longleftrightarrow> returns n"
  by (cases m, auto split: prod.splits) (cases n, auto split: prod.splits)+

text \<open>The functions of the handlers; the others always return.\<close>

lemma functions_return:
  "returns (version_fn env d w)" "returns (getConfig_fn env a w)" "returns (applyConfig_fn env a m w)"
  "returns (upgrade_fn u i w)" "returns (rollback_fn u w)" "returns (reboot_fn u w)" "returns (serviceControlFn sys op q w)"
  "dep_Proc d \<noteq> None \<Longrightarrow> returns (diagnostics_Stats (NewDiagnosticsServer j s (dep_Proc d)) w)"
  "dep_Systemd d \<noteq> None \<Longrightarrow> returns (diagnostics_ServiceStatus (NewDiagnosticsServer j (dep_Systemd d) p) n w)"
  by (auto simp: version_fn_def Let_def getConfig_fn_def applyConfig_fn_def upgrade_fn_def rollback_fn_def reboot_fn_def
      serviceControlFn_def diagnostics_Stats_def diagnostics_ServiceStatus_def NewDiagnosticsServer_def
      split: option.split prod.split sum.split)

lemma stream_returns: "j \<noteq> None \<Longrightarrow> returns (journal_stream t j opts f send w)"
  by (auto simp: journal_stream_def split: option.split prod.split)

lemma file_audit_returns: "returns (emitAudit (Some (file_audit env cfg)) i a res out addr w)"
  by (simp add: emitAudit_def file_audit_def outcome_simps)

lemma execute_returns:
  assumes "d_audit deps = Some (file_audit env cfg)" "\<And>w. returns (u_fn h c p w)"
  shows "returns (Execute h z c deps p w)"
  by (rule unary_handler.exec_returns[OF assms(2)]) (simp only: assms(1) file_audit_returns)

lemma stream_execute_returns:
  assumes "d_audit deps = Some (file_audit env cfg)" "\<And>w. returns (s_fn h c p send w)"
  shows "returns (stream_Execute h c deps p send w)"
  by (rule stream_handler.exec_returns[OF assms(2)]) (simp only: assms(1) file_audit_returns)

lemma serve_returns:
  assumes d: "dep_Proc d \<noteq> None" "dep_Systemd d \<noteq> None" "dep_Journal d \<noteq> None" and q: "q \<noteq> Health"
  shows "returns (serve (machine_server_of env d az (Some (file_audit he cfg))) sendL sendD c q w)"
proof -
  note f = functions_return(8)[OF d(1)] functions_return(9)[OF d(2)] functions_return(1-7)
  have s: "returns (LogsStream (NewDiagnosticsServer (dep_Journal d) x y) l send w)"
    "returns (DmesgStream (NewDiagnosticsServer (dep_Journal d) x y) m send' w)" for x y l m send send' w
    by (simp_all add: LogsStream_def DmesgStream_def NewDiagnosticsServer_def stream_returns d)
  show ?thesis
    using q
    by (cases q)
      (simp_all add: server_simps ServiceControl_def f s execute_returns[of _ he cfg] stream_execute_returns[of _ he cfg]
        bind_pair_returns)
qed

text \<open>Loading the plugin of a dependency provides it, and later plugins do not take it away.\<close>

lemma deps_stay:
  "dep_Systemd d \<noteq> None \<Longrightarrow> dep_Systemd (fold buildDeps ps d) \<noteq> None"
  "dep_Proc d \<noteq> None \<Longrightarrow> dep_Proc (fold buildDeps ps d) \<noteq> None"
  "dep_Journal d \<noteq> None \<Longrightarrow> dep_Journal (fold buildDeps ps d) \<noteq> None"
proof (induction ps arbitrary: d)
  case (Cons p ps)
  { case 1 with Cons show ?case by (cases p) auto }
  { case 2 with Cons show ?case by (cases p) auto }
  { case 3 with Cons show ?case by (cases p) auto }
qed simp_all

lemma deps_loaded:
  assumes "loadPlugins uc ord (map_of (plugin_factories p)) ns = Inr ps"
  shows "''services'' \<in> set ns \<Longrightarrow> dep_Systemd (fold buildDeps ps d) \<noteq> None"
    and "''diagnostics'' \<in> set ns \<Longrightarrow> dep_Proc (fold buildDeps ps d) \<noteq> None \<and> dep_Journal (fold buildDeps ps d) \<noteq> None"
  using assms
proof (induction ns arbitrary: ps d)
  case (Cons n ns)
  { fix ps assume "loadPlugins uc ord (map_of (plugin_factories p)) (n # ns) = Inr ps"
    then have "\<exists>x xs. ps = x # xs \<and> loadPlugins uc ord (map_of (plugin_factories p)) ns = Inr xs
        \<and> (n = ''services'' \<longrightarrow> (\<exists>s. x = Services s)) \<and> (n = ''diagnostics'' \<longrightarrow> (\<exists>s. x = Diagnostics s))"
      by (auto simp: plugin_Create_def plugin_factories_def outcome_simps split: sum.splits option.splits if_splits) }
  note step = this
  { case 1
    from step[OF 1(2)] obtain x xs where x: "ps = x # xs" "loadPlugins uc ord (map_of (plugin_factories p)) ns = Inr xs"
      "n = ''services'' \<longrightarrow> (\<exists>s. x = Services s)" by blast
    show ?case
    proof (cases "n = ''services''")
      case True with x show ?thesis using deps_stay(1)[of "buildDeps (hd ps) d" xs] by auto
    next
      case False with 1 x Cons.IH(1) show ?thesis by auto
    qed }
  { case 2
    from step[OF 2(2)] obtain x xs where x: "ps = x # xs" "loadPlugins uc ord (map_of (plugin_factories p)) ns = Inr xs"
      "n = ''diagnostics'' \<longrightarrow> (\<exists>s. x = Diagnostics s)" by blast
    show ?case
    proof (cases "n = ''diagnostics''")
      case True with x show ?thesis using deps_stay(2,3)[of "buildDeps (hd ps) d" xs] by auto
    next
      case False with 2 x Cons.IH(2) show ?thesis by auto
    qed }
qed simp_all


section \<open>Answers have the type of their request\<close>

text \<open>The message of each method, which must be there: gRPC cannot send a nil one.\<close>

fun answers :: "rpc \<Rightarrow> 'f response \<Rightarrow> bool" where
  "answers Version x \<longleftrightarrow> (case x of VersionResponse r \<Rightarrow> r \<noteq> None | _ \<Rightarrow> False)"
| "answers Health x \<longleftrightarrow> (case x of HealthResponse r \<Rightarrow> r \<noteq> None | _ \<Rightarrow> False)"
| "answers Stats x \<longleftrightarrow> (case x of StatsResponse r \<Rightarrow> r \<noteq> None | _ \<Rightarrow> False)"
| "answers (ServiceStatus n) x \<longleftrightarrow> (case x of StatusResponse r \<Rightarrow> r \<noteq> None | _ \<Rightarrow> False)"
| "answers GetConfig x \<longleftrightarrow> (case x of ConfigResponse r \<Rightarrow> r \<noteq> None | _ \<Rightarrow> False)"
| "answers (ApplyConfig m) x \<longleftrightarrow> (case x of ApplyResponse r \<Rightarrow> r \<noteq> None | _ \<Rightarrow> False)"
| "answers (Upgrade i) x \<longleftrightarrow> (case x of UpgradeResponse r \<Rightarrow> r \<noteq> None | _ \<Rightarrow> False)"
| "answers Rollback x \<longleftrightarrow> (case x of RollbackResponse r \<Rightarrow> r \<noteq> None | _ \<Rightarrow> False)"
| "answers Reboot x \<longleftrightarrow> (case x of RebootResponse r \<Rightarrow> r \<noteq> None | _ \<Rightarrow> False)"
| "answers (Control p) x \<longleftrightarrow> (case x of ControlResponse r \<Rightarrow> r \<noteq> None | _ \<Rightarrow> False)"
| "answers (Logs p) x \<longleftrightarrow> (case x of Streamed \<Rightarrow> True | _ \<Rightarrow> False)"
| "answers (Dmesg p) x \<longleftrightarrow> (case x of Streamed \<Rightarrow> True | _ \<Rightarrow> False)"

definition complete :: "('w \<Rightarrow> (('r option \<times> error option) \<times> 'w) go) \<Rightarrow> bool" where
  "complete f \<longleftrightarrow> (\<forall>w r w'. f w = Ret ((r, None), w') \<longrightarrow> r \<noteq> None)"

lemma replied_complete: "complete (\<lambda>w. replied (m w))"
  by (auto simp: complete_def replied_def outcome_simps) (metis reply_simps old.sum.exhaust prod.inject option.distinct(1))

lemma functions_complete:
  "complete (version_fn env d)" "complete (health_fn d)" "complete (getConfig_fn env a)" "complete (applyConfig_fn env a m)"
  "complete (upgrade_fn u i)" "complete (rollback_fn u)" "complete (reboot_fn u)" "complete (serviceControlFn sys op q)"
  by (auto simp: complete_def version_fn_def Let_def health_fn_def nil_panic_def getConfig_fn_def applyConfig_fn_def replied_def
      reply_def upgrade_fn_def rollback_fn_def reboot_fn_def serviceControlFn_def
      split: option.splits prod.splits sum.splits)

lemma execute_complete:
  assumes "Execute h z c deps p w = Ret ((r, None), w')" "complete (u_fn h c p)"
  shows "r \<noteq> None"
  using unary_handler.success_admitted[OF assms(1)] assms(2) unfolding complete_def by auto

lemma serve_answers:
  assumes "serve (machine_server_of env d az audit) sendL sendD c q w = Ret ((x, None), w')"
  shows "answers q x"
  using assms
  by (cases q)
    (auto simp: server_simps responded_iff ServiceControl_def outcome_simps split: if_splits
      dest!: execute_complete simp: functions_complete replied_complete)

text \<open>
  C8: a call the agent answers without an error carries the message of the method that was called, and the message is there:
  no handler returns a nil response with a nil error, for any server, caller, request and node.
\<close>

theorem answers_well_typed:
  assumes "NewServer env opts = Ret s" "agent_call s sendL sendD c q w = Ret (Inr x, w')"
  shows "answers q x"
proof -
  let ?m = "machine_server_of env (op_Deps opts) (op_Authz opts) (op_Audit opts)"
  have m: "ag_machine s = ?m" using assms(1) by (auto simp: new_server)
  show ?thesis
  proof (cases "streaming q")
    case True
    then have "x = Streamed" using assms(2)
      by (auto simp: agent_call_def Let_def outcome_simps split: option.splits)
    with True show ?thesis by (cases q) simp_all
  next
    case False
    have "\<exists>d v. serve ?m sendL sendD d q v = Ret ((x, None), w')"
      using assms(2) False
      by (auto simp: agent_call_def Let_def unary_chain_def UnaryInterceptor_def m outcome_Inr
          split: option.splits if_splits prod.splits sum.splits)
    then show ?thesis using serve_answers by blast
  qed
qed

section \<open>Examples\<close>

definition test_names :: "string list" where
  "test_names = [''services'', ''diagnostics'']"

lemma test_full_started:
  obtains st w1 where "hb_start (test_hb (Inr (replicate 32 CHR ''k''))) (test_agent_cfg\<lparr>cfg_Plugins := test_names\<rparr>) test_agent_world = Ret (Inr st, w1)"
    "sd_log_open st"
proof -
  let ?k = "Inr (replicate 32 CHR ''k'')"
  obtain ps where ps: "loadPlugins (en_uc (he_api (test_hb ?k))) (he_order (test_hb ?k)) (map_of (plugin_factories (he_plugins (test_hb ?k)))) test_names = Inr ps"
    by (simp add: test_names_def plugin_Create_def plugin_factories_def services_default diagnostics_New_def)
  show thesis
    by (rule test_hb_starts[OF ps]) (rule that, assumption, use test_agent_parts(4) in \<open>simp split: sum.splits\<close>)
qed


theorem answers_well_typed_witness:
  "\<exists>s r. NewServer test_api_env test_options = Ret s
     \<and> agent_call s (\<lambda>r w. (None, w)) (\<lambda>r w. (None, w)) test_cert_ctx Version (test_world test_node)
         = Ret (Inr (VersionResponse (Some r)), test_world test_node)"
proof -
  obtain s x where s: "NewServer test_api_env test_options = Ret s"
    "agent_call s (\<lambda>r w. (None, w)) (\<lambda>r w. (None, w)) test_cert_ctx Version (test_world test_node) = Ret (Inr x, test_world test_node)"
    using test_answered by blast
  from answers_well_typed[OF s] obtain r where "x = VersionResponse (Some r)" by (cases x) auto
  with s show ?thesis by blast
qed

end
