(* ===== verification/Agent_Example.thy ===== *)
theory Agent_Example
  imports Agent_Run
begin

text \<open>
  An agent under attack: it starts on a node that expects the token \<open>T\<close>, a client without a certificate tries three wrong
  tokens, and then the right one is refused. The tries are evaluated, from the start of the agent on.
\<close>

section \<open>The node\<close>

definition token_fs :: fs where
  "token_fs = test_agent_fs\<lparr>fs_files :=
     (''/d/bootstrap-token-hash'', \<lparr>f_data = ''sha256:'' @ hex_encode ''T'' @ [CHR 0x0A], f_time = 0\<rparr>) # fs_files test_agent_fs\<rparr>"

definition token_world :: "unit agent_world" where
  "token_world = test_agent_world\<lparr>w_fs := token_fs\<rparr>"

definition token_hb :: "(unit, nat, nat, nat, string) hb_env" where
  "token_hb = (test_hb (Inr (replicate 32 CHR ''k'')))\<lparr>he_hmac := (\<lambda>k s. [])\<rparr>"

definition token_cfg :: agent_config where
  "token_cfg = test_agent_cfg\<lparr>cfg_Plugins := []\<rparr>"

definition token_world1 :: "unit agent_world" where
  "token_world1 = emitLifecycle token_hb True ''startup'' ''success'' (snd (open_audit token_hb (token_world\<lparr>w_boot := NewManager ''/d''\<rparr>)))"

definition token_server :: "(unit agent_ext, nat) machine_server" where
  "token_server = machine_server_of (he_api token_hb) (no_deps\<lparr>dep_Bootstrap := True\<rparr>) (Some AllowAll) (Some (file_audit token_hb audit_DefaultConfig))"

definition token_try :: "string \<Rightarrow> unit agent_world \<Rightarrow> ((error + bootstrap_response) \<times> unit agent_world) go" where
  "token_try t w = BootstrapAuth (he_api token_hb) token_server test_cert_ctx \<lparr>bq_Token = t, bq_Csr = ''R:x''\<rparr> w"

definition wrong :: "(error + bootstrap_response) \<Rightarrow> bool" where
  "wrong x = (x = Inl (Wrap ''bootstrap'' auth_failure))"

fun tries :: "string list \<Rightarrow> unit agent_world \<Rightarrow> bool list option" where
  "tries [] w = Some []"
| "tries (t # ts) w = (case token_try t w of Panic m \<Rightarrow> None | Ret (x, w) \<Rightarrow> map_option (\<lambda>bs. wrong x # bs) (tries ts w))"

lemma token_facts:
  "pki_Bootstrap test_crypto ''/d'' token_fs = (None, token_fs)"
  "LoadServerTLS (\<lambda>c k. Inr c) (\<lambda>s. True) ''/d'' token_fs =
     (Inr \<lparr>tls_cert = ''S'', tls_client_cas = ''C:ca'', tls_require_client = True, tls_min_13 = True\<rparr>, token_fs)"
  "(case fst (NewFileLogger Some (Inr (replicate 32 CHR ''k'')) audit_DefaultConfig token_fs) of Inl e \<Rightarrow> False | Inr l \<Rightarrow> fl_cfg l = audit_DefaultConfig)"
  "Enabled (NewManager ''/d'') (w_fs token_world1) = (True, w_fs token_world1)"
  by code_simp+

lemma token_tries: "tries [''bad'', ''worse'', ''bad'', ''T''] token_world1 = Some [True, True, True, False]"
  by code_simp

section \<open>The run\<close>

definition token_status :: "(unit, nat) started" where
  "token_status =
     \<lparr>sd_server = \<lparr>ag_tls = \<lparr>tls_cert = ''S'', tls_client_cas = ''C:ca'', tls_require_client = False, tls_min_13 = True\<rparr>,
        ag_auth = Some test_mtls, ag_skip = (\<lambda>m. m = bootstrap_method), ag_machine = token_server\<rparr>,
      sd_probes = [], sd_audit = file_audit token_hb audit_DefaultConfig, sd_log_open = True,
      sd_interval = cfg_HealthInterval token_cfg\<rparr>"

lemma token_started: "hb_start token_hb token_cfg token_world = Ret (Inr token_status, token_world1)"
proof -
  let ?e = token_hb and ?c = token_cfg and ?w = token_world and ?k = "replicate 32 CHR ''k''"
  let ?tls = "\<lparr>tls_cert = ''S'', tls_client_cas = ''C:ca'', tls_require_client = True, tls_min_13 = True\<rparr>"
  have api: "en_crypto (he_api ?e) v = test_crypto" "he_key_pair ?e = (\<lambda>c k. Inr c)" "he_is_pool ?e = (\<lambda>s. True)"
    "he_listen ?e a v = (None, v)" "he_canon ?e = Some" "he_rand_key ?e v = Inr ?k" "w_fs ?w = token_fs" "he_notify ?e t v = (None, v)"
    "he_stamp ?e v = ((''t'', ''bytes'', 0), v)" for a v t by (simp_all add: token_hb_def test_hb_def token_world_def)
  have cfg: "cfg_TLSDir ?c = ''/d''" "cfg_AuthMethod ?c = ''mtls''" "cfg_AuthConfig ?c = []"
    "cfg_AuthzMethod ?c = ''allow-all''" "cfg_AuthzConfig ?c = []" "cfg_Plugins ?c = []"
    by (simp_all add: token_cfg_def test_agent_cfg_fields)
  have fs: "on_fs (pki_Bootstrap test_crypto ''/d'') ?w = (None, ?w)"
    "on_fs (LoadServerTLS (\<lambda>c k. Inr c) (\<lambda>s. True) ''/d'') ?w = (Inr ?tls, ?w)"
    by (simp_all add: on_fs_def api token_facts)
  have auth: "createAuthenticator ?e ?c v = Ret (Inr test_mtls, v)" for v
    by (simp add: authn_created authn_factories_def cfg pure_factory_def mtls_new_def test_mtls_def)
  have az: "createAuthorizer ?e ?c v = Ret (Inr AllowAll, v)" for v
    by (simp add: authz_created authz_factories_def cfg pure_factory_def NewAllowAll_def)
  have start: "hb_start ?e ?c ?w = hb_serve ?e ?c ?tls test_mtls AllowAll [] ?w"
    by (simp add: hb_start_def api fs auth az plugins_registered cfg)
  have calm: "calm (w_fs ?w)" by (simp add: token_world_def token_fs_def test_agent_fs_def calm_def)
  have same: "log_fingerprints ?e ''/d'' (?w\<lparr>w_boot := b\<rparr>) = ?w\<lparr>w_boot := b\<rparr>" for b
    by (simp add: log_fingerprints_def Let_def CAFingerprint_def ServerFingerprint_def calm_fingerprint calm)
  obtain l s where "NewFileLogger Some (Inr ?k) audit_DefaultConfig token_fs = (Inr l, s)" "fl_cfg l = audit_DefaultConfig"
    using token_facts(3) by (cases "NewFileLogger Some (Inr ?k) audit_DefaultConfig token_fs") (auto split: sum.splits)
  then obtain v where log: "open_audit ?e (?w\<lparr>w_boot := NewManager ''/d''\<rparr>) = ((file_audit ?e audit_DefaultConfig, True), v)"
    by (simp add: open_audit_def on_fs_def api)
  have world1: "emitLifecycle ?e True ''startup'' ''success'' v = token_world1" by (simp add: token_world1_def log)
  have boot: "w_boot v = NewManager ''/d''"
    using log by (auto simp: open_audit_def on_fs_def split: prod.splits sum.splits)
  have enabled: "on_fs (Enabled (NewManager ''/d'')) token_world1 = (True, token_world1)"
    by (simp add: on_fs_def token_facts(4))
  show ?thesis
    unfolding start hb_serve_def Let_def cfg same log
    by (simp add: boot world1 enabled new_server Listen_def api token_status_def token_server_def)
qed

lemma token_enrol: "agent_enrol (he_api token_hb) (sd_server token_status) test_cert_ctx \<lparr>bq_Token = t, bq_Csr = ''R:x''\<rparr> w = token_try t w"
  by (simp add: agent_enrol_def unary_chain_def UnaryInterceptor_def token_status_def token_try_def)

lemma token_run:
  assumes "tries ts (rs_world s) = Some bs"
  shows "\<exists>es s'. agent_run token_hb token_status sendL sendD s es s' \<and> map guessed es = bs \<and> length es = length ts"
  using assms
proof (induction ts arbitrary: s bs)
  case (Cons t ts)
  obtain x w cs where t: "token_try t (rs_world s) = Ret (x, w)" "tries ts w = Some cs" "bs = wrong x # cs"
    using Cons.prems by (auto split: go.splits)
  let ?q = "\<lparr>bq_Token = t, bq_Csr = ''R:x''\<rparr>"
  obtain es s' where es: "agent_run token_hb token_status sendL sendD (s\<lparr>rs_world := w\<rparr>) es s'" "map guessed es = cs" "length es = length ts"
    using Cons.IH[of "s\<lparr>rs_world := w\<rparr>" cs] t by auto
  have "agent_step token_hb token_status sendL sendD s (EnrolIn test_cert_ctx ?q, EnrolAnswered x) (s\<lparr>rs_world := w\<rparr>)"
    by (rule enrol_step) (simp add: token_enrol t)
  then have "agent_run token_hb token_status sendL sendD s ((EnrolIn test_cert_ctx ?q, EnrolAnswered x) # es) s'"
    by (rule step_run[OF _ es(1)])
  moreover have "guessed (EnrolIn test_cert_ctx ?q, EnrolAnswered x) \<longleftrightarrow> wrong x" by (cases x) (simp_all add: wrong_def)
  ultimately show ?case using es t(3) by (intro exI[of _ "(EnrolIn test_cert_ctx ?q, EnrolAnswered x) # es"]) auto
qed (auto intro: done_run)

lemma token_outside: "outside_keeps w_boot token_hb"
  using test_outside[of "Inr (replicate 32 CHR ''k'')"] by (simp add: token_hb_def outside_keeps_def)

text \<open>Three guesses and the right token, in vain.\<close>

theorem agent_lockout_witness:
  "\<exists>es e s. agent_run token_hb token_status (\<lambda>r w. (None, w)) (\<lambda>r w. (None, w)) (fresh_run token_world1) (es @ [e]) s
     \<and> map guessed es = [True, True, True] \<and> \<not> joined e"
proof -
  let ?send = "\<lambda>r w. (None, w)"
  obtain es s where run: "agent_run token_hb token_status ?send ?send (fresh_run token_world1) es s"
    and g: "map guessed es = [True, True, True, False]" "length es = 4"
    using token_run[of "[''bad'', ''worse'', ''bad'', ''T'']" "fresh_run token_world1"] token_tries by (fastforce simp: fresh_run_def)
  obtain fs e where es: "es = fs @ [e]" using g(2) by (cases es rule: rev_cases) simp_all
  have fs: "map guessed fs = [True, True, True]" using g(1) by (simp add: es)
  then have three: "length (filter guessed fs) = 3" by (auto simp: map_eq_Cons_conv)
  have send: "keeps w_boot (?send r)" for r :: 'q by (simp add: keeps_def)
  have "filter joined [e] = []"
    using agent_lockout[OF token_started token_outside send send run[unfolded es]] three by blast
  then have "\<not> joined e" by (simp split: if_splits)
  with run[unfolded es] fs show ?thesis by (intro exI conjI)
qed

end
