(* ===== verification/Go_Flags.thy ===== *)
theory Go_Flags
  imports Go_Strings
begin

text \<open>
  What the command line uses of Go's \<open>flag\<close> and \<open>strconv\<close> packages: integer literals with a base prefix and
  underscores, boolean literals, and \<open>FlagSet.Parse\<close> with \<open>flag.ExitOnError\<close>, which ends the process with status 2 on
  a bad flag and with status 0 when help is asked for. The usage texts the package writes are left out.
\<close>

section \<open>Literals\<close>

definition ParseBool :: "string \<Rightarrow> bool option" where
  "ParseBool s =
     (if s \<in> {''1'', ''t'', ''T'', ''TRUE'', ''true'', ''True''} then Some True
      else if s \<in> {''0'', ''f'', ''F'', ''FALSE'', ''false'', ''False''} then Some False
      else None)"

text \<open>The value of a digit or a letter, which \<open>ParseUint\<close> compares with the base.\<close>

definition digit_value :: "char \<Rightarrow> nat option" where
  "digit_value c =
     (let b = byte c in
      if 48 \<le> b \<and> b \<le> 57 then Some (b - 48)
      else if 97 \<le> b \<and> b \<le> 122 then Some (b - 87)
      else if 65 \<le> b \<and> b \<le> 90 then Some (b - 55)
      else None)"

fun digits_in :: "nat \<Rightarrow> nat \<Rightarrow> string \<Rightarrow> nat option" where
  "digits_in base n [] = Some n"
| "digits_in base n (c # s) =
     (if c = CHR ''_'' then digits_in base n s
      else (case digit_value c of
              None \<Rightarrow> None
            | Some d \<Rightarrow> if d < base then digits_in base (n * base + d) s else None))"

text \<open>The base prefix: \<open>0b\<close>, \<open>0o\<close> and \<open>0x\<close> need a third character, any other leading zero means octal.\<close>

definition base_of :: "string \<Rightarrow> nat \<times> string" where
  "base_of s =
     (if \<not> has_prefix s ''0'' then (10, s)
      else if 3 \<le> length s \<and> lower_char (s ! 1) = CHR ''b'' then (2, drop 2 s)
      else if 3 \<le> length s \<and> lower_char (s ! 1) = CHR ''o'' then (8, drop 2 s)
      else if 3 \<le> length s \<and> lower_char (s ! 1) = CHR ''x'' then (16, drop 2 s)
      else (8, drop 1 s))"

text \<open>\<open>underscoreOK\<close>: underscores only between digits, a base prefix counting as a digit.\<close>

datatype last_seen = SawStart | SawDigit | SawUnderscore | SawOther

fun underscores_from :: "bool \<Rightarrow> last_seen \<Rightarrow> string \<Rightarrow> bool" where
  "underscores_from hex saw [] \<longleftrightarrow> saw \<noteq> SawUnderscore"
| "underscores_from hex saw (c # s) =
     (if is_digit c \<or> hex \<and> lower_char c \<in> set ''abcdef'' then underscores_from hex SawDigit s
      else if c = CHR ''_'' then saw = SawDigit \<and> underscores_from hex SawUnderscore s
      else saw \<noteq> SawUnderscore \<and> underscores_from hex SawOther s)"

definition underscoreOK :: "string \<Rightarrow> bool" where
  "underscoreOK s0 =
     (let s = (if has_prefix s0 ''-'' \<or> has_prefix s0 ''+'' then tl s0 else s0) in
      if 2 \<le> length s \<and> s ! 0 = CHR ''0'' \<and> lower_char (s ! 1) \<in> set ''box''
      then underscores_from (lower_char (s ! 1) = CHR ''x'') SawDigit (drop 2 s)
      else underscores_from False SawStart s)"

text \<open>\<open>ParseUint(s, 0, 64)\<close> and \<open>ParseInt(s, 0, 64)\<close>, \<open>None\<close> for a syntax or range error.\<close>

definition ParseUint0 :: "string \<Rightarrow> nat option" where
  "ParseUint0 s =
     (if s = [] then None
      else (case base_of s of
        (base, ds) \<Rightarrow>
          (case digits_in base 0 ds of
             None \<Rightarrow> None
           | Some n \<Rightarrow>
               if CHR ''_'' \<in> set ds \<and> \<not> underscoreOK s then None
               else if n < 2 ^ 64 then Some n else None)))"

definition ParseInt0 :: "string \<Rightarrow> int option" where
  "ParseInt0 s =
     (let neg = has_prefix s ''-''; u = (if neg \<or> has_prefix s ''+'' then tl s else s) in
      (case ParseUint0 u of
         None \<Rightarrow> None
       | Some n \<Rightarrow>
           if \<not> neg \<and> 2 ^ 63 \<le> n then None else if neg \<and> 2 ^ 63 < n then None
           else Some (if neg then - int n else int n)))"

section \<open>Flags\<close>

datatype flag_value = FStr string | FBool bool | FInt int

type_synonym flags = "(string \<times> flag_value) list"

datatype flag_outcome = Parsed flags "string list" | FlagExit nat

fun flag_Set :: "flag_value \<Rightarrow> string \<Rightarrow> flag_value option" where
  "flag_Set (FStr _) x = Some (FStr x)"
| "flag_Set (FBool _) x = map_option FBool (ParseBool x)"
| "flag_Set (FInt _) x = map_option FInt (ParseInt0 x)"

fun is_bool_flag :: "flag_value \<Rightarrow> bool" where
  "is_bool_flag (FBool _) = True"
| "is_bool_flag _ = False"

definition set_flag :: "string \<Rightarrow> flag_value \<Rightarrow> flags \<Rightarrow> flags" where
  "set_flag n v = map (\<lambda>(k, w). (k, if k = n then v else w))"

text \<open>A flag's name and the value behind its first equals sign, which cannot be its first character.\<close>

definition split_flag :: "string \<Rightarrow> string \<times> string option" where
  "split_flag s =
     (let n = take 1 s @ takeWhile (\<lambda>c. c \<noteq> CHR ''='') (drop 1 s) in
      (n, if length n < length s then Some (drop (Suc (length n)) s) else None))"

text \<open>\<open>parseOne\<close>: the flag at the front is set, or parsing ends.\<close>

datatype flag_step = SetFlag flags "string list" | StopFlags flag_outcome

definition parseOne :: "flags \<Rightarrow> string list \<Rightarrow> flag_step" where
  "parseOne fl args =
     (case args of
        [] \<Rightarrow> StopFlags (Parsed fl [])
      | s # args' \<Rightarrow>
          if length s < 2 \<or> \<not> has_prefix s ''-'' then StopFlags (Parsed fl args)
          else if s = ''--'' then StopFlags (Parsed fl args')
          else
            let body = drop (if has_prefix s ''--'' then 2 else 1) s in
            if has_prefix body ''-'' \<or> has_prefix body ''='' then StopFlags (FlagExit 2)
            else
              let (n, val) = split_flag body;
                  set_to = (\<lambda>old v rest. (case flag_Set old v of
                              None \<Rightarrow> StopFlags (FlagExit 2) | Some new \<Rightarrow> SetFlag (set_flag n new fl) rest)) in
              (case map_of fl n of
                 None \<Rightarrow> StopFlags (FlagExit (if n = ''help'' \<or> n = ''h'' then 0 else 2))
               | Some old \<Rightarrow>
                   if is_bool_flag old then set_to old (case val of None \<Rightarrow> ''true'' | Some v \<Rightarrow> v) args'
                   else
                     (case (val, args') of
                        (Some v, _) \<Rightarrow> set_to old v args'
                      | (None, v # rest) \<Rightarrow> set_to old v rest
                      | (None, []) \<Rightarrow> StopFlags (FlagExit 2))))"

lemma parseOne_SetFlag:
  assumes "parseOne fl args = SetFlag fl' rest"
  obtains n old new used where "map_of fl n = Some old" "\<exists>v. flag_Set old v = Some new" "fl' = set_flag n new fl"
    "args = used @ rest" "used \<noteq> []"
proof -
  obtain s args' where args: "args = s # args'" using assms by (cases args) (simp_all add: parseOne_def)
  define body where "body = drop (if has_prefix s ''--'' then 2 else 1) s"
  obtain n val where sp: "split_flag body = (n, val)" by fastforce
  have "(\<exists>old v new. map_of fl n = Some old \<and> flag_Set old v = Some new \<and> fl' = set_flag n new fl)
      \<and> (rest = args' \<or> (\<exists>v. args' = v # rest))"
    using assms unfolding parseOne_def args body_def[symmetric] Let_def list.case sp prod.case
    by (auto simp del: flag_Set.simps split: if_splits option.splits list.splits)
  then obtain old new where "map_of fl n = Some old" "\<exists>v. flag_Set old v = Some new" "fl' = set_flag n new fl"
    and r: "rest = args' \<or> (\<exists>v. args' = v # rest)" by blast
  note that = that[OF this(1-3)]
  from r show thesis
  proof
    assume "rest = args'"
    then show thesis by (intro that[of "[s]"]) (simp_all add: args)
  next
    assume "\<exists>v. args' = v # rest"
    then obtain x where "args' = x # rest" ..
    then show thesis by (intro that[of "[s, x]"]) (simp_all add: args)
  qed
qed

function flag_parse :: "flags \<Rightarrow> string list \<Rightarrow> flag_outcome" where
  "flag_parse fl args =
     (case parseOne fl args of StopFlags r \<Rightarrow> r | SetFlag fl' rest \<Rightarrow> flag_parse fl' rest)"
  by pat_completeness auto
termination
  by (relation "measure (length \<circ> snd)") (auto elim: parseOne_SetFlag)

declare flag_parse.simps [simp del]

text \<open>The values the code reads behind the pointers \<open>String\<close>, \<open>Bool\<close> and \<open>Int\<close> returned.\<close>

definition str_flag :: "flags \<Rightarrow> string \<Rightarrow> string" where
  "str_flag fl n = (case map_of fl n of Some (FStr s) \<Rightarrow> s | _ \<Rightarrow> [])"

definition bool_flag :: "flags \<Rightarrow> string \<Rightarrow> bool" where
  "bool_flag fl n = (case map_of fl n of Some (FBool b) \<Rightarrow> b | _ \<Rightarrow> False)"

definition int_flag :: "flags \<Rightarrow> string \<Rightarrow> int" where
  "int_flag fl n = (case map_of fl n of Some (FInt i) \<Rightarrow> i | _ \<Rightarrow> 0)"

section \<open>Facts\<close>

lemma names_set_flag [simp]: "map fst (set_flag n v fl) = map fst fl"
  by (auto simp: set_flag_def)

lemma map_of_set_flag: "map_of (set_flag n v fl) m = (if m = n then map_option (\<lambda>_. v) (map_of fl n) else map_of fl m)"
  by (induction fl) (auto simp: set_flag_def)

text \<open>The flags keep their names and kinds.\<close>

fun same_kind :: "flag_value \<Rightarrow> flag_value \<Rightarrow> bool" where
  "same_kind (FStr _) (FStr _) = True"
| "same_kind (FBool _) (FBool _) = True"
| "same_kind (FInt _) (FInt _) = True"
| "same_kind _ _ = False"

lemma same_kind_refl [simp]: "same_kind v v"
  by (cases v) simp_all

lemma same_kind_trans: "same_kind u v \<Longrightarrow> same_kind v w \<Longrightarrow> same_kind u w"
  by (cases u; cases v; cases w) simp_all

lemma flag_Set_kind: "flag_Set old x = Some new \<Longrightarrow> same_kind old new"
  by (cases old) auto

definition same_flags :: "flags \<Rightarrow> flags \<Rightarrow> bool" where
  "same_flags f g \<longleftrightarrow> map fst f = map fst g \<and> (\<forall>n. rel_option same_kind (map_of f n) (map_of g n))"

lemma same_flags_refl [simp]: "same_flags f f"
  by (auto simp: same_flags_def intro: option.rel_refl)

lemma same_flags_trans: "same_flags f g \<Longrightarrow> same_flags g h \<Longrightarrow> same_flags f h"
proof -
  assume a: "same_flags f g" "same_flags g h"
  have "rel_option same_kind (map_of f n) (map_of h n)" for n
  proof -
    from a have "rel_option same_kind (map_of f n) (map_of g n)" "rel_option same_kind (map_of g n) (map_of h n)"
      by (simp_all add: same_flags_def)
    then show ?thesis
      by (cases "map_of f n"; cases "map_of g n"; cases "map_of h n") (auto intro: same_kind_trans)
  qed
  with a show ?thesis by (simp add: same_flags_def)
qed

lemma same_flags_set: "map_of f n = Some old \<Longrightarrow> same_kind old new \<Longrightarrow> same_flags f (set_flag n new f)"
  by (auto simp: same_flags_def map_of_set_flag intro: option.rel_refl)

lemma parseOne_stop: "parseOne fl args = StopFlags (Parsed fl' rest) \<Longrightarrow> fl' = fl \<and> (\<exists>used. args = used @ rest)"
  by (cases args) (auto simp: parseOne_def Let_def simp del: flag_Set.simps split: if_splits prod.splits option.splits list.splits)

text \<open>Parsing keeps the flags and their kinds, and what is left behind them is the end of the arguments.\<close>

lemma flag_parse_Parsed: "flag_parse fl args = Parsed fl' rest \<Longrightarrow> same_flags fl fl' \<and> (\<exists>used. args = used @ rest)"
proof (induction fl args rule: flag_parse.induct)
  case (1 fl args)
  show ?case
  proof (cases "parseOne fl args")
    case (StopFlags r)
    with 1(2) show ?thesis by (auto simp: flag_parse.simps[of fl] dest: parseOne_stop)
  next
    case (SetFlag g args')
    then obtain n old new used where f: "map_of fl n = Some old" "\<exists>v. flag_Set old v = Some new" "g = set_flag n new fl"
      "args = used @ args'"
      by (rule parseOne_SetFlag)
    then have "same_flags fl g" using flag_Set_kind same_flags_set by blast
    moreover from 1 SetFlag have "same_flags g fl' \<and> (\<exists>used. args' = used @ rest)" by (simp add: flag_parse.simps[of fl])
    ultimately show ?thesis using f(4) same_flags_trans by auto
  qed
qed

text \<open>Decimal literals are read as they are written.\<close>

lemma digit_value_digit: "is_digit c \<Longrightarrow> digit_value c = Some (byte c - 48) \<and> byte c - 48 < 10 \<and> c \<noteq> CHR ''_''"
  by (auto simp: digit_value_def is_digit_def byte_def)

lemma digits_in_decimal: "\<forall>c\<in>set s. is_digit c \<Longrightarrow> digits_in 10 n s = Some (digits_val n s)"
  by (induction s arbitrary: n) (auto simp: digit_value_digit)

lemma show_nat_head: "0 < n \<Longrightarrow> \<not> has_prefix (show_nat n) ''0''"
proof (induction n rule: show_nat.induct)
  case (1 n)
  show ?case
  proof (cases "n < 10")
    case True
    with "1.prems" have "byte (char_of (48 + n)) \<noteq> byte CHR ''0''" by (simp add: byte_char_of) (simp add: byte_def)
    then have "char_of (48 + n) \<noteq> CHR ''0''" by (rule contrapos_nn) (rule arg_cong)
    with True show ?thesis by (subst show_nat.simps) (simp add: has_prefix_def)
  next
    case False
    then have "\<not> has_prefix (show_nat (n div 10)) ''0''" using "1.IH" by simp
    then have "\<not> has_prefix (show_nat (n div 10) @ x) ''0''" for x
      by (cases "show_nat (n div 10)") (auto simp: has_prefix_def)
    with False show ?thesis by (subst show_nat.simps) simp
  qed
qed

lemma ParseInt0_decimal:
  assumes "n < 2 ^ 63"
  shows "ParseInt0 (show_nat n) = Some (int n)"
proof -
  have digits: "\<forall>c\<in>set (show_nat n). is_digit c" using show_nat_digits by blast
  then have no: "CHR ''_'' \<notin> set (show_nat n)" "\<not> has_prefix (show_nat n) ''-''" "\<not> has_prefix (show_nat n) ''+''"
    by (auto simp: has_prefix_def is_digit_def byte_def prefix_def)
  show ?thesis
  proof (cases "n = 0")
    case True
    have "show_nat 0 = ''0''" by code_simp
    then show ?thesis by (simp add: True ParseInt0_def ParseUint0_def base_of_def has_prefix_def)
  next
    case False
    then have "base_of (show_nat n) = (10, show_nat n)" by (simp add: base_of_def show_nat_head)
    then show ?thesis
      using assms no digits by (simp add: ParseInt0_def ParseUint0_def digits_in_decimal digits_val_show)
  qed
qed

end
