(* ===== verification/Output.thy ===== *)
theory Output
  imports Json "HOL-Library.Word"
begin

text \<open>
  Package \<open>internal/output\<close> and what the commands use of the standard library to print: sizes in binary units, a value
  as indented JSON, and tables of \<open>text/tabwriter\<close>. \<open>HumanBytes\<close> goes through \<open>float64\<close>: the conversion of an
  integer rounds to 53 bits, the division by a power of two is exact, and the verb \<open>%.1f\<close> rounds the exact quotient to
  tenths, both to the nearest and at a tie to the even one. The lemmas read the printed values back.
\<close>

section \<open>Sizes\<close>

definition round_even :: "nat \<Rightarrow> nat \<Rightarrow> nat" where
  "round_even a b = (let q = a div b; r = a mod b in if 2 * r < b \<or> 2 * r = b \<and> even q then q else Suc q)"

fun bit_count :: "nat \<Rightarrow> nat" where
  "bit_count n = (if n = 0 then 0 else Suc (bit_count (n div 2)))"

declare bit_count.simps [simp del]

definition float64_of :: "nat \<Rightarrow> nat" where
  "float64_of n = (let k = bit_count n - 53 in round_even n (2 ^ k) * 2 ^ k)"

text \<open>\<open>fmt.Sprintf("%.1f \<dots>", float64(b)/float64(u))\<close> for a power of two \<open>u\<close>.\<close>

definition size_tenths :: "nat \<Rightarrow> nat \<Rightarrow> nat" where
  "size_tenths b u = round_even (10 * float64_of b) u"

definition show_tenths :: "nat \<Rightarrow> string" where
  "show_tenths t = show_nat (t div 10) @ ''.'' @ show_nat (t mod 10)"

definition HumanBytes :: "64 word \<Rightarrow> string" where
  "HumanBytes w =
     (let b = unat w in
      if 2 ^ 30 \<le> b then show_tenths (size_tenths b (2 ^ 30)) @ '' GiB''
      else if 2 ^ 20 \<le> b then show_tenths (size_tenths b (2 ^ 20)) @ '' MiB''
      else if 2 ^ 10 \<le> b then show_tenths (size_tenths b (2 ^ 10)) @ '' KiB''
      else show_nat b @ '' B'')"

section \<open>Indented JSON\<close>

definition json_newline :: "nat \<Rightarrow> string" where
  "json_newline n = CHR 0x0A # replicate (2 * n) CHR 0x20"

fun json_indent :: "nat \<Rightarrow> json \<Rightarrow> string" where
  "json_indent n JNull = ''null''"
| "json_indent n (JBool b) = (if b then ''true'' else ''false'')"
| "json_indent n (JNum s) = s"
| "json_indent n (JStr s) = json_quote s"
| "json_indent n (JArr vs) =
     (if vs = [] then ''[]''
      else ''['' @ json_newline (Suc n) @ join_with ('','' @ json_newline (Suc n)) (map (json_indent (Suc n)) vs)
        @ json_newline n @ '']'')"
| "json_indent n (JObj ms) =
     (if ms = [] then ''{}''
      else ''{'' @ json_newline (Suc n)
        @ join_with ('','' @ json_newline (Suc n)) (map (\<lambda>(k, v). json_quote k @ '': '' @ json_indent (Suc n) v) ms)
        @ json_newline n @ ''}'')"

text \<open>\<open>JSON\<close>: the value as text, which ends in the newline of \<open>fmt.Println\<close>.\<close>

definition output_JSON :: "error + json \<Rightarrow> error + string" where
  "output_JSON v = res_bind v (\<lambda>j. Inr (json_indent 0 j @ [CHR 0x0A]))"

section \<open>Tables\<close>

text \<open>
  \<open>tabwriter.NewWriter(w, 0, 0, 2, ' ', 0)\<close>: the cells of a column are padded to the widest of the consecutive lines
  that have a cell in it, plus two; the last cell of a line belongs to no column. A form feed ends all columns. The
  texts printed are valid UTF-8, so the byte that starts an escape does not occur.
\<close>

function rune_count :: "string \<Rightarrow> nat" where
  "rune_count [] = 0"
| "rune_count (c # s) = Suc (rune_count (drop (snd (decode_rune (c # s)) - 1) s))"
  by pat_completeness auto
termination
  by (relation "measure length") auto

definition pad_cell :: "string \<Rightarrow> nat \<Rightarrow> string" where
  "pad_cell c w = c @ replicate (w - rune_count c) CHR 0x20"

fun write_line :: "nat list \<Rightarrow> string list \<Rightarrow> string" where
  "write_line ws [] = []"
| "write_line [] (c # cs) = c @ write_line [] cs"
| "write_line (w # ws) (c # cs) = pad_cell c w @ write_line ws cs"

definition column_width :: "nat \<Rightarrow> string list list \<Rightarrow> nat" where
  "column_width k ls = foldr (\<lambda>l m. max (rune_count (l ! k) + 2) m) ls 0"

function tab_format :: "nat list \<Rightarrow> string list list \<Rightarrow> string list" where
  "tab_format ws [] = []"
| "tab_format ws (l # ls) =
     (let has = (\<lambda>l. length ws + 1 < length l) in
      if has l then
        (let block = l # takeWhile has ls in
         tab_format (ws @ [column_width (length ws) block]) block @ tab_format ws (dropWhile has ls))
      else write_line ws l # tab_format ws ls)"
  by pat_completeness auto
termination
proof (relation "measures [\<lambda>(ws, ls). (\<Sum>l\<leftarrow>ls. length l + 1 - length ws), \<lambda>(ws, ls). length ls]", goal_cases)
  case (2 ws l ls h b)
  have "(\<Sum>l\<leftarrow>takeWhile h ls. length l - length ws) \<le> (\<Sum>l\<leftarrow>ls. length l + 1 - length ws)"
    by (induction ls) auto
  with 2 show ?case by simp linarith
next
  case (3 ws l ls h b)
  have "(\<Sum>l\<leftarrow>dropWhile h ls. length l + 1 - length ws) \<le> (\<Sum>l\<leftarrow>ls. length l + 1 - length ws)"
    by (induction ls) auto
  with 3 show ?case by simp linarith
qed auto

definition tab_lines :: "string \<Rightarrow> string list list" where
  "tab_lines s = map (split_on CHR 0x09) (split_on CHR 0x0A (map (\<lambda>c. if c = CHR 0x0B then CHR 0x09 else c) s))"

definition tab_flush :: "string \<Rightarrow> string" where
  "tab_flush s = join_with [CHR 0x0A] (map (\<lambda>part. join_with [CHR 0x0A] (tab_format [] (tab_lines part))) (split_on CHR 0x0C s))"


section \<open>Facts on sizes\<close>

lemma round_even_error:
  assumes "0 < b"
  shows "2 * (round_even a b * b) \<le> 2 * a + b" "2 * a \<le> 2 * (round_even a b * b) + b"
proof -
  have e: "a = a div b * b + a mod b" "a mod b < b" using assms by simp_all
  have r: "round_even a b * b = (if 2 * (a mod b) < b \<or> 2 * (a mod b) = b \<and> even (a div b) then a div b * b else a div b * b + b)"
    by (simp add: round_even_def Let_def)
  show "2 * (round_even a b * b) \<le> 2 * a + b" "2 * a \<le> 2 * (round_even a b * b) + b"
    unfolding r using e by (auto split: if_splits; linarith)+
qed

lemma round_even_mono_ge: "0 < b \<Longrightarrow> k * b \<le> a \<Longrightarrow> k \<le> round_even a b"
proof -
  assume "0 < b" "k * b \<le> a"
  then have "k \<le> a div b" by (simp add: less_eq_div_iff_mult_less_eq)
  then show ?thesis by (auto simp: round_even_def Let_def)
qed

lemma round_even_one [simp]: "round_even a 1 = a" "round_even a (Suc 0) = a"
  by (simp_all add: round_even_def)

lemma bit_count_le: "n < 2 ^ k \<Longrightarrow> bit_count n \<le> k"
proof (induction n arbitrary: k rule: bit_count.induct)
  case (1 n)
  show ?case
  proof (cases "n = 0")
    case True
    then show ?thesis by (simp add: bit_count.simps)
  next
    case False
    with "1.prems" obtain m where k: "k = Suc m" by (cases k) auto
    with "1.prems" have "n div 2 < 2 ^ m" by simp
    with 1 False k show ?thesis by (simp add: bit_count.simps[of n])
  qed
qed

text \<open>Below \<open>2^53\<close> the conversion is exact, and for 64 bits it is off by at most \<open>2^10\<close>.\<close>

lemma float64_of_exact: "n < 2 ^ 53 \<Longrightarrow> float64_of n = n"
  using bit_count_le[of n 53] by (simp add: float64_of_def)

lemma float64_of_error:
  assumes "n < 2 ^ 64"
  shows "float64_of n \<le> n + 1024" "n \<le> float64_of n + 1024"
proof -
  have "bit_count n - 53 \<le> 11" using bit_count_le[OF assms] by simp
  then have "(2::nat) ^ (bit_count n - 53) \<le> 2 ^ 11" by (rule power_increasing) simp
  with round_even_error[of "2 ^ (bit_count n - 53)" n]
  show "float64_of n \<le> n + 1024" "n \<le> float64_of n + 1024"
    by (simp_all add: float64_of_def Let_def)
qed

definition slack :: "nat \<Rightarrow> nat" where
  "slack n = (if n < 2 ^ 53 then 0 else 1024)"

lemma float64_of_near: "n < 2 ^ 64 \<Longrightarrow> float64_of n \<le> n + slack n \<and> n \<le> float64_of n + slack n"
  using float64_of_exact[of n] float64_of_error[of n] by (simp add: slack_def)

lemma size_tenths_near:
  assumes "n < 2 ^ 64" "0 < u"
  shows "2 * (size_tenths n u * u) \<le> 2 * (10 * n) + u + 20 * slack n"
    and "2 * (10 * n) \<le> 2 * (size_tenths n u * u) + u + 20 * slack n"
  using round_even_error[OF assms(2), of "10 * float64_of n"] float64_of_near[OF assms(1)]
  by (simp_all add: size_tenths_def)

text \<open>The number and the unit a printed size stands for.\<close>

definition size_units :: "(string \<times> nat) list" where
  "size_units = [(''GiB'', 2 ^ 30), (''MiB'', 2 ^ 20), (''KiB'', 2 ^ 10)]"

lemma size_tenths_ten:
  assumes "n < 2 ^ 64" "u \<le> n" "0 < u" "u \<le> 2 ^ 30"
  shows "10 \<le> size_tenths n u"
proof -
  have "u \<le> float64_of n"
    using float64_of_near[OF assms(1)] assms by (auto simp: slack_def split: if_splits)
  then show ?thesis using round_even_mono_ge[OF assms(3), of 10] by (simp add: size_tenths_def)
qed

text \<open>
  C39: the size \<open>HumanBytes\<close> prints is the number of bytes to the nearest tenth of the largest of the four units that
  is not greater than it, and exact in bytes; from \<open>2^53\<close> on, the conversion to a float adds an error of at most
  1024 bytes.
\<close>

theorem human_bytes_accurate:
  "if unat w < 2 ^ 10 then HumanBytes w = show_nat (unat w) @ '' B''
   else \<exists>s u t. (s, u) \<in> set size_units \<and> u \<le> unat w \<and> list_all (\<lambda>(s', u'). u' \<le> u \<or> unat w < u') size_units
      \<and> HumanBytes w = show_tenths t @ '' '' @ s \<and> 10 \<le> t
      \<and> 2 * \<bar>10 * int (unat w) - int t * int u\<bar> \<le> int u + 20 * int (slack (unat w))"
proof -
  have n: "unat w < 2 ^ 64" using unsigned_less[of w, where 'a = nat] by simp
  have near: "2 * \<bar>10 * int (unat w) - int (size_tenths (unat w) u) * int u\<bar> \<le> int u + 20 * int (slack (unat w))"
    if "0 < u" for u
    using size_tenths_near[OF n that] unfolding of_nat_le_iff[symmetric, where 'a = int] by (auto simp: abs_if)
  have unit: ?thesis
    if "(s, u) \<in> set size_units" "u \<le> unat w" "list_all (\<lambda>(s', u'). u' \<le> u \<or> unat w < u') size_units"
      "HumanBytes w = show_tenths (size_tenths (unat w) u) @ '' '' @ s" for s u
  proof -
    have u: "2 ^ 10 \<le> u" "u \<le> 2 ^ 30" using that(1) by (auto simp: size_units_def)
    then have "\<not> unat w < 2 ^ 10" using that(2) by linarith
    have "0 < u" using u(1) by simp
    with that near[of u] size_tenths_ten[OF n that(2)] u(2) show ?thesis
      unfolding if_not_P[OF \<open>\<not> unat w < 2 ^ 10\<close>] by (intro exI[of _ s] exI[of _ u] exI[of _ "size_tenths (unat w) u"]) simp
  qed
  consider "2 ^ 30 \<le> unat w" | "2 ^ 20 \<le> unat w" "unat w < 2 ^ 30" | "2 ^ 10 \<le> unat w" "unat w < 2 ^ 20" | "unat w < 2 ^ 10"
    by linarith
  then show ?thesis
  proof cases
    case 1
    then show ?thesis by (intro unit[of "''GiB''" "2 ^ 30"]) (simp_all add: HumanBytes_def size_units_def)
  next
    case 2
    then show ?thesis by (intro unit[of "''MiB''" "2 ^ 20"]) (simp_all add: HumanBytes_def size_units_def)
  next
    case 3
    then show ?thesis by (intro unit[of "''KiB''" "2 ^ 10"]) (simp_all add: HumanBytes_def size_units_def)
  qed (simp add: HumanBytes_def)
qed

section \<open>Reading indented JSON\<close>

text \<open>
  What \<open>json_plain\<close> values are: strings in valid UTF-8 and numbers in decimal. A number ends where no character of a
  longer one follows.
\<close>

definition num_stop :: "string \<Rightarrow> bool" where
  "num_stop t \<longleftrightarrow> (case t of [] \<Rightarrow> True | c # _ \<Rightarrow> \<not> is_digit c \<and> c \<notin> set ''.eE'')"

definition plain_number :: "string \<Rightarrow> bool" where
  "plain_number s \<longleftrightarrow> s \<noteq> [] \<and> list_all is_digit s \<and> (has_prefix s ''0'' \<longrightarrow> s = ''0'')"

fun json_plain :: "json \<Rightarrow> bool" where
  "json_plain JNull = True"
| "json_plain (JBool b) = True"
| "json_plain (JNum s) = plain_number s"
| "json_plain (JStr s) = valid_utf8 s"
| "json_plain (JArr vs) = (\<forall>v\<in>set vs. json_plain v)"
| "json_plain (JObj ms) = (\<forall>m\<in>set ms. case m of (k, v) \<Rightarrow> valid_utf8 k \<and> json_plain v)"

lemma skip_newline [simp]: "skip_ws (json_newline n @ s) = skip_ws s"
  by (induction n) (simp_all add: json_newline_def skip_ws_def json_ws_def)

lemma skip_space [simp]: "skip_ws (CHR 0x20 # s) = skip_ws s"
  by (simp add: skip_ws_def json_ws_def)

lemma json_value_skip: "skip_ws s = skip_ws s' \<Longrightarrow> json_value d n s = json_value d n s'"
  by (cases n) simp_all

lemma json_key_skip: "skip_ws s = skip_ws s' \<Longrightarrow> json_key s = json_key s'"
  by (simp add: json_key_def)

lemma num_stop_newline [simp]: "num_stop (json_newline n @ s)"
  by (simp add: num_stop_def json_newline_def is_digit_def byte_def)

lemma num_stop_comma [simp]: "num_stop (CHR '','' # s)" "num_stop []"
  by (simp_all add: num_stop_def is_digit_def byte_def)

lemma json_number_plain:
  assumes "plain_number s" "num_stop t"
  shows "json_number (s @ t) = Some (s, t)"
proof -
  have no: "\<not> has_prefix (s @ t) ''-''" "\<not> has_prefix t ''.''" "\<not> has_prefix t ''e''" "\<not> has_prefix t ''E''"
    using assms by (cases s; cases t; auto simp: plain_number_def num_stop_def has_prefix_def is_digit_def byte_def)+
  show ?thesis
  proof (cases "has_prefix s ''0''")
    case True
    then have "s = ''0''" using assms(1) by (simp add: plain_number_def)
    with no show ?thesis by (simp add: json_number_def has_prefix_def)
  next
    case False
    then have "\<not> has_prefix (s @ t) ''0''" using assms(1) by (cases s) (auto simp: plain_number_def has_prefix_def)
    moreover have "digits_span (s @ t) = (s, t)"
      using assms by (cases t) (auto simp: digits_span_def plain_number_def num_stop_def list_all_iff takeWhile_append dropWhile_append)
    moreover have "s \<noteq> []" using assms(1) by (simp add: plain_number_def)
    ultimately show ?thesis using no by (simp add: json_number_def)
  qed
qed

lemma json_value_number:
  assumes "plain_number s" "num_stop t"
  shows "json_value d (Suc n) (s @ t) = Some (JNum s, t)"
proof -
  obtain c r where s: "s = c # r" "is_digit c" using assms(1) by (cases s) (auto simp: plain_number_def)
  then have "\<not> json_ws c" "c \<notin> set ''{[ntf''" "c \<noteq> CHR 0x22"
    by (auto simp: json_ws_def is_digit_def byte_def)
  with json_number_plain[OF assms] s show ?thesis by (auto simp: has_prefix_def)
qed

lemma json_indent_head:
  "json_plain v \<Longrightarrow> \<exists>c r. json_indent k v = c # r \<and> \<not> json_ws c \<and> c \<noteq> CHR '']''"
  by (cases v) (auto simp: json_quote_def plain_number_def neq_Nil_conv json_ws_def is_digit_def byte_def)

lemma join_Cons: "vs \<noteq> [] \<Longrightarrow> join_with w (v # vs) = v @ w @ join_with w vs"
  by (cases vs) simp_all

lemma json_elems_indent:
  assumes "vs \<noteq> []"
    and "\<And>v n t. v \<in> set vs \<Longrightarrow> num_stop t \<Longrightarrow> 2 * length (f v) + 2 \<le> n \<Longrightarrow> json_value d n (f v @ t) = Some (v, t)"
    and "2 * length (join_with ('','' @ json_newline k) (map f vs)) + 3 \<le> n"
  shows "json_elems d n (json_newline k @ join_with ('','' @ json_newline k) (map f vs) @ json_newline j @ CHR '']'' # t) = Some (vs, t)"
  using assms
proof (induction vs arbitrary: n)
  case (Cons v vs)
  then obtain m where n: "n = Suc m" by (cases n) auto
  have skip: "json_value d m (json_newline k @ x) = json_value d m x" for x by (rule json_value_skip) simp
  show ?case
  proof (cases "vs = []")
    case True
    with Cons.prems n show ?thesis by (simp add: skip)
  next
    case False
    let ?j = "join_with ('','' @ json_newline k) (map f vs)"
    from False have join: "join_with ('','' @ json_newline k) (map f (v # vs)) = f v @ CHR '','' # json_newline k @ ?j"
      by (simp add: join_Cons)
    with Cons.prems(3) n have le: "2 * length (f v) + 2 \<le> m" "2 * length ?j + 3 \<le> m" by simp_all
    from Cons.IH[OF False _ le(2)] Cons.prems(2) have "json_elems d m (json_newline k @ ?j @ json_newline j @ CHR '']'' # t) = Some (vs, t)"
      by simp
    moreover have "json_value d m (f v @ CHR '','' # x) = Some (v, CHR '','' # x)" for x
      using Cons.prems(2)[of v] le(1) by simp
    ultimately show ?thesis unfolding join n by (simp add: skip)
  qed
qed simp

lemma json_key_indent: "valid_utf8 k \<Longrightarrow> json_key (json_newline n @ json_quote k @ CHR '':'' # x) = Some (k, x)"
  using json_key_skip[of "json_newline n @ json_quote k @ CHR '':'' # x"] by (simp add: json_key_render)

lemma json_members_indent:
  assumes "ms \<noteq> []" "\<forall>m\<in>set ms. valid_utf8 (fst m)"
    and "\<And>m n t. m \<in> set ms \<Longrightarrow> num_stop t \<Longrightarrow> 2 * length (f (snd m)) + 2 \<le> n \<Longrightarrow>
      json_value d n (f (snd m) @ t) = Some (snd m, t)"
    and "g = (\<lambda>(k, v). json_quote k @ '': '' @ f v)"
    and "2 * length (join_with ('','' @ json_newline k) (map g ms)) + 3 \<le> n"
  shows "json_members d n (json_newline k @ join_with ('','' @ json_newline k) (map g ms) @ json_newline j @ CHR ''}'' # t)
      = Some (ms, t)"
  using assms(1-3,5)
proof (induction ms arbitrary: n)
  case (Cons m ms)
  obtain key v where m: "m = (key, v)" by fastforce
  from Cons.prems obtain i where n: "n = Suc i" by (cases n) auto
  have valid: "valid_utf8 key" using Cons.prems(2) m by simp
  have space: "json_value d i (CHR 0x20 # x) = json_value d i x" for x by (rule json_value_skip) simp
  have gm: "g m = json_quote key @ CHR '':'' # CHR 0x20 # f v" by (simp add: assms(4) m)
  show ?case
  proof (cases "ms = []")
    case True
    have "json_value d i (f v @ json_newline j @ CHR ''}'' # t) = Some (v, json_newline j @ CHR ''}'' # t)"
      using Cons.prems(3)[of m "json_newline j @ CHR ''}'' # t" i] Cons.prems(4) n by (simp add: True gm[unfolded m] m)
    with True valid n show ?thesis by (simp add: gm[unfolded m] json_key_indent space m)
  next
    case False
    let ?j = "join_with ('','' @ json_newline k) (map g ms)"
    from False have join: "join_with ('','' @ json_newline k) (map g (m # ms)) =
        json_quote key @ CHR '':'' # CHR 0x20 # f v @ CHR '','' # json_newline k @ ?j"
      by (simp add: join_Cons gm[unfolded m] m)
    with Cons.prems(4) n have le: "2 * length (f v) + 2 \<le> i" "2 * length ?j + 3 \<le> i" by simp_all
    from Cons.IH[OF False _ _ le(2)] Cons.prems(2,3)
    have "json_members d i (json_newline k @ ?j @ json_newline j @ CHR ''}'' # t) = Some (ms, t)" by simp
    moreover have "json_value d i (f v @ CHR '','' # x) = Some (v, CHR '','' # x)" for x
      using Cons.prems(3)[of m "CHR '','' # x" i] le(1) by (simp add: m)
    ultimately show ?thesis unfolding join n using valid by (simp add: json_key_indent space m)
  qed
qed simp

lemma json_value_indent:
  "json_plain v \<Longrightarrow> d + json_depth v \<le> max_depth \<Longrightarrow> num_stop t \<Longrightarrow> 2 * length (json_indent k v) + 2 \<le> n \<Longrightarrow>
    json_value d n (json_indent k v @ t) = Some (v, t)"
proof (induction v arbitrary: d n t k rule: json_render.induct)
  case (3 s)
  then obtain m where "n = Suc m" by (cases n) auto
  with 3 show ?case by (simp add: json_value_number del: json_value.simps)
next
  case (4 s)
  then obtain m where "n = Suc m" by (cases n) auto
  with 4 show ?case by (simp add: json_value_string del: json_value.simps)
next
  case (5 vs)
  then obtain m where n: "n = Suc m" by (cases n) auto
  show ?case
  proof (cases "vs = []")
    case True
    with "5.prems" n show ?thesis by (simp add: has_prefix_def)
  next
    case False
    let ?j = "join_with ('','' @ json_newline (Suc k)) (map (json_indent (Suc k)) vs)"
    obtain v us where vs: "vs = v # us" using False by (cases vs) auto
    with "5.prems"(1) obtain c r where c: "json_indent (Suc k) v = c # r" "\<not> json_ws c" "c \<noteq> CHR '']''"
      using json_indent_head by fastforce
    then have start: "\<not> has_prefix (skip_ws (json_newline (Suc k) @ ?j @ x)) '']''" for x
      by (cases us) (simp_all add: vs has_prefix_def)
    have "json_elems (Suc d) m (json_newline (Suc k) @ ?j @ json_newline k @ CHR '']'' # t) = Some (vs, t)"
    proof (rule json_elems_indent[OF False])
      fix v i x assume v: "v \<in> set vs" "num_stop x" "2 * length (json_indent (Suc k) v) + 2 \<le> i"
      have "Suc d + json_depth v \<le> max_depth" using "5.prems"(2) depth_le[OF v(1)] by auto
      then show "json_value (Suc d) i (json_indent (Suc k) v @ x) = Some (v, x)"
        using "5.IH"[OF v(1)] v "5.prems"(1) by simp
    qed (use "5.prems" n False in simp)
    with start "5.prems"(2) n False show ?thesis by simp
  qed
next
  case (6 ms)
  then obtain m where n: "n = Suc m" by (cases n) auto
  show ?case
  proof (cases "ms = []")
    case True
    with "6.prems" n show ?thesis by (simp add: has_prefix_def)
  next
    case False
    let ?g = "\<lambda>(key, v). json_quote key @ '': '' @ json_indent (Suc k) v"
    let ?j = "join_with ('','' @ json_newline (Suc k)) (map ?g ms)"
    have "\<exists>r. ?j = CHR 0x22 # r"
      using False by (cases ms; cases "tl ms") (auto simp: json_quote_def)
    then have start: "\<not> has_prefix (skip_ws (json_newline (Suc k) @ ?j @ x)) ''}''" for x
      by (auto simp: has_prefix_def)
    have "json_members (Suc d) m (json_newline (Suc k) @ ?j @ json_newline k @ CHR ''}'' # t) = Some (ms, t)"
    proof (rule json_members_indent[OF False])
      fix p i x assume v: "p \<in> set ms" "num_stop x" "2 * length (json_indent (Suc k) (snd p)) + 2 \<le> i"
      have "json_depth (snd p) \<le> Max (set (0 # map (\<lambda>(k, v). json_depth v) ms))"
        using v(1) by (auto intro!: Max_ge image_eqI[where x = p] split: prod.splits)
      then show "json_value (Suc d) i (json_indent (Suc k) (snd p) @ x) = Some (snd p, x)"
        using "6.IH"[of p "fst p" "snd p"] v "6.prems"(1,2) by auto
    qed (use "6.prems" n False in \<open>auto split: prod.splits\<close>)
    with start "6.prems"(2) n False show ?thesis by simp
  qed
qed (case_tac n; auto simp: has_prefix_def)+

lemma json_parse_indent:
  assumes "json_plain v" "json_depth v \<le> max_depth" "s = [] \<or> s = [CHR 0x0A]"
  shows "json_parse (json_indent 0 v @ s) = Some v"
proof -
  have "num_stop s" "skip_ws s = []" using assms(3) by (auto simp: num_stop_def is_digit_def byte_def skip_ws_def json_ws_def)
  with json_value_indent[of v 0 s 0 "json_fuel (json_indent 0 v @ s)"] assms(1,2) show ?thesis
    by (simp add: json_parse_def json_fuel_def del: json_value.simps)
qed
end
