(* ===== verification/Cli.thy ===== *)
theory Cli
  imports Go_Flags Output Agent_Config
begin

text \<open>
  Package \<open>internal/cli\<close>: the global flags in front of the command, the table of commands and the dispatch. A command
  ends by returning an error or nil, or, in the flag package, by ending the process. The world \<open>'w\<close> is left open; what
  the app prints goes through its writer.
\<close>

section \<open>Commands and the app\<close>

record globals =
  g_Endpoint :: string
  g_TLSDir :: string
  g_Output :: string

definition JSON :: "globals \<Rightarrow> bool" where
  "JSON g \<longleftrightarrow> g_Output g = ''json''"

datatype run_result = Returned "error option" | ExitsWith nat

record 'w command =
  c_Name :: string
  c_Help :: string
  c_Run :: "globals \<Rightarrow> string list \<Rightarrow> 'w \<Rightarrow> run_result \<times> 'w"

record 'w app =
  app_name :: string
  app_desc :: string
  app_commands :: "'w command list"
  app_out :: "string \<Rightarrow> 'w \<Rightarrow> 'w"

definition cli_New :: "(string \<Rightarrow> 'w \<Rightarrow> 'w) \<Rightarrow> string \<Rightarrow> string \<Rightarrow> 'w app" where
  "cli_New stderr name desc = \<lparr>app_name = name, app_desc = desc, app_commands = [], app_out = stderr\<rparr>"

definition cli_Register :: "'w command list \<Rightarrow> 'w app \<Rightarrow> 'w app" where
  "cli_Register cmds a = a\<lparr>app_commands := app_commands a @ cmds\<rparr>"

section \<open>The global flags\<close>

definition default_globals :: "environment \<Rightarrow> globals" where
  "default_globals env =
     \<lparr>g_Endpoint = envOr env ''HBCTL_ENDPOINT'' ''127.0.0.1:50000'',
      g_TLSDir = envOr env ''HBCTL_TLS_DIR'' ''/var/lib/hummingbird/pki'',
      g_Output = envOr env ''HBCTL_OUTPUT'' ''text''\<rparr>"

fun parse_globals :: "globals \<Rightarrow> string list \<Rightarrow> globals \<times> string \<times> string list" where
  "parse_globals g [] = (g, [], [])"
| "parse_globals g (a # args) =
     (if a = ''--endpoint'' \<and> args \<noteq> [] then parse_globals (g\<lparr>g_Endpoint := hd args\<rparr>) (tl args)
      else if has_prefix a ''--endpoint='' then parse_globals (g\<lparr>g_Endpoint := trim_prefix a ''--endpoint=''\<rparr>) args
      else if a = ''--tls-dir'' \<and> args \<noteq> [] then parse_globals (g\<lparr>g_TLSDir := hd args\<rparr>) (tl args)
      else if has_prefix a ''--tls-dir='' then parse_globals (g\<lparr>g_TLSDir := trim_prefix a ''--tls-dir=''\<rparr>) args
      else if a = ''--output'' \<and> args \<noteq> [] then parse_globals (g\<lparr>g_Output := hd args\<rparr>) (tl args)
      else if has_prefix a ''--output='' then parse_globals (g\<lparr>g_Output := trim_prefix a ''--output=''\<rparr>) args
      else if a = ''-o'' \<and> args \<noteq> [] then parse_globals (g\<lparr>g_Output := hd args\<rparr>) (tl args)
      else (g, a, args))"

definition cli_parse :: "environment \<Rightarrow> string list \<Rightarrow> globals \<times> string \<times> string list" where
  "cli_parse env args = parse_globals (default_globals env) args"

section \<open>Usage and dispatch\<close>

text \<open>The texts of \<open>usage\<close>; the dash of the first line is the rune U+2014.\<close>

definition usage_text :: "'w app \<Rightarrow> string" where
  "usage_text a =
     app_name a @ [CHR 0x20, CHR 0xE2, CHR 0x80, CHR 0x94, CHR 0x20] @ app_desc a @ [CHR 0x0A, CHR 0x0A]
     @ ''Usage: '' @ app_name a @ '' [--endpoint <addr>] [--tls-dir <dir>] <command> [flags]'' @ [CHR 0x0A, CHR 0x0A]
     @ ''Global flags:'' @ [CHR 0x0A]
     @ ''  --endpoint <addr>  Agent address (default: 127.0.0.1:50000, env: HBCTL_ENDPOINT)'' @ [CHR 0x0A]
     @ ''  --tls-dir <dir>    TLS cert directory (default: /var/lib/hummingbird/pki, env: HBCTL_TLS_DIR)'' @ [CHR 0x0A]
     @ ''  -o, --output <fmt> Output format: text or json (default: text, env: HBCTL_OUTPUT)'' @ [CHR 0x0A, CHR 0x0A]
     @ ''Commands:'' @ [CHR 0x0A]
     @ tab_flush (concat (map (\<lambda>c. ''  '' @ c_Name c @ [CHR 0x09] @ c_Help c @ [CHR 0x0A]) (app_commands a)))
     @ [CHR 0x0A]"

definition usage :: "'w app \<Rightarrow> 'w \<Rightarrow> 'w" where
  "usage a w = app_out a (usage_text a) w"

definition asks_help :: "string \<Rightarrow> bool" where
  "asks_help cmd \<longleftrightarrow> cmd \<in> {[], ''help'', ''--help'', ''-h''}"

definition unknown_command :: "'w app \<Rightarrow> string \<Rightarrow> 'w \<Rightarrow> run_result \<times> 'w" where
  "unknown_command a cmd w =
     (Returned (Some (Msg (''unknown command: '' @ cmd))),
      usage a (app_out a (''unknown command: '' @ cmd @ [CHR 0x0A, CHR 0x0A]) w))"

text \<open>The first command of the name runs; \<open>os_args\<close> starts with the program's own name.\<close>

definition cli_Run :: "environment \<Rightarrow> 'w app \<Rightarrow> string list \<Rightarrow> 'w \<Rightarrow> run_result \<times> 'w" where
  "cli_Run env a os_args w =
     (case cli_parse env (drop 1 os_args) of
        (g, cmd, args) \<Rightarrow>
          if asks_help cmd then (Returned None, usage a w)
          else (case find (\<lambda>c. c_Name c = cmd) (app_commands a) of
                  Some c \<Rightarrow> c_Run c g args w
                | None \<Rightarrow> unknown_command a cmd w))"

text \<open>\<open>Flags\<close>: a flag set that ends the process on an error, with the flags the command declares, parsed.\<close>

definition Flags :: "flags \<Rightarrow> string list \<Rightarrow> (flags \<Rightarrow> string list \<Rightarrow> 'w \<Rightarrow> run_result \<times> 'w) \<Rightarrow> 'w \<Rightarrow> run_result \<times> 'w" where
  "Flags decls args f w =
     (case flag_parse decls args of FlagExit n \<Rightarrow> (ExitsWith n, w) | Parsed fl rest \<Rightarrow> f fl rest w)"

section \<open>Properties\<close>

text \<open>A global setting as it can be written: as two arguments, as one with an equals sign, or with the short flag.\<close>

datatype setting = SetEndpoint string | SetTLSDir string | SetOutput string

fun apply_setting :: "setting \<Rightarrow> globals \<Rightarrow> globals" where
  "apply_setting (SetEndpoint v) g = g\<lparr>g_Endpoint := v\<rparr>"
| "apply_setting (SetTLSDir v) g = g\<lparr>g_TLSDir := v\<rparr>"
| "apply_setting (SetOutput v) g = g\<lparr>g_Output := v\<rparr>"

inductive spelled :: "setting \<Rightarrow> string list \<Rightarrow> bool" where
  "spelled (SetEndpoint v) [''--endpoint'', v]"
| "spelled (SetEndpoint v) [''--endpoint='' @ v]"
| "spelled (SetTLSDir v) [''--tls-dir'', v]"
| "spelled (SetTLSDir v) [''--tls-dir='' @ v]"
| "spelled (SetOutput v) [''--output'', v]"
| "spelled (SetOutput v) [''--output='' @ v]"
| "spelled (SetOutput v) [''-o'', v]"

inductive_cases spelled_cases: "spelled s ws"

definition command_word :: "string \<Rightarrow> bool" where
  "command_word c \<longleftrightarrow> c \<noteq> [] \<and> \<not> has_prefix c ''-''"

lemma flag_prefixes [simp]:
  "has_prefix (''--endpoint='' @ v) ''--endpoint=''" "trim_prefix (''--endpoint='' @ v) ''--endpoint='' = v"
  "has_prefix (''--tls-dir='' @ v) ''--tls-dir=''" "trim_prefix (''--tls-dir='' @ v) ''--tls-dir='' = v"
  "has_prefix (''--output='' @ v) ''--output=''" "trim_prefix (''--output='' @ v) ''--output='' = v"
  by (simp_all add: has_prefix_def trim_prefix_def)

lemma parse_spelled: "spelled s ws \<Longrightarrow> parse_globals g (ws @ args) = parse_globals (apply_setting s g) args"
  by (erule spelled_cases) (simp_all add: has_prefix_def trim_prefix_def)

lemma parse_command: "command_word c \<Longrightarrow> parse_globals g (c # args) = (g, c, args)"
  by (cases c) (auto simp: command_word_def has_prefix_def)

lemma parse_settings:
  "list_all2 spelled ss wss \<Longrightarrow> parse_globals g (concat wss @ args) = parse_globals (fold apply_setting ss g) args"
proof (induction ss wss arbitrary: g rule: list_all2_induct)
  case (Cons s ss ws wss)
  then show ?case using parse_spelled[OF Cons.hyps(1), of g "concat wss @ args"] by simp
qed simp

text \<open>
  C34: global settings in front of a command, each written in any of its forms, reach the command, the last one of a
  kind winning over the earlier ones and any of them over the environment and the defaults; the arguments behind the
  command reach it unchanged, and only it runs.
\<close>

theorem cli_dispatch:
  assumes "list_all2 spelled ss wss" "command_word cmd" "cmd \<noteq> ''help''"
    and "find (\<lambda>c. c_Name c = cmd) (app_commands a) = Some c"
  shows "cli_Run env a (prog # concat wss @ cmd # args) w = c_Run c (fold apply_setting ss (default_globals env)) args w"
proof -
  have "\<not> asks_help cmd" using assms(2,3) by (auto simp: asks_help_def command_word_def has_prefix_def)
  then show ?thesis
    by (simp add: cli_Run_def cli_parse_def parse_settings[OF assms(1)] parse_command[OF assms(2)] assms(4)
        del: parse_globals.simps)
qed

text \<open>A command that records how it is called.\<close>

definition echo_command :: "string \<Rightarrow> (string \<times> globals \<times> string list) list command" where
  "echo_command n = \<lparr>c_Name = n, c_Help = [], c_Run = (\<lambda>g args w. (Returned None, w @ [(n, g, args)]))\<rparr>"

theorem cli_dispatch_witness:
  "cli_Run [''HBCTL_TLS_DIR'' \<mapsto> ''/env'', ''HBCTL_ENDPOINT'' \<mapsto> ''env:1''] (cli_Register [echo_command ''a'', echo_command ''b''] (cli_New (\<lambda>s w. w) [] []))
     [''hbctl'', ''--endpoint'', ''x:1'', ''-o'', ''json'', ''--endpoint=y:2'', ''b'', ''-o'', ''z''] []
   = (Returned None, [(''b'', \<lparr>g_Endpoint = ''y:2'', g_TLSDir = ''/env'', g_Output = ''json''\<rparr>, [''-o'', ''z''])])"
proof -
  have s: "list_all2 spelled [SetEndpoint ''x:1'', SetOutput ''json'', SetEndpoint ''y:2'']
      [[''--endpoint'', ''x:1''], [''-o'', ''json''], [''--endpoint='' @ ''y:2'']]"
    by (auto intro: spelled.intros simp del: append.simps)
  show ?thesis
    using cli_dispatch[OF s, of "''b''" "cli_Register [echo_command ''a'', echo_command ''b''] (cli_New (\<lambda>s w. w) [] [])"
        "echo_command ''b''" "[''HBCTL_TLS_DIR'' \<mapsto> ''/env'', ''HBCTL_ENDPOINT'' \<mapsto> ''env:1'']" "''hbctl''" "[''-o'', ''z'']" "[]"]
    by (simp add: command_word_def has_prefix_def cli_Register_def cli_New_def echo_command_def default_globals_def envOr_def
        Getenv_def)
qed

end
