(* ===== verification/Client.thy ===== *)
theory Client
  imports Machine_Api
begin

text \<open>
  Package \<open>internal/client\<close>: the client's TLS configuration from the files of its directory, and the connection. The
  generated client is the record \<open>machine_client\<close>, one operation for each call of the service, over the state of the
  network \<open>'n\<close>; \<open>ctx\<close> is the number of seconds the call may take, \<open>None\<close> without a deadline. A stream is the list
  of the messages received and the error that ended it, \<open>None\<close> for \<open>io.EOF\<close>.
\<close>

section \<open>The client\<close>

type_synonym ctx_time = "nat option"

text \<open>The client's view of the statistics, where the message pointers may be nil.\<close>

record 'f stats_reply =
  sy_Memory :: "memory_message option"
  sy_Cpu :: "'f cpu_message option"
  sy_Disks :: "disk_message list"
  sy_Load :: "'f load_message option"

definition stats_reply_of :: "'f stats_response \<Rightarrow> 'f stats_reply" where
  "stats_reply_of r =
     \<lparr>sy_Memory = Some (sr_Memory r), sy_Cpu = Some (sr_Cpu r), sy_Disks = sr_Disks r, sy_Load = Some (sr_Load r)\<rparr>"

record ('n, 'f) machine_client =
  cl_Version :: "ctx_time \<Rightarrow> 'n \<Rightarrow> (error + version_response) \<times> 'n"
  cl_Health :: "ctx_time \<Rightarrow> 'n \<Rightarrow> (error + health_response) \<times> 'n"
  cl_Stats :: "ctx_time \<Rightarrow> 'n \<Rightarrow> (error + 'f stats_reply) \<times> 'n"
  cl_ServiceStatus :: "ctx_time \<Rightarrow> string \<Rightarrow> 'n \<Rightarrow> (error + status_response) \<times> 'n"
  cl_GetConfig :: "ctx_time \<Rightarrow> 'n \<Rightarrow> (error + config_message option) \<times> 'n"
  cl_ApplyConfig :: "ctx_time \<Rightarrow> config_message option \<Rightarrow> 'n \<Rightarrow> (error + apply_response) \<times> 'n"
  cl_Upgrade :: "ctx_time \<Rightarrow> string \<Rightarrow> 'n \<Rightarrow> (error + upgrade_response) \<times> 'n"
  cl_Rollback :: "ctx_time \<Rightarrow> 'n \<Rightarrow> (error + rollback_response) \<times> 'n"
  cl_Reboot :: "ctx_time \<Rightarrow> 'n \<Rightarrow> error option \<times> 'n"
  cl_Logs :: "ctx_time \<Rightarrow> logs_request \<Rightarrow> 'n \<Rightarrow> (error + logs_response list \<times> error option) \<times> 'n"
  cl_Dmesg :: "ctx_time \<Rightarrow> dmesg_request \<Rightarrow> 'n \<Rightarrow> (error + dmesg_response list \<times> error option) \<times> 'n"
  cl_BootstrapAuth :: "ctx_time \<Rightarrow> bootstrap_request \<Rightarrow> 'n \<Rightarrow> (error + bootstrap_response) \<times> 'n"

section \<open>Connecting\<close>

record client_tls =
  ct_Certificate :: string
  ct_RootCAs :: string
  ct_MinVersion13 :: bool

text \<open>
  How a connection checks the server: with the client's own certificate and authority, or with any certificate that a
  callback accepts (\<open>InsecureSkipVerify\<close>; the callback gets the certificates the server presents).
\<close>

datatype security = MutualTLS client_tls | SkipVerify "string list \<Rightarrow> error option"

definition loadClientTLS ::
    "(string \<Rightarrow> string \<Rightarrow> error + string) \<Rightarrow> (string \<Rightarrow> bool) \<Rightarrow> string \<Rightarrow> fs \<Rightarrow> (error + client_tls) \<times> fs" where
  "loadClientTLS key_pair is_pool dir s =
     (case ReadFile (path_join dir ''ca.crt'') s of
        (Inl e, s) \<Rightarrow> (Inl (Wrap ''read ca.crt'' e), s)
      | (Inr ca, s) \<Rightarrow>
          if \<not> is_pool ca then (Inl (Msg ''parse ca.crt''), s)
          else
            (case ReadFile (path_join dir ''client.crt'') s of
               (Inl e, s) \<Rightarrow> (Inl (Wrap ''load client cert'' e), s)
             | (Inr c, s) \<Rightarrow>
                 (case ReadFile (path_join dir ''client.key'') s of
                    (Inl e, s) \<Rightarrow> (Inl (Wrap ''load client cert'' e), s)
                  | (Inr k, s) \<Rightarrow>
                      (case key_pair c k of
                         Inl e \<Rightarrow> (Inl (Wrap ''load client cert'' e), s)
                       | Inr cert \<Rightarrow> (Inr \<lparr>ct_Certificate = cert, ct_RootCAs = ca, ct_MinVersion13 = True\<rparr>, s)))))"

record client_config =
  cc_Endpoint :: string
  cc_TLSDir :: string

text \<open>\<open>grpc.NewClient\<close> is the parameter \<open>dial\<close>: it checks the target and connects at the first call.\<close>

definition Connect ::
    "(string \<Rightarrow> security \<Rightarrow> error + ('n, 'f) machine_client) \<Rightarrow> (string \<Rightarrow> string \<Rightarrow> error + string) \<Rightarrow>
     (string \<Rightarrow> bool) \<Rightarrow> client_config \<Rightarrow> fs \<Rightarrow> (error + ('n, 'f) machine_client) \<times> fs" where
  "Connect dial key_pair is_pool cfg s =
     (case loadClientTLS key_pair is_pool (cc_TLSDir cfg) s of
        (Inl e, s) \<Rightarrow> (Inl (Wrap ''load TLS'' e), s)
      | (Inr tls, s) \<Rightarrow> (wrap_err ''connect'' (dial (cc_Endpoint cfg) (MutualTLS tls)), s))"

section \<open>Facts\<close>

text \<open>Without file faults, loading changes nothing and succeeds exactly with an authority and a matching pair of files.\<close>

lemma loadClientTLS_calm:
  assumes "calm s"
  shows "snd (loadClientTLS key_pair is_pool dir s) = s"
    and "fst (loadClientTLS key_pair is_pool dir s) = Inr t \<longleftrightarrow>
      (\<exists>ca c k cert. file_at s (path_join dir ''ca.crt'') = Some ca \<and> is_pool ca
        \<and> file_at s (path_join dir ''client.crt'') = Some c \<and> file_at s (path_join dir ''client.key'') = Some k
        \<and> key_pair c k = Inr cert \<and> t = \<lparr>ct_Certificate = cert, ct_RootCAs = ca, ct_MinVersion13 = True\<rparr>)"
  using assms by (auto simp: loadClientTLS_def ReadFile_def split: option.split sum.split)

end
