(* ===== verification/Hbctl.thy ===== *)
theory Hbctl
  imports Cli Client
begin

text \<open>
  \<open>cmd/hbctl\<close>: the command-line client. Each command parses its flags, connects, makes one call and prints the answer,
  as a table or as JSON. The world holds the client's files, what it has printed on the standard output and the
  standard error, what reading the standard input gives, and the network \<open>'n\<close>; what the commands take from outside
  (the connection, keys, randomness, the formatting of floats) is the record \<open>ctl_env\<close>. Writing to the terminal
  always succeeds in the model, and the modes of the files are left out.
\<close>

section \<open>The world of a command\<close>

record 'n ctl_world =
  cw_fs :: fs
  cw_out :: string
  cw_err :: string
  cw_stdin :: "error + string"
  cw_net :: 'n

text \<open>
  \<open>ct_fmt1\<close> and \<open>ct_fmt2\<close> are the verbs \<open>%.1f\<close> and \<open>%.2f\<close>, \<open>ct_json_float\<close> the JSON form of a float (none for
  infinities and NaN), \<open>ct_float_zero\<close> whether a float is omitted as zero, \<open>ct_cert_order\<close> the order in which a range
  over a map visits its keys. \<open>ct_hostname\<close> is empty when the name cannot be read.
\<close>

record ('n, 'f, 'k, 'p) ctl_env =
  ct_dial :: "string \<Rightarrow> security \<Rightarrow> error + ('n, 'f) machine_client"
  ct_key_pair :: "string \<Rightarrow> string \<Rightarrow> error + string"
  ct_is_pool :: "string \<Rightarrow> bool"
  ct_crypto :: "('k, 'p) crypto"
  ct_hostname :: string
  ct_sha256 :: "string \<Rightarrow> string"
  ct_random32 :: "error + string"
  ct_fmt1 :: "'f \<Rightarrow> string"
  ct_fmt2 :: "'f \<Rightarrow> string"
  ct_json_float :: "'f \<Rightarrow> string option"
  ct_float_zero :: "'f \<Rightarrow> bool"
  ct_order :: "string list \<Rightarrow> string list"

type_synonym 'n ctl_step = "'n ctl_world \<Rightarrow> run_result \<times> 'n ctl_world"

definition put_out :: "string \<Rightarrow> 'n ctl_world \<Rightarrow> 'n ctl_world" where
  "put_out s w = w\<lparr>cw_out := cw_out w @ s\<rparr>"

definition put_err :: "string \<Rightarrow> 'n ctl_world \<Rightarrow> 'n ctl_world" where
  "put_err s w = w\<lparr>cw_err := cw_err w @ s\<rparr>"

definition ctl_fs :: "(fs \<Rightarrow> 'a \<times> fs) \<Rightarrow> 'n ctl_world \<Rightarrow> 'a \<times> 'n ctl_world" where
  "ctl_fs f w = (case f (cw_fs w) of (r, s) \<Rightarrow> (r, w\<lparr>cw_fs := s\<rparr>))"

definition on_net :: "('n \<Rightarrow> 'a \<times> 'n) \<Rightarrow> 'n ctl_world \<Rightarrow> 'a \<times> 'n ctl_world" where
  "on_net f w = (case f (cw_net w) of (r, n) \<Rightarrow> (r, w\<lparr>cw_net := n\<rparr>))"

definition fail :: "error \<Rightarrow> 'n ctl_step" where
  "fail e w = (Returned (Some e), w)"

text \<open>Lines and tables, as the print statements of the commands build them.\<close>

definition line :: "string \<Rightarrow> string" where
  "line s = s @ [CHR 0x0A]"

definition row :: "string list \<Rightarrow> string" where
  "row cells = line (join_with [CHR 0x09] cells)"

definition show_bool :: "bool \<Rightarrow> string" where
  "show_bool b = (if b then ''true'' else ''false'')"

definition yes_no :: "bool \<Rightarrow> string" where
  "yes_no b = (if b then ''yes'' else ''no'')"

section \<open>Messages as JSON\<close>

text \<open>The fields of the generated structs in their order, each left out when it is zero (\<open>omitempty\<close>).\<close>

type_synonym members = "(string \<times> json) list"

definition j_str :: "string \<Rightarrow> string \<Rightarrow> members" where
  "j_str k s = (if s = [] then [] else [(k, JStr s)])"

definition j_bool :: "string \<Rightarrow> bool \<Rightarrow> members" where
  "j_bool k b = (if b then [(k, JBool b)] else [])"

definition j_nat :: "string \<Rightarrow> nat \<Rightarrow> members" where
  "j_nat k n = (if n = 0 then [] else [(k, JNum (show_nat n))])"

definition j_int :: "string \<Rightarrow> int \<Rightarrow> members" where
  "j_int k n = (if n = 0 then [] else [(k, JNum (show_int n))])"

definition j_list :: "string \<Rightarrow> json list \<Rightarrow> members" where
  "j_list k vs = (if vs = [] then [] else [(k, JArr vs)])"

definition j_msg :: "string \<Rightarrow> members option \<Rightarrow> members" where
  "j_msg k m = (case m of None \<Rightarrow> [] | Some ms \<Rightarrow> [(k, JObj ms)])"

definition version_json :: "version_response \<Rightarrow> json" where
  "version_json r = JObj (j_str ''version'' (vs_Version r) @ j_str ''os_image'' (vs_OsImage r)
     @ j_str ''os_version'' (vs_OsVersion r) @ j_str ''go_version'' (vs_GoVersion r)
     @ j_str ''os_image_digest'' (vs_OsImageDigest r) @ j_str ''os_staged_image'' (vs_OsStagedImage r))"

definition health_json :: "health_response \<Rightarrow> json" where
  "health_json r = JObj (j_int ''status'' (hs_Status r)
     @ j_list ''services'' (map (\<lambda>s. JObj (j_str ''name'' (sh_Name s) @ j_str ''state'' (sh_State s)
         @ j_bool ''healthy'' (sh_Healthy s))) (hs_Services r)))"

definition logs_json :: "logs_response \<Rightarrow> json" where
  "logs_json e = JObj (j_str ''timestamp'' (lr_Timestamp e) @ j_str ''unit'' (lr_Unit e)
     @ j_str ''message'' (lr_Message e) @ j_str ''priority'' (lr_Priority e))"

definition dmesg_json :: "dmesg_response \<Rightarrow> json" where
  "dmesg_json e = JObj (j_str ''timestamp'' (dr_Timestamp e) @ j_str ''facility'' (dr_Facility e)
     @ j_str ''priority'' (dr_Priority e) @ j_str ''message'' (dr_Message e))"

definition status_json :: "status_response \<Rightarrow> json" where
  "status_json r = JObj (j_str ''name'' (us_resp_Name r) @ j_str ''description'' (us_resp_Description r)
     @ j_str ''load_state'' (us_resp_LoadState r) @ j_str ''active_state'' (us_resp_ActiveState r)
     @ j_str ''sub_state'' (us_resp_SubState r) @ j_str ''unit_file_state'' (us_resp_UnitFileState r)
     @ j_nat ''main_pid'' (unat (us_resp_MainPid r)) @ j_nat ''memory_bytes'' (unat (us_resp_MemoryBytes r))
     @ j_str ''active_enter_timestamp'' (us_resp_ActiveEnterTimestamp r))"

definition interface_members :: "interface_message \<Rightarrow> members" where
  "interface_members i = j_str ''name'' (im_Name i) @ j_bool ''dhcp'' (im_Dhcp i)
     @ j_list ''addresses'' (map JStr (im_Addresses i)) @ j_str ''gateway'' (im_Gateway i)
     @ j_nat ''mtu'' (unat (im_Mtu i))"

definition config_members :: "config_message \<Rightarrow> members" where
  "config_members c =
     j_msg ''network'' (map_option (\<lambda>is. j_list ''interfaces'' (map (\<lambda>i. JObj (interface_members i)) is)) (cf_Network c))
     @ j_str ''hostname'' (cf_Hostname c) @ j_list ''kernel_args'' (map JStr (cf_KernelArgs c))
     @ j_list ''dns_servers'' (map JStr (cf_DnsServers c)) @ j_list ''ntp_servers'' (map JStr (cf_NtpServers c))"

definition config_json :: "config_message option \<Rightarrow> json" where
  "config_json c = JObj (j_msg ''config'' (map_option config_members c))"

definition apply_json :: "apply_response \<Rightarrow> json" where
  "apply_json r = JObj (j_list ''warnings'' (map JStr (as_Warnings r)) @ j_bool ''reboot_required'' (as_RebootRequired r))"

definition upgrade_json :: "upgrade_response \<Rightarrow> json" where
  "upgrade_json r = JObj (j_str ''current_image'' (up_CurrentImage r) @ j_str ''current_digest'' (up_CurrentDigest r)
     @ j_str ''staged_image'' (up_StagedImage r) @ j_bool ''reboot_required'' (up_RebootRequired r))"

definition rollback_json :: "rollback_response \<Rightarrow> json" where
  "rollback_json r = JObj (j_str ''current_image'' (rb_CurrentImage r) @ j_str ''rollback_image'' (rb_RollbackImage r)
     @ j_bool ''reboot_required'' (rb_RebootRequired r))"

text \<open>A float that has no JSON form makes the whole message fail.\<close>

definition j_float :: "('n, 'f, 'k, 'p) ctl_env \<Rightarrow> string \<Rightarrow> 'f \<Rightarrow> error + members" where
  "j_float env k x =
     (if ct_float_zero env x then Inr []
      else (case ct_json_float env x of
              None \<Rightarrow> Inl (Ext ''json: unsupported value'')
            | Some s \<Rightarrow> Inr [(k, JNum s)]))"

definition memory_members :: "memory_message \<Rightarrow> members" where
  "memory_members m = j_nat ''total_bytes'' (unat (mm_TotalBytes m))
     @ j_nat ''available_bytes'' (unat (mm_AvailableBytes m)) @ j_nat ''used_bytes'' (unat (mm_UsedBytes m))"

definition disk_json :: "disk_message \<Rightarrow> json" where
  "disk_json d = JObj (j_str ''mount_point'' (dm_MountPoint d) @ j_str ''filesystem'' (dm_Filesystem d)
     @ j_nat ''total_bytes'' (unat (dm_TotalBytes d)) @ j_nat ''available_bytes'' (unat (dm_AvailableBytes d))
     @ j_nat ''used_bytes'' (unat (dm_UsedBytes d)))"

definition cpu_members :: "('n, 'f, 'k, 'p) ctl_env \<Rightarrow> 'f cpu_message \<Rightarrow> error + members" where
  "cpu_members env c =
     res_bind (j_float env ''usage_percent'' (cm_UsagePercent c)) (\<lambda>u. Inr (j_nat ''count'' (unat (cm_Count c)) @ u))"

definition load_members :: "('n, 'f, 'k, 'p) ctl_env \<Rightarrow> 'f load_message \<Rightarrow> error + members" where
  "load_members env l =
     res_bind (j_float env ''load1'' (lm_Load1 l)) (\<lambda>a.
     res_bind (j_float env ''load5'' (lm_Load5 l)) (\<lambda>b.
     res_bind (j_float env ''load15'' (lm_Load15 l)) (\<lambda>c. Inr (a @ b @ c))))"

definition j_msg_err :: "string \<Rightarrow> (error + members) option \<Rightarrow> error + members" where
  "j_msg_err k m = (case m of None \<Rightarrow> Inr [] | Some r \<Rightarrow> res_bind r (\<lambda>ms. Inr [(k, JObj ms)]))"

definition stats_json :: "('n, 'f, 'k, 'p) ctl_env \<Rightarrow> 'f stats_reply \<Rightarrow> error + json" where
  "stats_json env r =
     res_bind (j_msg_err ''cpu'' (map_option (cpu_members env) (sy_Cpu r))) (\<lambda>cpu.
     res_bind (j_msg_err ''load'' (map_option (load_members env) (sy_Load r))) (\<lambda>load.
       Inr (JObj (j_msg ''memory'' (map_option memory_members (sy_Memory r)) @ cpu
         @ j_list ''disks'' (map disk_json (sy_Disks r)) @ load))))"

section \<open>Connecting and answering\<close>

definition withClient ::
    "('n, 'f, 'k, 'p) ctl_env \<Rightarrow> globals \<Rightarrow> (ctx_time \<Rightarrow> ('n, 'f) machine_client \<Rightarrow> 'n ctl_step) \<Rightarrow> 'n ctl_step" where
  "withClient env g fn w =
     (case ctl_fs (Connect (ct_dial env) (ct_key_pair env) (ct_is_pool env)
                 \<lparr>cc_Endpoint = g_Endpoint g, cc_TLSDir = g_TLSDir g\<rparr>) w of
        (Inl e, w) \<Rightarrow> fail e w
      | (Inr cl, w) \<Rightarrow> fn (Some 30) cl w)"

text \<open>What the commands do with an answer: its error is returned, else it is printed as JSON or as text.\<close>

definition respond :: "globals \<Rightarrow> ('r \<Rightarrow> error + json) \<Rightarrow> ('r \<Rightarrow> string) \<Rightarrow> error + 'r \<Rightarrow> 'n ctl_step" where
  "respond g to_json text r w =
     (case r of
        Inl e \<Rightarrow> fail e w
      | Inr x \<Rightarrow>
          if JSON g then
            (case output_JSON (to_json x) of Inl e \<Rightarrow> fail e w | Inr s \<Rightarrow> (Returned None, put_out s w))
          else (Returned None, put_out (text x) w))"

definition call_and_print ::
    "('n, 'f, 'k, 'p) ctl_env \<Rightarrow> globals \<Rightarrow> (ctx_time \<Rightarrow> ('n, 'f) machine_client \<Rightarrow> 'n \<Rightarrow> (error + 'r) \<times> 'n) \<Rightarrow>
     ('r \<Rightarrow> error + json) \<Rightarrow> ('r \<Rightarrow> string) \<Rightarrow> 'n ctl_step" where
  "call_and_print env g call to_json text =
     withClient env g (\<lambda>ctx cl w. (case on_net (call ctx cl) w of (r, w) \<Rightarrow> respond g to_json text r w))"

section \<open>The commands that show something\<close>

definition optional_row :: "string \<Rightarrow> string \<Rightarrow> string" where
  "optional_row label s = (if s = [] then [] else row [label, s])"

definition version_text :: "version_response \<Rightarrow> string" where
  "version_text r = tab_flush (row [''Agent Version:'', vs_Version r] @ row [''Go Version:'', vs_GoVersion r]
     @ optional_row ''OS Image:'' (vs_OsImage r) @ optional_row ''Image Digest:'' (vs_OsImageDigest r)
     @ optional_row ''Staged Image:'' (vs_OsStagedImage r))"

definition versionCmd :: "('n, 'f, 'k, 'p) ctl_env \<Rightarrow> globals \<Rightarrow> string list \<Rightarrow> 'n ctl_step" where
  "versionCmd env g args = call_and_print env g (\<lambda>ctx cl. cl_Version cl ctx) (Inr \<circ> version_json) version_text"

definition health_status_text :: "int \<Rightarrow> string" where
  "health_status_text s = (if s = 1 then ''HEALTHY'' else if s = HEALTH_STATUS_UNHEALTHY then ''UNHEALTHY'' else ''UNKNOWN'')"

definition health_text :: "health_response \<Rightarrow> string" where
  "health_text r = line (''Status: '' @ health_status_text (hs_Status r))
     @ (if hs_Services r = [] then []
        else tab_flush (row [''SERVICE'', ''STATE'', ''HEALTHY'']
          @ concat (map (\<lambda>s. row [sh_Name s, sh_State s, yes_no (sh_Healthy s)]) (hs_Services r))))"

definition healthCmd :: "('n, 'f, 'k, 'p) ctl_env \<Rightarrow> globals \<Rightarrow> string list \<Rightarrow> 'n ctl_step" where
  "healthCmd env g args = call_and_print env g (\<lambda>ctx cl. cl_Health cl ctx) (Inr \<circ> health_json) health_text"

definition stats_text :: "('n, 'f, 'k, 'p) ctl_env \<Rightarrow> 'f stats_reply \<Rightarrow> string" where
  "stats_text env r =
     tab_flush
       ((case sy_Memory r of None \<Rightarrow> []
         | Some m \<Rightarrow> row [''Memory Total:'', HumanBytes (mm_TotalBytes m)]
             @ row [''Memory Available:'', HumanBytes (mm_AvailableBytes m)] @ row [''Memory Used:'', HumanBytes (mm_UsedBytes m)])
        @ (case sy_Cpu r of None \<Rightarrow> []
           | Some c \<Rightarrow> row [''CPU Count:'', show_nat (unat (cm_Count c))]
               @ row [''CPU Usage:'', ct_fmt1 env (cm_UsagePercent c) @ ''%'']) 
        @ (case sy_Load r of None \<Rightarrow> []
           | Some l \<Rightarrow> row [''Load:'', ct_fmt2 env (lm_Load1 l) @ '' '' @ ct_fmt2 env (lm_Load5 l) @ '' '' @ ct_fmt2 env (lm_Load15 l)]))
     @ (if sy_Disks r = [] then []
        else line [] @ tab_flush (row [''MOUNT'', ''TOTAL'', ''AVAILABLE'', ''USED'']
          @ concat (map (\<lambda>d. row [dm_MountPoint d, HumanBytes (dm_TotalBytes d), HumanBytes (dm_AvailableBytes d),
              HumanBytes (dm_UsedBytes d)]) (sy_Disks r))))"

definition statsCmd :: "('n, 'f, 'k, 'p) ctl_env \<Rightarrow> globals \<Rightarrow> string list \<Rightarrow> 'n ctl_step" where
  "statsCmd env g args = call_and_print env g (\<lambda>ctx cl. cl_Stats cl ctx) (stats_json env) (stats_text env)"

definition status_text :: "status_response \<Rightarrow> string" where
  "status_text r = tab_flush (row [''Name:'', us_resp_Name r] @ row [''Description:'', us_resp_Description r]
     @ row [''Active State:'', us_resp_ActiveState r] @ row [''Sub State:'', us_resp_SubState r]
     @ (if 0 < us_resp_MainPid r then row [''Main PID:'', show_nat (unat (us_resp_MainPid r))] else [])
     @ (if 0 < us_resp_MemoryBytes r then row [''Memory:'', HumanBytes (us_resp_MemoryBytes r)] else []))"

definition serviceStatusCmd :: "('n, 'f, 'k, 'p) ctl_env \<Rightarrow> globals \<Rightarrow> string list \<Rightarrow> 'n ctl_step" where
  "serviceStatusCmd env g args =
     (case args of
        [] \<Rightarrow> fail (Msg ''usage: hbctl service-status <unit-name>'')
      | name # _ \<Rightarrow> call_and_print env g (\<lambda>ctx cl. cl_ServiceStatus cl ctx name) (Inr \<circ> status_json) status_text)"

definition config_text :: "config_message option \<Rightarrow> string" where
  "config_text r =
     (case r of
        None \<Rightarrow> line ''no config''
      | Some c \<Rightarrow>
          tab_flush ((if cf_Hostname c = [] then [] else row [''Hostname:'', cf_Hostname c])
            @ (if cf_DnsServers c = [] then [] else row [''DNS Servers:'', join_with '', '' (cf_DnsServers c)])
            @ (if cf_KernelArgs c = [] then [] else row [''Kernel Args:'', join_with '' '' (cf_KernelArgs c)]))
          @ (case cf_Network c of
               None \<Rightarrow> []
             | Some is \<Rightarrow>
                 if is = [] then []
                 else line [] @ tab_flush (row [''INTERFACE'', ''DHCP'', ''ADDRESSES'', ''GATEWAY'', ''MTU'']
                   @ concat (map (\<lambda>i. row [im_Name i, yes_no (im_Dhcp i), join_with '', '' (im_Addresses i), im_Gateway i,
                       if 0 < im_Mtu i then show_nat (unat (im_Mtu i)) else []]) is))))"

definition configGetCmd :: "('n, 'f, 'k, 'p) ctl_env \<Rightarrow> globals \<Rightarrow> string list \<Rightarrow> 'n ctl_step" where
  "configGetCmd env g args = call_and_print env g (\<lambda>ctx cl. cl_GetConfig cl ctx) (Inr \<circ> config_json) config_text"

section \<open>The commands that change something\<close>

definition upgrade_text :: "upgrade_response \<Rightarrow> string" where
  "upgrade_text r = tab_flush (row [''Current Image:'', up_CurrentImage r] @ row [''Staged Image:'', up_StagedImage r]
     @ row [''Reboot Required:'', show_bool (up_RebootRequired r)])"

definition upgradeCmd :: "('n, 'f, 'k, 'p) ctl_env \<Rightarrow> globals \<Rightarrow> string list \<Rightarrow> 'n ctl_step" where
  "upgradeCmd env g args =
     Flags [(''image'', FStr [])] args (\<lambda>fl rest.
       if str_flag fl ''image'' = [] then fail (Msg ''usage: hbctl upgrade --image <image-ref>'')
       else call_and_print env g (\<lambda>ctx cl. cl_Upgrade cl ctx (str_flag fl ''image'')) (Inr \<circ> upgrade_json) upgrade_text)"

definition rollback_text :: "rollback_response \<Rightarrow> string" where
  "rollback_text r = tab_flush (row [''Current Image:'', rb_CurrentImage r] @ row [''Rollback Image:'', rb_RollbackImage r]
     @ row [''Reboot Required:'', show_bool (rb_RebootRequired r)])"

definition rollbackCmd :: "('n, 'f, 'k, 'p) ctl_env \<Rightarrow> globals \<Rightarrow> string list \<Rightarrow> 'n ctl_step" where
  "rollbackCmd env g args = call_and_print env g (\<lambda>ctx cl. cl_Rollback cl ctx) (Inr \<circ> rollback_json) rollback_text"

definition rebootCmd :: "('n, 'f, 'k, 'p) ctl_env \<Rightarrow> globals \<Rightarrow> string list \<Rightarrow> 'n ctl_step" where
  "rebootCmd env g args =
     withClient env g (\<lambda>ctx cl w.
       (case on_net (cl_Reboot cl ctx) w of
          (Some e, w) \<Rightarrow> fail e w
        | (None, w) \<Rightarrow> (Returned None, put_out (line ''reboot initiated'') w)))"

text \<open>\<open>json.Unmarshal\<close> into the configuration message; a \<open>null\<close> interface is sent as an empty message.\<close>

definition as_mtu :: "json \<Rightarrow> 32 word \<Rightarrow> error + 32 word" where
  "as_mtu v x =
     (case v of
        JNull \<Rightarrow> Inr x
      | JNum s \<Rightarrow>
          if s \<noteq> [] \<and> list_all is_digit s \<and> digits_val 0 s < 2 ^ 32 then Inr (of_nat (digits_val 0 s)) else Inl json_err
      | _ \<Rightarrow> Inl json_err)"

definition zero_interface :: interface_message where
  "zero_interface = \<lparr>im_Name = [], im_Dhcp = False, im_Addresses = [], im_Gateway = [], im_Mtu = 0\<rparr>"

definition as_interface :: "json \<Rightarrow> interface_message \<Rightarrow> error + interface_message" where
  "as_interface v i =
     (case v of
        JNull \<Rightarrow> Inr zero_interface
      | JObj ms \<Rightarrow>
          res_bind (json_field ''name'' as_string ms (im_Name i)) (\<lambda>n.
          res_bind (json_field ''dhcp'' as_bool ms (im_Dhcp i)) (\<lambda>d.
          res_bind (json_field ''addresses'' as_strings ms (im_Addresses i)) (\<lambda>a.
          res_bind (json_field ''gateway'' as_string ms (im_Gateway i)) (\<lambda>g.
          res_bind (json_field ''mtu'' as_mtu ms (im_Mtu i)) (\<lambda>m.
            Inr \<lparr>im_Name = n, im_Dhcp = d, im_Addresses = a, im_Gateway = g, im_Mtu = m\<rparr>)))))
      | _ \<Rightarrow> Inl json_err)"

fun dec_interfaces :: "json list \<Rightarrow> interface_message list \<Rightarrow> error + interface_message list" where
  "dec_interfaces [] old = Inr []"
| "dec_interfaces (v # vs) old =
     res_bind (as_interface v (case old of [] \<Rightarrow> zero_interface | x # r \<Rightarrow> x)) (\<lambda>i.
     res_bind (dec_interfaces vs (drop 1 old)) (\<lambda>is. Inr (i # is)))"

definition as_interfaces :: "json \<Rightarrow> interface_message list \<Rightarrow> error + interface_message list" where
  "as_interfaces v x = (case v of JNull \<Rightarrow> Inr [] | JArr vs \<Rightarrow> dec_interfaces vs x | _ \<Rightarrow> Inl json_err)"

definition as_network :: "json \<Rightarrow> interface_message list option \<Rightarrow> error + interface_message list option" where
  "as_network v x =
     (case v of
        JNull \<Rightarrow> Inr None
      | JObj ms \<Rightarrow>
          res_bind (json_field ''interfaces'' as_interfaces ms (case x of None \<Rightarrow> [] | Some is \<Rightarrow> is)) (\<lambda>is. Inr (Some is))
      | _ \<Rightarrow> Inl json_err)"

definition config_of_members :: "members \<Rightarrow> error + config_message" where
  "config_of_members ms =
     res_bind (json_field ''network'' as_network ms None) (\<lambda>net.
     res_bind (json_field ''hostname'' as_string ms []) (\<lambda>h.
     res_bind (json_field ''kernel_args'' as_strings ms []) (\<lambda>k.
     res_bind (json_field ''dns_servers'' as_strings ms []) (\<lambda>d.
     res_bind (json_field ''ntp_servers'' as_strings ms []) (\<lambda>t.
       Inr \<lparr>cf_Hostname = h, cf_KernelArgs = k, cf_DnsServers = d, cf_NtpServers = t, cf_Network = net\<rparr>)))))"

definition unmarshal_config :: "string \<Rightarrow> error + config_message" where
  "unmarshal_config data = res_bind (json_members_of data) config_of_members"

definition read_config :: "string \<Rightarrow> 'n ctl_world \<Rightarrow> (error + string) \<times> 'n ctl_world" where
  "read_config f w =
     (if f = ''-'' then (case cw_stdin w of Inl e \<Rightarrow> (Inl e, w) | Inr s \<Rightarrow> (Inr (take (2 ^ 20) s), w))
      else ctl_fs (ReadFile (path_clean f)) w)"

definition apply_text :: "apply_response \<Rightarrow> string" where
  "apply_text r =
     line (if as_RebootRequired r then ''Config applied. Reboot required for kernel arg changes.'' else ''Config applied.'')
     @ concat (map (\<lambda>x. line (''  warning: '' @ x)) (as_Warnings r))"

definition configApplyCmd :: "('n, 'f, 'k, 'p) ctl_env \<Rightarrow> globals \<Rightarrow> string list \<Rightarrow> 'n ctl_step" where
  "configApplyCmd env g args =
     Flags [(''f'', FStr [])] args (\<lambda>fl rest w.
       if str_flag fl ''f'' = [] then fail (Msg ''usage: hbctl config-apply -f <file.json>'') w
       else
         (case read_config (str_flag fl ''f'') w of
            (Inl e, w) \<Rightarrow> fail (Wrap ''read config'' e) w
          | (Inr data, w) \<Rightarrow>
              (case unmarshal_config data of
                 Inl e \<Rightarrow> fail (Wrap ''parse config'' e) w
               | Inr c \<Rightarrow>
                   call_and_print env g (\<lambda>ctx cl. cl_ApplyConfig cl ctx (Some c)) (Inr \<circ> apply_json) apply_text w)))"

section \<open>The streams\<close>

text \<open>
  The messages are printed as they come; an error of the JSON output is ignored. With \<open>-f\<close> the call has no deadline.
  The number of lines, an \<open>int\<close> of 64 bits, is cut to 32.
\<close>

definition print_message :: "globals \<Rightarrow> ('r \<Rightarrow> json) \<Rightarrow> ('r \<Rightarrow> string) \<Rightarrow> 'r \<Rightarrow> 'n ctl_world \<Rightarrow> 'n ctl_world" where
  "print_message g to_json text x w =
     (if JSON g then (case output_JSON (Inr (to_json x)) of Inl e \<Rightarrow> w | Inr s \<Rightarrow> put_out s w) else put_out (text x) w)"

definition print_stream ::
    "globals \<Rightarrow> ('r \<Rightarrow> json) \<Rightarrow> ('r \<Rightarrow> string) \<Rightarrow> error + ('r list \<times> error option) \<Rightarrow> 'n ctl_step" where
  "print_stream g to_json text r w =
     (case r of
        Inl e \<Rightarrow> fail e w
      | Inr (xs, e) \<Rightarrow> (Returned e, fold (print_message g to_json text) xs w))"

definition stream_time :: "bool \<Rightarrow> ctx_time \<Rightarrow> ctx_time" where
  "stream_time follow ctx = (if follow then None else ctx)"

definition logs_text :: "logs_response \<Rightarrow> string" where
  "logs_text e =
     (if lr_Unit e \<noteq> [] then line (lr_Timestamp e @ '' '' @ lr_Unit e @ '': '' @ lr_Message e)
      else line (lr_Timestamp e @ '' '' @ lr_Message e))"

definition logsCmd :: "('n, 'f, 'k, 'p) ctl_env \<Rightarrow> globals \<Rightarrow> string list \<Rightarrow> 'n ctl_step" where
  "logsCmd env g args =
     Flags [(''f'', FBool False), (''u'', FStr []), (''n'', FInt 100)] args (\<lambda>fl rest.
       withClient env g (\<lambda>ctx cl w.
         (case on_net (cl_Logs cl (stream_time (bool_flag fl ''f'') ctx)
                  \<lparr>lq_Follow = bool_flag fl ''f'', lq_Unit = str_flag fl ''u'', lq_Lines = word_of_int (int_flag fl ''n'')\<rparr>) w of
            (r, w) \<Rightarrow> print_stream g logs_json logs_text r w)))"

definition dmesg_text :: "dmesg_response \<Rightarrow> string" where
  "dmesg_text e = line (''['' @ dr_Priority e @ ''] '' @ dr_Message e)"

definition dmesgCmd :: "('n, 'f, 'k, 'p) ctl_env \<Rightarrow> globals \<Rightarrow> string list \<Rightarrow> 'n ctl_step" where
  "dmesgCmd env g args =
     Flags [(''f'', FBool False), (''n'', FInt 100)] args (\<lambda>fl rest.
       withClient env g (\<lambda>ctx cl w.
         (case on_net (cl_Dmesg cl (stream_time (bool_flag fl ''f'') ctx)
                  \<lparr>dq_Follow = bool_flag fl ''f'', dq_Lines = word_of_int (int_flag fl ''n'')\<rparr>) w of
            (r, w) \<Rightarrow> print_stream g dmesg_json dmesg_text r w)))"

section \<open>Enrolment\<close>

text \<open>The fingerprint pinned on the command line is compared with every certificate the server presents.\<close>

definition cert_fingerprint :: "(string \<Rightarrow> string) \<Rightarrow> string \<Rightarrow> string" where
  "cert_fingerprint sha256 raw = ''sha256:'' @ hex_encode (sha256 raw)"

definition verifyFingerprint :: "(string \<Rightarrow> string) \<Rightarrow> string \<Rightarrow> string list \<Rightarrow> error option" where
  "verifyFingerprint sha256 expected raw_certs =
     (case raw_certs of
        [] \<Rightarrow> Some (Msg ''server presented no certificate'')
      | c # cs \<Rightarrow>
          if list_ex (\<lambda>raw. cert_fingerprint sha256 raw = expected) raw_certs then None
          else Some (Msg (''fingerprint mismatch:'' @ [CHR 0x0A] @ ''  expected: '' @ expected @ [CHR 0x0A]
                 @ ''  got:      '' @ cert_fingerprint sha256 c)))"

text \<open>The files of the new identity, written in the order in which the range over the map visits the names.\<close>

fun write_certs :: "string \<Rightarrow> (string \<times> string) list \<Rightarrow> 'n ctl_world \<Rightarrow> error option \<times> 'n ctl_world" where
  "write_certs dir [] w = (None, w)"
| "write_certs dir ((n, d) # fs) w =
     (case ctl_fs (WriteFile (path_clean (dir @ ''/'' @ n)) d) w of
        (Some e, w) \<Rightarrow> (Some (Wrap (''write '' @ n) e), w)
      | (None, w) \<Rightarrow> write_certs dir fs w)"

definition cert_files :: "('n, 'f, 'k, 'p) ctl_env \<Rightarrow> bootstrap_response \<Rightarrow> string \<Rightarrow> (string \<times> string) list" where
  "cert_files env r key =
     (let data = [(''ca.crt'', bp_CaCert r), (''client.crt'', bp_ClientCert r), (''client.key'', key)] in
      map (\<lambda>n. (n, the (map_of data n))) (ct_order env (map fst data)))"

definition bootstrap_text :: "globals \<Rightarrow> string \<Rightarrow> bootstrap_response \<Rightarrow> string" where
  "bootstrap_text g dir r =
     line ''Bootstrap successful'' @ line (''  CA fingerprint: '' @ bp_CaFingerprint r)
     @ line (''  Certs written: '' @ dir @ ''/'') @ line []
     @ line ''Usage:'' @ line (''  hbctl --endpoint '' @ g_Endpoint g @ '' --tls-dir '' @ dir @ '' version'')"

definition enrol_with ::
    "('n, 'f, 'k, 'p) ctl_env \<Rightarrow> globals \<Rightarrow> string \<Rightarrow> string \<Rightarrow> ('n, 'f) machine_client \<Rightarrow> 'n ctl_step" where
  "enrol_with env g token dir cl w =
     (case GenerateCSR (ct_crypto env) (''hbctl-'' @ ct_hostname env) of
        Inl e \<Rightarrow> fail (Wrap ''generate CSR'' e) w
      | Inr (csr, key) \<Rightarrow>
          (case on_net (cl_BootstrapAuth cl (Some 30) \<lparr>bq_Token = token, bq_Csr = csr\<rparr>) w of
             (Inl e, w) \<Rightarrow> fail (Wrap ''bootstrap'' e) w
           | (Inr r, w) \<Rightarrow>
               (case ctl_fs (MkdirAll (path_clean dir)) w of
                  (Some e, w) \<Rightarrow> fail (Wrap ''create output dir'' e) w
                | (None, w) \<Rightarrow>
                    (case write_certs dir (cert_files env r key) w of
                       (Some e, w) \<Rightarrow> fail e w
                     | (None, w) \<Rightarrow> (Returned None, put_out (bootstrap_text g dir r) w)))))"

definition bootstrapCmd :: "('n, 'f, 'k, 'p) ctl_env \<Rightarrow> globals \<Rightarrow> string list \<Rightarrow> 'n ctl_step" where
  "bootstrapCmd env g args =
     Flags [(''token'', FStr []), (''ca-fingerprint'', FStr []), (''output-dir'', FStr [])] args (\<lambda>fl rest w.
       let token = str_flag fl ''token''; fp = str_flag fl ''ca-fingerprint''; dir = str_flag fl ''output-dir'' in
       if token = [] \<or> fp = [] \<or> dir = [] then
         fail (Msg ''usage: hbctl bootstrap --token <token> --ca-fingerprint sha256:<hex> --output-dir <dir>'') w
       else
         (case ct_dial env (g_Endpoint g) (SkipVerify (verifyFingerprint (ct_sha256 env) fp)) of
            Inl e \<Rightarrow> fail (Wrap ''connect'' e) w
          | Inr cl \<Rightarrow> enrol_with env g token dir cl w))"

definition token_hash :: "(string \<Rightarrow> string) \<Rightarrow> string \<Rightarrow> string" where
  "token_hash sha256 token = ''sha256:'' @ hex_encode (sha256 token)"

definition gen_token_text :: "string \<Rightarrow> string \<Rightarrow> string" where
  "gen_token_text token hash =
     line (''Token: '' @ token) @ line (''Hash:  '' @ hash) @ line [] @ line ''On the node:''
     @ line (''  echo '' @ [CHR 0x27] @ hash @ [CHR 0x27] @ '' > /var/lib/hummingbird/pki/bootstrap-token-hash'')"

definition genTokenCmd :: "('n, 'f, 'k, 'p) ctl_env \<Rightarrow> globals \<Rightarrow> string list \<Rightarrow> 'n ctl_step" where
  "genTokenCmd env g args w =
     (case ct_random32 env of
        Inl e \<Rightarrow> fail (Wrap ''generate random'' e) w
      | Inr b \<Rightarrow>
          let token = hex_encode b in
          (Returned None, put_out (gen_token_text token (token_hash (ct_sha256 env) token)) w))"

section \<open>The program\<close>

definition ctl_commands :: "('n, 'f, 'k, 'p) ctl_env \<Rightarrow> 'n ctl_world command list" where
  "ctl_commands env =
     [\<lparr>c_Name = ''version'', c_Help = ''Show agent and OS version'', c_Run = versionCmd env\<rparr>,
      \<lparr>c_Name = ''health'', c_Help = ''Show node health status'', c_Run = healthCmd env\<rparr>,
      \<lparr>c_Name = ''stats'', c_Help = ''Show system resource stats'', c_Run = statsCmd env\<rparr>,
      \<lparr>c_Name = ''logs'', c_Help = ''Stream journal logs'', c_Run = logsCmd env\<rparr>,
      \<lparr>c_Name = ''dmesg'', c_Help = ''Stream kernel logs'', c_Run = dmesgCmd env\<rparr>,
      \<lparr>c_Name = ''service-status'', c_Help = ''Show systemd unit status'', c_Run = serviceStatusCmd env\<rparr>,
      \<lparr>c_Name = ''config-get'', c_Help = ''Show current machine config'', c_Run = configGetCmd env\<rparr>,
      \<lparr>c_Name = ''config-apply'', c_Help = ''Apply machine configuration from JSON'', c_Run = configApplyCmd env\<rparr>,
      \<lparr>c_Name = ''upgrade'', c_Help = ''Stage OS image upgrade'', c_Run = upgradeCmd env\<rparr>,
      \<lparr>c_Name = ''rollback'', c_Help = ''Rollback to previous OS image'', c_Run = rollbackCmd env\<rparr>,
      \<lparr>c_Name = ''reboot'', c_Help = ''Reboot the node'', c_Run = rebootCmd env\<rparr>,
      \<lparr>c_Name = ''bootstrap'', c_Help = ''Bootstrap mTLS credentials from a node'', c_Run = bootstrapCmd env\<rparr>,
      \<lparr>c_Name = ''gen-token'', c_Help = ''Generate a bootstrap token and its hash'', c_Run = genTokenCmd env\<rparr>]"

definition ctl_app :: "('n, 'f, 'k, 'p) ctl_env \<Rightarrow> 'n ctl_world app" where
  "ctl_app env = cli_Register (ctl_commands env) (cli_New put_err ''hbctl'' ''Hummingbird node management CLI'')"

text \<open>The exit status: 1 after an error, which is not printed.\<close>

definition ctl_main :: "('n, 'f, 'k, 'p) ctl_env \<Rightarrow> environment \<Rightarrow> string list \<Rightarrow> 'n ctl_world \<Rightarrow> nat \<times> 'n ctl_world" where
  "ctl_main env os_env os_args w =
     (case cli_Run os_env (ctl_app env) os_args w of
        (ExitsWith n, w) \<Rightarrow> (n, w)
      | (Returned (Some e), w) \<Rightarrow> (1, w)
      | (Returned None, w) \<Rightarrow> (0, w))"

section \<open>What a run prints and sends\<close>

text \<open>
  A step that never writes to the standard error, and to the standard output only when it does not return an error.
\<close>

definition no_stderr :: "'n ctl_step \<Rightarrow> bool" where
  "no_stderr f \<longleftrightarrow> (\<forall>w. cw_err (snd (f w)) = cw_err w)"

definition silent_errors :: "'n ctl_step \<Rightarrow> bool" where
  "silent_errors f \<longleftrightarrow> no_stderr f \<and> (\<forall>w. fst (f w) \<noteq> Returned None \<longrightarrow> cw_out (snd (f w)) = cw_out w)"

lemma silent_errors_D:
  "silent_errors f \<Longrightarrow> cw_err (snd (f w)) = cw_err w"
  "silent_errors f \<Longrightarrow> fst (f w) \<noteq> Returned None \<Longrightarrow> cw_out (snd (f w)) = cw_out w"
  by (simp_all add: silent_errors_def no_stderr_def)

named_theorems silent "steps that report no error"

lemma ctl_fs_frame [simp]:
  "cw_err (snd (ctl_fs f w)) = cw_err w" "cw_out (snd (ctl_fs f w)) = cw_out w" "cw_net (snd (ctl_fs f w)) = cw_net w"
  "cw_stdin (snd (ctl_fs f w)) = cw_stdin w"
  by (simp_all add: ctl_fs_def split: prod.split)

lemma on_net_frame [simp]:
  "cw_err (snd (on_net f w)) = cw_err w" "cw_out (snd (on_net f w)) = cw_out w" "cw_fs (snd (on_net f w)) = cw_fs w"
  "cw_net (snd (on_net f w)) = snd (f (cw_net w))"
  by (simp_all add: on_net_def split: prod.split)

lemma put_out_frame [simp]:
  "cw_err (put_out s w) = cw_err w" "cw_net (put_out s w) = cw_net w" "cw_fs (put_out s w) = cw_fs w"
  by (simp_all add: put_out_def)

lemma ctl_fs_pair: "ctl_fs f w = (r, w') \<Longrightarrow> cw_err w' = cw_err w \<and> cw_out w' = cw_out w \<and> cw_net w' = cw_net w"
  using ctl_fs_frame[of f w] by simp

lemma on_net_pair: "on_net f w = (r, w') \<Longrightarrow>
    cw_err w' = cw_err w \<and> cw_out w' = cw_out w \<and> cw_fs w' = cw_fs w \<and> (r, cw_net w') = f (cw_net w)"
  by (auto simp: on_net_def split: prod.splits)

lemma fail_silent [silent]: "silent_errors (fail e)"
  by (simp add: silent_errors_def no_stderr_def fail_def)

lemma respond_silent [silent]: "silent_errors (respond g to_json text r)"
  by (auto simp: silent_errors_def no_stderr_def respond_def fail_def split: sum.split)

lemma withClient_silent [silent]: "(\<And>ctx cl. silent_errors (fn ctx cl)) \<Longrightarrow> silent_errors (withClient env g fn)"
  by (auto simp: silent_errors_def no_stderr_def withClient_def fail_def dest!: ctl_fs_pair split: prod.split sum.split)

lemma withClient_no_stderr: "(\<And>ctx cl. no_stderr (fn ctx cl)) \<Longrightarrow> no_stderr (withClient env g fn)"
  by (auto simp: no_stderr_def withClient_def fail_def dest!: ctl_fs_pair split: prod.split sum.split)

lemma on_net_silent [silent]: "(\<And>r. silent_errors (k r)) \<Longrightarrow> silent_errors (\<lambda>w. case on_net f w of (r, w) \<Rightarrow> k r w)"
  by (auto simp: silent_errors_def no_stderr_def dest!: on_net_pair split: prod.split)

lemma on_net_no_stderr: "(\<And>r. no_stderr (k r)) \<Longrightarrow> no_stderr (\<lambda>w. case on_net f w of (r, w) \<Rightarrow> k r w)"
  by (auto simp: no_stderr_def dest!: on_net_pair split: prod.split)

lemma call_silent [silent]: "silent_errors (call_and_print env g call to_json text)"
  unfolding call_and_print_def by (intro silent)

lemma Flags_silent [silent]: "(\<And>fl rest. silent_errors (f fl rest)) \<Longrightarrow> silent_errors (Flags decls args f)"
  by (auto simp: silent_errors_def no_stderr_def Flags_def split: flag_outcome.split)

lemma Flags_no_stderr: "(\<And>fl rest. no_stderr (f fl rest)) \<Longrightarrow> no_stderr (Flags decls args f)"
  by (auto simp: no_stderr_def Flags_def split: flag_outcome.split)

lemma print_stream_no_stderr: "no_stderr (print_stream g to_json text r)"
proof -
  have "cw_err (fold (print_message g to_json text) xs w) = cw_err w" for xs w
    by (induction xs arbitrary: w) (auto simp: print_message_def split: sum.split)
  then show ?thesis by (auto simp: no_stderr_def print_stream_def fail_def split: sum.split)
qed

lemma write_certs_frame:
  "write_certs dir fs w = (r, w') \<Longrightarrow> cw_err w' = cw_err w \<and> cw_out w' = cw_out w \<and> cw_net w' = cw_net w"
proof (induction fs arbitrary: w)
  case (Cons f fs)
  then show ?case by (cases f) (auto split: prod.splits option.splits dest!: ctl_fs_pair)
qed simp

lemma silent_if [silent]: "silent_errors f \<Longrightarrow> silent_errors g \<Longrightarrow> silent_errors (\<lambda>w. if b then f w else g w)"
  by (simp add: silent_errors_def no_stderr_def)

lemma enrol_with_silent: "silent_errors (enrol_with env g token dir cl)"
  by (auto simp: silent_errors_def no_stderr_def enrol_with_def fail_def dest!: ctl_fs_pair on_net_pair write_certs_frame
      split: prod.split sum.split option.split)

lemma reboot_silent: "silent_errors (rebootCmd env g args)"
  unfolding rebootCmd_def
  by (intro silent) (auto simp: silent_errors_def no_stderr_def fail_def dest!: on_net_pair split: prod.split option.split)

lemma read_config_frame: "read_config f w = (r, w') \<Longrightarrow> cw_err w' = cw_err w \<and> cw_out w' = cw_out w \<and> cw_net w' = cw_net w"
  by (auto simp: read_config_def dest: ctl_fs_pair split: if_splits sum.splits)

lemma config_apply_silent: "silent_errors (configApplyCmd env g args)"
proof -
  have "silent_errors (call_and_print env g (\<lambda>ctx cl. cl_ApplyConfig cl ctx (Some c)) (Inr \<circ> apply_json) apply_text)" for c
    by (rule call_silent)
  note this[THEN silent_errors_D(1)] this[THEN silent_errors_D(2)]
  then show ?thesis
    unfolding configApplyCmd_def
    by (intro silent) (auto simp: silent_errors_def no_stderr_def fail_def dest!: read_config_frame split: prod.split sum.split)
qed

lemma bootstrap_silent: "silent_errors (bootstrapCmd env g args)"
  unfolding bootstrapCmd_def Let_def
  by (intro silent) (auto simp: silent_errors_def no_stderr_def fail_def silent_errors_D[OF enrol_with_silent] split: sum.split)

lemma gen_token_silent: "silent_errors (genTokenCmd env g args)"
  by (auto simp: silent_errors_def no_stderr_def fail_def genTokenCmd_def Let_def split: sum.split)

lemma stream_commands_no_stderr: "no_stderr (logsCmd env g args)" "no_stderr (dmesgCmd env g args)"
  unfolding logsCmd_def dmesgCmd_def
  by (intro Flags_no_stderr withClient_no_stderr on_net_no_stderr print_stream_no_stderr)+

definition streaming_commands :: "string set" where
  "streaming_commands = {''logs'', ''dmesg''}"

lemma command_silent:
  assumes "c \<in> set (ctl_commands env)"
  shows "no_stderr (c_Run c g args)" "c_Name c \<notin> streaming_commands \<Longrightarrow> silent_errors (c_Run c g args)"
proof -
  have s: "silent_errors (versionCmd env g args)" "silent_errors (healthCmd env g args)" "silent_errors (statsCmd env g args)"
    "silent_errors (configGetCmd env g args)" "silent_errors (rollbackCmd env g args)"
    unfolding versionCmd_def healthCmd_def statsCmd_def configGetCmd_def rollbackCmd_def by (rule call_silent)+
  have u: "silent_errors (upgradeCmd env g args)" unfolding upgradeCmd_def by (intro silent) (auto intro: silent)
  have v: "silent_errors (serviceStatusCmd env g args)" unfolding serviceStatusCmd_def by (cases args) (auto intro: silent)
  note all = s u v reboot_silent[of env g args] config_apply_silent[of env g args] bootstrap_silent[of env g args]
    gen_token_silent[of env g args]
  show "c_Name c \<notin> streaming_commands \<Longrightarrow> silent_errors (c_Run c g args)"
    using assms all by (auto simp: ctl_commands_def streaming_commands_def)
  show "no_stderr (c_Run c g args)"
    using assms all stream_commands_no_stderr[of env g args] by (auto simp: ctl_commands_def silent_errors_def)
qed

section \<open>Running a command\<close>

definition command_names :: "string set" where
  "command_names = {''version'', ''health'', ''stats'', ''logs'', ''dmesg'', ''service-status'', ''config-get'',
     ''config-apply'', ''upgrade'', ''rollback'', ''reboot'', ''bootstrap'', ''gen-token''}"

lemma command_names: "c_Name ` set (ctl_commands env) = command_names"
  by (simp add: ctl_commands_def command_names_def)

lemma command_found:
  assumes "list_all2 spelled ss wss" "cmd \<in> command_names"
  obtains c where "c \<in> set (ctl_commands env)" "c_Name c = cmd"
    "cli_Run os_env (ctl_app env) (prog # concat wss @ cmd # args) w = c_Run c (fold apply_setting ss (default_globals os_env)) args w"
proof -
  let ?cs = "ctl_commands env"
  have "find (\<lambda>c. c_Name c = cmd) ?cs \<noteq> None"
    using assms(2) unfolding find_None_iff command_names[of env, symmetric] by auto
  then obtain c where c: "find (\<lambda>c. c_Name c = cmd) ?cs = Some c" by blast
  then have mem: "c \<in> set ?cs" "c_Name c = cmd" by (auto simp: find_Some_iff)
  have w: "command_word cmd" "\<not> asks_help cmd"
    using assms(2) by (auto simp: command_names_def command_word_def has_prefix_def asks_help_def)
  show thesis
    by (rule that[OF mem])
      (simp add: cli_Run_def cli_parse_def parse_settings[OF assms(1)] parse_command[OF w(1)] w(2) c ctl_app_def cli_Register_def
        cli_New_def del: parse_globals.simps)
qed


section \<open>The requests\<close>

text \<open>What a client does to the network for a request; the enrolment is not one of these.\<close>

fun client_step :: "('n, 'f) machine_client \<Rightarrow> ctx_time \<Rightarrow> rpc \<Rightarrow> 'n \<Rightarrow> 'n" where
  "client_step cl t Version n = snd (cl_Version cl t n)"
| "client_step cl t Health n = snd (cl_Health cl t n)"
| "client_step cl t Stats n = snd (cl_Stats cl t n)"
| "client_step cl t (ServiceStatus u) n = snd (cl_ServiceStatus cl t u n)"
| "client_step cl t GetConfig n = snd (cl_GetConfig cl t n)"
| "client_step cl t (ApplyConfig c) n = snd (cl_ApplyConfig cl t c n)"
| "client_step cl t (Upgrade i) n = snd (cl_Upgrade cl t i n)"
| "client_step cl t Rollback n = snd (cl_Rollback cl t n)"
| "client_step cl t Reboot n = snd (cl_Reboot cl t n)"
| "client_step cl t (Control q) n = n"
| "client_step cl t (Logs q) n = snd (cl_Logs cl t q n)"
| "client_step cl t (Dmesg q) n = snd (cl_Dmesg cl t q n)"

text \<open>The requests a command may send, and the time it allows: half a minute, and no limit for a stream that follows.\<close>

inductive command_request :: "string \<Rightarrow> string list \<Rightarrow> rpc \<Rightarrow> ctx_time \<Rightarrow> bool" where
  "command_request ''version'' args Version (Some 30)"
| "command_request ''health'' args Health (Some 30)"
| "command_request ''stats'' args Stats (Some 30)"
| "command_request ''service-status'' (u # args) (ServiceStatus u) (Some 30)"
| "command_request ''config-get'' args GetConfig (Some 30)"
| "command_request ''config-apply'' args (ApplyConfig (Some c)) (Some 30)"
| "i \<noteq> [] \<Longrightarrow> command_request ''upgrade'' args (Upgrade i) (Some 30)"
| "command_request ''rollback'' args Rollback (Some 30)"
| "command_request ''reboot'' args Reboot (Some 30)"
| "command_request ''logs'' args (Logs q) (if lq_Follow q then None else Some 30)"
| "command_request ''dmesg'' args (Dmesg q) (if dq_Follow q then None else Some 30)"

text \<open>The network after a step: as it was, or after one request of a client with the credentials of the directory.\<close>

definition one_request ::
    "('n, 'f, 'k, 'p) ctl_env \<Rightarrow> globals \<Rightarrow> (rpc \<Rightarrow> ctx_time \<Rightarrow> bool) \<Rightarrow> 'n ctl_step \<Rightarrow> bool" where
  "one_request env g P f \<longleftrightarrow>
     (\<forall>w. cw_net (snd (f w)) = cw_net w \<or>
        (\<exists>s tls cl q t. fst (loadClientTLS (ct_key_pair env) (ct_is_pool env) (g_TLSDir g) s) = Inr tls
           \<and> ct_dial env (g_Endpoint g) (MutualTLS tls) = Inr cl \<and> P q t \<and> cw_net (snd (f w)) = client_step cl t q (cw_net w)))"

lemma withClient_request:
  fixes env :: "('n, 'f, 'k, 'p) ctl_env"
  assumes "\<And>cl w. cw_net (snd (fn (Some 30) cl w)) = cw_net w \<or> (\<exists>q t. P q t \<and> cw_net (snd (fn (Some 30) cl w)) = client_step cl t q (cw_net w))"
  shows "one_request env g P (withClient env g fn)"
  unfolding one_request_def
proof
  fix w :: "'n ctl_world"
  let ?c = "\<lparr>cc_Endpoint = g_Endpoint g, cc_TLSDir = g_TLSDir g\<rparr>"
  obtain r w1 where r: "ctl_fs (Connect (ct_dial env) (ct_key_pair env) (ct_is_pool env) ?c) w = (r, w1)" by fastforce
  then have n: "cw_net w1 = cw_net w" by (simp add: ctl_fs_pair)
  show "cw_net (snd (withClient env g fn w)) = cw_net w \<or>
        (\<exists>s tls cl q t. fst (loadClientTLS (ct_key_pair env) (ct_is_pool env) (g_TLSDir g) s) = Inr tls
           \<and> ct_dial env (g_Endpoint g) (MutualTLS tls) = Inr cl \<and> P q t
           \<and> cw_net (snd (withClient env g fn w)) = client_step cl t q (cw_net w))"
  proof (cases r)
    case (Inl e)
    with r n show ?thesis by (simp add: withClient_def fail_def)
  next
    case (Inr cl)
    from r[unfolded Inr] obtain tls where
      "fst (loadClientTLS (ct_key_pair env) (ct_is_pool env) (g_TLSDir g) (cw_fs w)) = Inr tls"
      "ct_dial env (g_Endpoint g) (MutualTLS tls) = Inr cl"
      by (auto simp: ctl_fs_def Connect_def wrap_err_Inr_iff split: prod.splits sum.splits)
    moreover have "snd (withClient env g fn w) = snd (fn (Some 30) cl w1)" using r Inr by (simp add: withClient_def)
    ultimately show ?thesis using assms[of cl w1] n by metis
  qed
qed

lemma respond_net [simp]: "cw_net (snd (respond g to_json text r w)) = cw_net w"
  by (auto simp: respond_def fail_def split: sum.split)

lemma print_stream_net [simp]: "cw_net (snd (print_stream g to_json text r w)) = cw_net w"
proof -
  have "cw_net (fold (print_message g to_json text) xs w) = cw_net w" for xs w
    by (induction xs arbitrary: w) (auto simp: print_message_def split: sum.split)
  then show ?thesis by (auto simp: print_stream_def fail_def split: sum.split)
qed

lemma on_net_call:
  assumes "\<And>r w. cw_net (snd (k r w)) = cw_net w"
  shows "cw_net (snd (case on_net f w of (r, w) \<Rightarrow> k r w)) = snd (f (cw_net w))"
  using assms by (simp add: on_net_def split: prod.split)

lemma call_request:
  assumes "P q (Some 30)" "\<And>cl n. client_step cl (Some 30) q n = snd (call (Some 30) cl n)"
  shows "one_request env g P (call_and_print env g call to_json text)"
  unfolding call_and_print_def
  by (rule withClient_request, rule disjI2, rule exI[of _ q], rule exI[of _ "Some 30"]) (simp add: on_net_call assms)

lemma Flags_request:
  assumes "\<And>fl rest. one_request env g P (f fl rest)"
  shows "one_request env g P (Flags decls args f)"
  using assms by (auto simp: one_request_def Flags_def split: flag_outcome.split)

lemma fail_request: "one_request env g P (fail e)"
  by (simp add: one_request_def fail_def)

lemma one_request_at:
  "one_request env g P f \<Longrightarrow> cw_net w = cw_net v \<Longrightarrow> cw_net (snd (f w)) = cw_net v \<or>
      (\<exists>s tls cl q t. fst (loadClientTLS (ct_key_pair env) (ct_is_pool env) (g_TLSDir g) s) = Inr tls
           \<and> ct_dial env (g_Endpoint g) (MutualTLS tls) = Inr cl \<and> P q t \<and> cw_net (snd (f w)) = client_step cl t q (cw_net v))"
  unfolding one_request_def by metis

lemma config_apply_request:
  fixes env :: "('n, 'f, 'k, 'p) ctl_env"
  shows "one_request env g (command_request ''config-apply'' args) (\<lambda>w.
       if str_flag fl ''f'' = [] then fail (Msg ''usage: hbctl config-apply -f <file.json>'') w
       else
         (case read_config (str_flag fl ''f'') w of
            (Inl e, w) \<Rightarrow> fail (Wrap ''read config'' e) w
          | (Inr data, w) \<Rightarrow>
              (case unmarshal_config data of
                 Inl e \<Rightarrow> fail (Wrap ''parse config'' e) w
               | Inr c \<Rightarrow>
                   call_and_print env g (\<lambda>ctx cl. cl_ApplyConfig cl ctx (Some c)) (Inr \<circ> apply_json) apply_text w)))"
    (is "one_request env g ?P ?f")
  unfolding one_request_def
proof
  fix w :: "'n ctl_world"
  obtain r v where r: "read_config (str_flag fl ''f'') w = (r, v)" by fastforce
  then have n: "cw_net v = cw_net w" by (simp add: read_config_frame)
  have "one_request env g ?P (call_and_print env g (\<lambda>ctx cl. cl_ApplyConfig cl ctx (Some c)) (Inr \<circ> apply_json) apply_text)" for c
    by (rule call_request, rule command_request.intros) simp
  from one_request_at[OF this n]
  show "cw_net (snd (?f w)) = cw_net w \<or>
      (\<exists>s tls cl q t. fst (loadClientTLS (ct_key_pair env) (ct_is_pool env) (g_TLSDir g) s) = Inr tls
           \<and> ct_dial env (g_Endpoint g) (MutualTLS tls) = Inr cl \<and> ?P q t \<and> cw_net (snd (?f w)) = client_step cl t q (cw_net w))"
    unfolding r by (simp add: fail_def n split: sum.split)
qed

lemma command_requests:
  assumes "c \<in> set (ctl_commands env)" "c_Name c \<noteq> ''bootstrap''"
  shows "one_request env g (command_request (c_Name c) args) (c_Run c g args)"
proof -
  have stream: "one_request env g P (withClient env g (\<lambda>ctx cl w. case on_net (f ctx cl) w of (r, w) \<Rightarrow> print_stream g j x r w))"
    if "P q t" "\<And>cl n. client_step cl t q n = snd (f (Some 30) cl n)" for P q t and f :: "ctx_time \<Rightarrow> _" and j x
    by (rule withClient_request, rule disjI2, rule exI[of _ q], rule exI[of _ t]) (simp_all add: on_net_call that)
  have "one_request env g (command_request ''version'' args) (versionCmd env g args)"
    "one_request env g (command_request ''health'' args) (healthCmd env g args)"
    "one_request env g (command_request ''stats'' args) (statsCmd env g args)"
    "one_request env g (command_request ''config-get'' args) (configGetCmd env g args)"
    "one_request env g (command_request ''rollback'' args) (rollbackCmd env g args)"
    unfolding versionCmd_def healthCmd_def statsCmd_def configGetCmd_def rollbackCmd_def
    by (rule call_request, rule command_request.intros, simp)+
  moreover have "one_request env g (command_request ''service-status'' args) (serviceStatusCmd env g args)"
    by (cases args) (auto simp: serviceStatusCmd_def intro: fail_request call_request command_request.intros)
  moreover have "one_request env g (command_request ''upgrade'' args) (upgradeCmd env g args)"
    unfolding upgradeCmd_def by (rule Flags_request) (auto intro: fail_request call_request command_request.intros)
  moreover have "one_request env g (command_request ''reboot'' args) (rebootCmd env g args)"
    unfolding rebootCmd_def
    by (rule withClient_request, rule disjI2, rule exI[of _ Reboot], rule exI[of _ "Some 30"])
      (auto simp: fail_def on_net_def intro: command_request.intros split: prod.split option.split)
  moreover have "one_request env g (command_request ''config-apply'' args) (configApplyCmd env g args)"
    unfolding configApplyCmd_def by (rule Flags_request) (rule config_apply_request)
  moreover have "one_request env g (command_request ''logs'' args) (logsCmd env g args)"
    unfolding logsCmd_def
  proof (rule Flags_request, rule stream)
    fix fl :: flags
    let ?q = "\<lparr>lq_Follow = bool_flag fl ''f'', lq_Unit = str_flag fl ''u'', lq_Lines = word_of_int (int_flag fl ''n'')\<rparr>"
    show "command_request ''logs'' args (Logs ?q) (if lq_Follow ?q then None else Some 30)" by (rule command_request.intros)
  qed (simp add: stream_time_def)
  moreover have "one_request env g (command_request ''dmesg'' args) (dmesgCmd env g args)"
    unfolding dmesgCmd_def
  proof (rule Flags_request, rule stream)
    fix fl :: flags
    let ?q = "\<lparr>dq_Follow = bool_flag fl ''f'', dq_Lines = word_of_int (int_flag fl ''n'')\<rparr>"
    show "command_request ''dmesg'' args (Dmesg ?q) (if dq_Follow ?q then None else Some 30)" by (rule command_request.intros)
  qed (simp add: stream_time_def)
  moreover have "one_request env g (command_request ''gen-token'' args) (genTokenCmd env g args)"
    by (auto simp: one_request_def genTokenCmd_def fail_def Let_def split: sum.split)
  ultimately show ?thesis using assms by (auto simp: ctl_commands_def)
qed

text \<open>
  a command with its arguments sends at most one request, of its own kind, to the endpoint the global flags name and
  only with the credentials loaded from the directory they name, so that nothing reaches a node when an argument is
  missing or the credentials cannot be loaded; no command but the enrolment connects in any other way.
\<close>

theorem commands_send_one_request:
  assumes "c \<in> set (ctl_commands env)" "c_Name c \<noteq> ''bootstrap''"
  shows "one_request env g (command_request (c_Name c) args) (c_Run c g args)"
  by (rule command_requests[OF assms])

end
