(* ===== verification/Hbctl_Props.thy ===== *)
theory Hbctl_Props
  imports Hbctl "HOL-Library.Multiset"
begin

text \<open>
  What the commands of \<open>hbctl\<close> promise beyond a single call: the pinned fingerprint, the generated token, the identity
  the enrolment leaves on the disk, and the JSON form of a configuration; with the examples for these and for the
  properties of \<open>Hbctl\<close>.
\<close>

section \<open>The pinned fingerprint\<close>

lemma hex_encode_inject: "hex_encode a = hex_encode b \<longleftrightarrow> a = b"
proof
  assume "hex_encode a = hex_encode b"
  then have "hex_decode (hex_encode a) = hex_decode (hex_encode b)" by simp
  then show "a = b" by simp
qed simp

lemma verifyFingerprint_iff:
  "verifyFingerprint sha256 x raws = None \<longleftrightarrow> (\<exists>raw\<in>set raws. cert_fingerprint sha256 raw = x)"
  by (cases raws) (auto simp: verifyFingerprint_def list_ex_iff)

lemma fingerprint_of_file:
  assumes "fst (ReadFile p s) = Inr pem" "pem_decode cr pem = Some (ty, der)"
  shows "fst (fingerprint sha256 cr a b p s) = Inr (cert_fingerprint sha256 der)"
  using assms by (auto simp: fingerprint_def cert_fingerprint_def split: prod.splits sum.splits)

text \<open>
  C36: the value of \<open>--ca-fingerprint\<close> that lets the enrolment connect is the fingerprint the agent logs for its own
  certificate, since that is the one it presents; the fingerprint of the authority, which the flag and the message
  after the enrolment name, is refused, unless the two certificates have the same hash.
\<close>

theorem bootstrap_pins_server:
  assumes "fst (ReadFile (path_join dir serverCertFile) s) = Inr pem" "pem_decode cr pem = Some (ty, der)"
    and "fst (ReadFile (path_join dir caFile) s) = Inr ca_pem" "pem_decode cr ca_pem = Some (ty', ca_der)"
  shows "(verifyFingerprint sha256 x [der] = None \<longleftrightarrow> fst (ServerFingerprint sha256 cr dir s) = Inr x)
    \<and> ((\<exists>y. fst (CAFingerprint sha256 cr dir s) = Inr y \<and> verifyFingerprint sha256 y [der] = None) \<longleftrightarrow> sha256 ca_der = sha256 der)"
  unfolding verifyFingerprint_iff ServerFingerprint_def CAFingerprint_def
    fingerprint_of_file[OF assms(1,2)] fingerprint_of_file[OF assms(3,4)]
  by (auto simp: cert_fingerprint_def hex_encode_inject)

section \<open>A generated token\<close>

text \<open>
  C37: what \<open>gen-token\<close> prints fits together: when its hash is in the node's file, as the command it prints puts it
  there, its token enrols a client.
\<close>

theorem gen_token_accepted:
  assumes "ct_random32 env = Inr b" "calm s" "\<not> spent (NewManager dir) s"
    and "file_at s (hash_path (NewManager dir)) = Some (token_hash (ct_sha256 env) (hex_encode b) @ [CHR 0x0A])"
    and "file_at s (path_join dir caFile) = Some ca" "csr \<noteq> []" "fst (SignCSR cr dir csr s) = Inr pem"
    and "pem_decode cr pem = Some (ty, der)" "parse_cert cr der = Inr cert"
  shows "genTokenCmd env g args w =
        (Returned None, put_out (gen_token_text (hex_encode b) (token_hash (ct_sha256 env) (hex_encode b))) w)
    \<and> fst (Bootstrap (ct_sha256 env) cr (hex_encode b) csr (NewManager dir) s) = Ret (Inr \<lparr>br_ca_cert = ca, br_client_cert = pem\<rparr>)"
proof
  show "genTokenCmd env g args w =
        (Returned None, put_out (gen_token_text (hex_encode b) (token_hash (ct_sha256 env) (hex_encode b))) w)"
    by (simp add: genTokenCmd_def assms(1) Let_def)
  have "stored_hash (token_hash (ct_sha256 env) (hex_encode b) @ [CHR 0x0A]) = Some (ct_sha256 env (hex_encode b))"
    unfolding token_hash_def append_assoc by (rule stored_hash_written)
  then show "fst (Bootstrap (ct_sha256 env) cr (hex_encode b) csr (NewManager dir) s) = Ret (Inr \<lparr>br_ca_cert = ca, br_client_cert = pem\<rparr>)"
    using Bootstrap_accepts[OF assms(2,3) _ assms(4), of "ct_sha256 env" "hex_encode b" ca csr cr pem ty der cert] assms
    by (simp add: NewManager_def maxAttempts_def)
qed

section \<open>The files of a new identity\<close>

lemma write_certs_done:
  assumes "write_certs dir fs w = (None, w')" "distinct (map fst fs)" "\<forall>n\<in>fst ` set fs. plain_name n" "dir \<noteq> []"
  shows "(\<forall>(n, d)\<in>set fs. file_at (cw_fs w') (path_join dir n) = Some d)
    \<and> (\<forall>p. p \<notin> path_join dir ` fst ` set fs \<longrightarrow> file_at (cw_fs w') p = file_at (cw_fs w) p)"
  using assms
proof (induction fs arbitrary: w)
  case (Cons x fs)
  obtain n d where x: "x = (n, d)" by fastforce
  with Cons.prems(3,4) have p: "path_clean (dir @ ''/'' @ n) = path_join dir n" by (auto simp: path_join_def plain_name_def)
  obtain e s where wr: "WriteFile (path_join dir n) d (cw_fs w) = (e, s)" by fastforce
  from Cons.prems(1) have e: "e = None" and rest: "write_certs dir fs (w\<lparr>cw_fs := s\<rparr>) = (None, w')"
    unfolding x by (simp_all add: p ctl_fs_def wr del: append.simps split: option.splits)
  note ih = Cons.IH[OF rest]
  have other: "file_at s q = file_at (cw_fs w) q" if "q \<noteq> path_join dir n" for q
    using write_frame[OF that, of d "cw_fs w"] wr by simp
  have new: "file_at s (path_join dir n) = Some d" using write_done[of "path_join dir n" d "cw_fs w"] wr e by simp
  have fresh: "path_join dir n \<notin> path_join dir ` fst ` set fs"
  proof
    assume "path_join dir n \<in> path_join dir ` fst ` set fs"
    then obtain y where y: "y \<in> set fs" "path_join dir n = path_join dir (fst y)" by blast
    moreover have "plain_name n" "plain_name (fst y)" using Cons.prems(3) x y(1) by auto
    ultimately have "n = fst y" by simp
    with y(1) Cons.prems(2) x show False by auto
  qed
  from Cons.prems have ih: "\<forall>(n, d)\<in>set fs. file_at (cw_fs w') (path_join dir n) = Some d"
    "\<forall>p. p \<notin> path_join dir ` fst ` set fs \<longrightarrow> file_at (cw_fs w') p = file_at s p"
    using ih by auto
  show ?case using ih other new fresh x by auto
qed simp

lemma bootstrap_response_files:
  assumes "mset (ct_order env [''ca.crt'', ''client.crt'', ''client.key'']) = mset [''ca.crt'', ''client.crt'', ''client.key'']"
  shows "set (cert_files env r key) = {(''ca.crt'', bp_CaCert r), (''client.crt'', bp_ClientCert r), (''client.key'', key)}"
    and "distinct (map fst (cert_files env r key))"
proof -
  let ?n = "[''ca.crt'', ''client.crt'', ''client.key'']"
  have "set (ct_order env ?n) = set ?n" by (rule mset_eq_setD[OF assms])
  then show "set (cert_files env r key) = {(''ca.crt'', bp_CaCert r), (''client.crt'', bp_ClientCert r), (''client.key'', key)}"
    by (simp add: cert_files_def Let_def)
  have "map fst (cert_files env r key) = ct_order env ?n" by (simp add: cert_files_def Let_def comp_def)
  moreover have "distinct (ct_order env ?n)" using mset_eq_imp_distinct_iff[OF assms] by simp
  ultimately show "distinct (map fst (cert_files env r key))" by simp
qed


section \<open>A configuration as JSON\<close>

definition valid_interface :: "interface_message \<Rightarrow> bool" where
  "valid_interface i \<longleftrightarrow> valid_utf8 (im_Name i) \<and> list_all valid_utf8 (im_Addresses i) \<and> valid_utf8 (im_Gateway i)"

text \<open>A message of the protocol has only valid UTF-8 in it.\<close>

definition valid_message :: "config_message \<Rightarrow> bool" where
  "valid_message c \<longleftrightarrow> valid_utf8 (cf_Hostname c) \<and> list_all valid_utf8 (cf_KernelArgs c)
     \<and> list_all valid_utf8 (cf_DnsServers c) \<and> list_all valid_utf8 (cf_NtpServers c)
     \<and> (case cf_Network c of None \<Rightarrow> True | Some is \<Rightarrow> list_all valid_interface is)"

definition empty_config :: config_message where
  "empty_config = \<lparr>cf_Hostname = [], cf_KernelArgs = [], cf_DnsServers = [], cf_NtpServers = [], cf_Network = None\<rparr>"

lemma folded_keys [simp]:
  "json_fold ''network'' = ''NETWORK''" "json_fold ''hostname'' = ''HOSTNAME''" "json_fold ''kernel_args'' = ''KERNEL_ARGS''"
  "json_fold ''dns_servers'' = ''DNS_SERVERS''" "json_fold ''ntp_servers'' = ''NTP_SERVERS''" "json_fold ''interfaces'' = ''INTERFACES''"
  "json_fold ''name'' = ''NAME''" "json_fold ''dhcp'' = ''DHCP''" "json_fold ''addresses'' = ''ADDRESSES''"
  "json_fold ''gateway'' = ''GATEWAY''" "json_fold ''mtu'' = ''MTU''" "json_fold ''config'' = ''CONFIG''"
  by code_simp+

declare json_fold.simps [simp del]

declare json_field_append [simp]

lemma json_field_other [simp]:
  "json_fold k \<noteq> json_fold f \<Longrightarrow> json_field f dec (j_str k s) x = Inr x"
  "json_fold k \<noteq> json_fold f \<Longrightarrow> json_field f dec (j_bool k b) x = Inr x"
  "json_fold k \<noteq> json_fold f \<Longrightarrow> json_field f dec (j_nat k n) x = Inr x"
  "json_fold k \<noteq> json_fold f \<Longrightarrow> json_field f dec (j_list k vs) x = Inr x"
  "json_fold k \<noteq> json_fold f \<Longrightarrow> json_field f dec (j_msg k m) x = Inr x"
  by (simp_all add: j_str_def j_bool_def j_nat_def j_list_def j_msg_def split: option.split)

lemma as_mtu_number: "as_mtu (JNum (show_nat (unat w))) x = Inr w"
proof -
  have "unat w < 2 ^ 32" using unsigned_less[of w, where 'a = nat] by simp
  moreover have "list_all is_digit (show_nat (unat w))" using show_nat_digits by (auto simp: list_all_iff)
  ultimately show ?thesis by (simp add: as_mtu_def digits_val_show)
qed

lemma dec_strings_rendered: "dec_strings (map JStr ss) [] = Inr ss"
  by (induction ss) (simp_all add: as_string_def)

lemma json_field_same [simp]:
  "json_field f as_string (j_str f s) [] = Inr s"
  "json_field f as_bool (j_bool f b) False = Inr b"
  "json_field f as_mtu (j_nat f (unat w)) 0 = Inr w"
  "json_field f as_strings (j_list f (map JStr ss)) [] = Inr ss"
  by (simp_all add: j_str_def j_bool_def j_nat_def j_list_def as_string_def as_bool_def as_mtu_number as_strings_def
      dec_strings_rendered unat_eq_0)

lemma as_interface_rendered: "as_interface (JObj (interface_members i)) zero_interface = Inr i"
  by (simp add: as_interface_def interface_members_def zero_interface_def)

lemma dec_interfaces_rendered: "dec_interfaces (map (\<lambda>i. JObj (interface_members i)) is) [] = Inr is"
  by (induction "is") (simp_all add: as_interface_rendered)

lemma as_network_rendered:
  "json_field ''network'' as_network (j_msg ''network'' (map_option (\<lambda>is. j_list ''interfaces'' (map (\<lambda>i. JObj (interface_members i)) is)) net)) None
    = Inr net"
proof (cases net)
  case (Some "is")
  have "json_field ''interfaces'' as_interfaces (j_list ''interfaces'' (map (\<lambda>i. JObj (interface_members i)) is)) [] = Inr is"
    using dec_interfaces_rendered[of "is"] by (simp add: j_list_def as_interfaces_def)
  with Some show ?thesis by (simp add: j_msg_def as_network_def)
qed (simp add: j_msg_def)

lemma config_of_rendered: "config_of_members (config_members c) = Inr c"
  by (simp add: config_of_members_def config_members_def as_network_rendered)

lemma config_of_wrapped: "config_of_members (j_msg ''config'' m) = Inr empty_config"
  by (simp add: config_of_members_def empty_config_def)
text \<open>What is rendered can be read back.\<close>

lemma depth_Obj: "json_depth (JObj ms) \<le> Suc k \<longleftrightarrow> (\<forall>m\<in>set ms. json_depth (snd m) \<le> k)"
  by (auto simp: case_prod_unfold)

lemma depth_Arr: "json_depth (JArr vs) \<le> Suc k \<longleftrightarrow> (\<forall>v\<in>set vs. json_depth v \<le> k)"
  by auto

lemma plain_number_show: "plain_number (show_nat n)"
proof (cases "n = 0")
  case True
  have "show_nat 0 = ''0''" by code_simp
  with True show ?thesis by (simp add: plain_number_def is_digit_def byte_def)
next
  case False
  then show ?thesis using show_nat_digits show_nat_head[of n] by (auto simp: plain_number_def list_all_iff)
qed

text \<open>Members of a given depth.\<close>

definition good_members :: "nat \<Rightarrow> members \<Rightarrow> bool" where
  "good_members k ms \<longleftrightarrow> (\<forall>m\<in>set ms. valid_utf8 (fst m) \<and> json_plain (snd m) \<and> json_depth (snd m) \<le> k)"

lemma good_append [simp]: "good_members k (ms @ ns) \<longleftrightarrow> good_members k ms \<and> good_members k ns"
  by (auto simp: good_members_def)

lemma good_Obj: "good_members k ms \<Longrightarrow> json_plain (JObj ms) \<and> json_depth (JObj ms) \<le> Suc k"
  unfolding depth_Obj by (auto simp: good_members_def)

lemma good_leaf:
  "valid_utf8 k \<Longrightarrow> valid_utf8 s \<Longrightarrow> good_members d (j_str k s)"
  "valid_utf8 k \<Longrightarrow> good_members d (j_bool k b)"
  "valid_utf8 k \<Longrightarrow> good_members d (j_nat k n)"
  by (auto simp: good_members_def j_str_def j_bool_def j_nat_def plain_number_show)

lemma good_list:
  "valid_utf8 k \<Longrightarrow> (\<And>v. v \<in> set vs \<Longrightarrow> json_plain v \<and> json_depth v \<le> d) \<Longrightarrow> good_members (Suc d) (j_list k vs)"
  using depth_Arr[of vs d] by (auto simp: good_members_def j_list_def simp del: json_depth.simps)

lemma good_strings: "valid_utf8 k \<Longrightarrow> list_all valid_utf8 ss \<Longrightarrow> good_members (Suc d) (j_list k (map JStr ss))"
  by (rule good_list) (auto simp: list_all_iff)

lemma good_msg: "valid_utf8 k \<Longrightarrow> (\<And>ms. m = Some ms \<Longrightarrow> good_members d ms) \<Longrightarrow> good_members (Suc d) (j_msg k m)"
  using good_Obj[of d] by (auto simp: good_members_def[of "Suc d"] j_msg_def simp del: json_plain.simps json_depth.simps split: option.split)

lemma good_mono: "good_members d ms \<Longrightarrow> d \<le> e \<Longrightarrow> good_members e ms"
  by (auto simp: good_members_def)

lemma config_field_names [simp]:
  "valid_utf8 ''network''" "valid_utf8 ''interfaces''" "valid_utf8 ''hostname''" "valid_utf8 ''kernel_args''"
  "valid_utf8 ''dns_servers''" "valid_utf8 ''ntp_servers''" "valid_utf8 ''name''" "valid_utf8 ''dhcp''" "valid_utf8 ''addresses''"
  "valid_utf8 ''gateway''" "valid_utf8 ''mtu''" "valid_utf8 ''config''"
  by code_simp+

declare valid_utf8.simps [simp del]

lemma good_interface: "valid_interface i \<Longrightarrow> good_members 1 (interface_members i)"
  unfolding interface_members_def good_append One_nat_def
  by (intro conjI good_leaf good_strings) (simp_all add: valid_interface_def del: valid_utf8.simps)

lemma good_config:
  assumes "valid_message c"
  shows "good_members 4 (config_members c)"
proof -
  have "good_members 3 (j_list ''interfaces'' (map (\<lambda>i. JObj (interface_members i)) is))" if "cf_Network c = Some is" for "is"
    unfolding numeral_3_eq_3
  proof (rule good_list)
    fix v assume "v \<in> set (map (\<lambda>i. JObj (interface_members i)) is)"
    then obtain i where i: "i \<in> set is" "v = JObj (interface_members i)" by auto
    with assms that have "valid_interface i" by (auto simp: valid_message_def list_all_iff)
    from good_Obj[OF good_interface[OF this]] show "json_plain v \<and> json_depth v \<le> Suc (Suc 0)"
      using i by (simp del: json_plain.simps json_depth.simps)
  qed simp
  then have "good_members (Suc 3) (j_msg ''network'' (map_option (\<lambda>is. j_list ''interfaces'' (map (\<lambda>i. JObj (interface_members i)) is)) (cf_Network c)))"
    by (intro good_msg) (auto simp del: valid_utf8.simps)
  moreover have "good_members (Suc 3) (j_str ''hostname'' (cf_Hostname c))" 
    "good_members (Suc 3) (j_list ''kernel_args'' (map JStr (cf_KernelArgs c)))"
    "good_members (Suc 3) (j_list ''dns_servers'' (map JStr (cf_DnsServers c)))"
    "good_members (Suc 3) (j_list ''ntp_servers'' (map JStr (cf_NtpServers c)))"
    using assms by (intro good_leaf good_strings; simp add: valid_message_def del: valid_utf8.simps)+
  ultimately show ?thesis by (simp add: config_members_def)
qed

lemma read_rendered:
  assumes "good_members k ms" "k < max_depth"
  shows "json_members_of (json_indent 0 (JObj ms) @ [CHR 0x0A]) = Inr ms"
proof -
  have "json_plain (JObj ms)" "json_depth (JObj ms) \<le> max_depth" 
    using good_Obj[OF assms(1)] assms(2) by (simp_all del: json_plain.simps json_depth.simps)
  then show ?thesis using json_parse_indent[of "JObj ms" "[CHR 0x0A]"] by (simp add: json_members_of_def)
qed

lemma empty_apply: "Apply uc a (protoToConfig empty_config) s = (Inr \<lparr>ar_Warnings = [], ar_RebootRequired = False\<rparr>, s)"
  by (simp add: Apply_def apply_hostname_part_def apply_network_part_def apply_kargs_part_def apply_dns_part_def
      protoToConfig_def empty_config_def)

text \<open>
  C38: a configuration written as JSON in the form \<open>config-apply\<close> reads, which is the value of the member \<open>config\<close> in
  the output of \<open>config-get -o json\<close>, is sent to the node exactly as it was. The output itself is not in this form: as
  a file for \<open>config-apply\<close> it is read without an error as the empty configuration, which the node applies by doing
  nothing and answers with success.
\<close>

theorem config_json_forms:
  assumes "valid_message c"
  shows "unmarshal_config (json_indent 0 (JObj (config_members c)) @ [CHR 0x0A]) = Inr c
    \<and> output_JSON (Inr (config_json (Some c))) = Inr (json_indent 0 (config_json (Some c)) @ [CHR 0x0A])
    \<and> unmarshal_config (json_indent 0 (config_json (Some c)) @ [CHR 0x0A]) = Inr empty_config
    \<and> Apply uc a (protoToConfig empty_config) s = (Inr \<lparr>ar_Warnings = [], ar_RebootRequired = False\<rparr>, s)"
proof -
  have "good_members 5 (j_msg ''config'' (Some (config_members c)))"
    using good_msg[of "''config''" "Some (config_members c)" 4] good_config[OF assms] by (simp del: valid_utf8.simps)
  moreover have "(4::nat) < max_depth" "(5::nat) < max_depth" by (simp_all add: max_depth_def)
  ultimately show ?thesis
    using read_rendered[OF good_config[OF assms]] read_rendered[of 5 "j_msg ''config'' (Some (config_members c))"]
    by (simp add: unmarshal_config_def config_of_rendered config_of_wrapped config_json_def output_JSON_def empty_apply
        del: json_indent.simps)
qed

section \<open>An example\<close>

text \<open>A client that records its requests, and a directory with credentials.\<close>

definition test_client :: "(rpc list, nat) machine_client" where
  "test_client =
     \<lparr>cl_Version = (\<lambda>t n. (Inr \<lparr>vs_Version = ''1'', vs_GoVersion = ''go'', vs_OsImage = [], vs_OsVersion = [], vs_OsImageDigest = [],
          vs_OsStagedImage = []\<rparr>, n @ [Version])),
      cl_Health = (\<lambda>t n. (Inr \<lparr>hs_Status = 3, hs_Services = []\<rparr>, n @ [Health])),
      cl_Stats = (\<lambda>t n. (Inr \<lparr>sy_Memory = None, sy_Cpu = None, sy_Disks = [], sy_Load = None\<rparr>, n @ [Stats])),
      cl_ServiceStatus = (\<lambda>t u n. (Inl (Ext ''no unit''), n @ [ServiceStatus u])),
      cl_GetConfig = (\<lambda>t n. (Inr None, n @ [GetConfig])),
      cl_ApplyConfig = (\<lambda>t c n. (Inr \<lparr>as_Warnings = [], as_RebootRequired = False\<rparr>, n @ [ApplyConfig c])),
      cl_Upgrade = (\<lambda>t i n. (Inr \<lparr>up_CurrentImage = ''a'', up_CurrentDigest = [], up_StagedImage = i, up_RebootRequired = True\<rparr>,
          n @ [Upgrade i])),
      cl_Rollback = (\<lambda>t n. (Inl (Ext ''nothing''), n @ [Rollback])),
      cl_Reboot = (\<lambda>t n. (None, n @ [Reboot])),
      cl_Logs = (\<lambda>t q n. (Inr ([\<lparr>lr_Timestamp = ''1'', lr_Unit = [], lr_Message = ''m'', lr_Priority = []\<rparr>], None), n @ [Logs q])),
      cl_Dmesg = (\<lambda>t q n. (Inr ([], Some (Ext ''cut'')), n @ [Dmesg q])),
      cl_BootstrapAuth = (\<lambda>t q n. (Inr \<lparr>bp_CaCert = ''C:ca'', bp_ClientCert = ''S'', bp_CaFingerprint = ''fp''\<rparr>, n))\<rparr>"

definition test_ctl :: "(rpc list, nat, nat, nat) ctl_env" where
  "test_ctl =
     \<lparr>ct_dial = (\<lambda>e s. Inr test_client), ct_key_pair = (\<lambda>c k. Inr c), ct_is_pool = (\<lambda>s. True), ct_crypto = test_crypto,
      ct_hostname = ''h'', ct_sha256 = (\<lambda>x. x), ct_random32 = Inr ''0123'', ct_fmt1 = (\<lambda>x. show_nat x), ct_fmt2 = (\<lambda>x. show_nat x),
      ct_json_float = (\<lambda>x. Some (show_nat x)), ct_float_zero = (\<lambda>x. x = 0), ct_order = rev\<rparr>"

definition test_ctl_world :: "rpc list ctl_world" where
  "test_ctl_world =
     \<lparr>cw_fs = \<lparr>fs_files = [(''/d/ca.crt'', \<lparr>f_data = ''C:ca'', f_time = 0\<rparr>), (''/d/client.crt'', \<lparr>f_data = ''S'', f_time = 0\<rparr>),
          (''/d/client.key'', \<lparr>f_data = ''K'', f_time = 0\<rparr>)], fs_dirs = [''/'', ''/d''], fs_now = 0, fs_faults = []\<rparr>,
      cw_out = [], cw_err = [], cw_stdin = Inl (Ext ''closed''), cw_net = []\<rparr>"

lemma test_spelled: "list_all2 spelled [SetTLSDir ''/d''] [[''--tls-dir'', ''/d'']]" "list_all2 spelled [] []"
  by (simp_all add: spelled.intros)


theorem commands_send_one_request_witness:
  "cw_net (snd (configApplyCmd test_ctl \<lparr>g_Endpoint = [], g_TLSDir = ''/e'', g_Output = []\<rparr> [''-f'', ''/x''] test_ctl_world)) = []
    \<and> cw_net (snd (rebootCmd test_ctl \<lparr>g_Endpoint = [], g_TLSDir = ''/d'', g_Output = []\<rparr> [] test_ctl_world)) = [Reboot]
    \<and> one_request test_ctl \<lparr>g_Endpoint = [], g_TLSDir = ''/d'', g_Output = []\<rparr> (command_request ''reboot'' []) 
        (rebootCmd test_ctl \<lparr>g_Endpoint = [], g_TLSDir = ''/d'', g_Output = []\<rparr> [])"
proof -
  let ?c = "\<lparr>c_Name = ''reboot'', c_Help = ''Reboot the node'', c_Run = rebootCmd test_ctl\<rparr>"
  have "?c \<in> set (ctl_commands test_ctl)" by (simp add: ctl_commands_def)
  from commands_send_one_request[OF this, of "\<lparr>g_Endpoint = [], g_TLSDir = ''/d'', g_Output = []\<rparr>" "[]"]
  have "one_request test_ctl \<lparr>g_Endpoint = [], g_TLSDir = ''/d'', g_Output = []\<rparr> (command_request ''reboot'' []) 
        (rebootCmd test_ctl \<lparr>g_Endpoint = [], g_TLSDir = ''/d'', g_Output = []\<rparr> [])" by simp
  moreover have "cw_net (snd (configApplyCmd test_ctl \<lparr>g_Endpoint = [], g_TLSDir = ''/e'', g_Output = []\<rparr> [''-f'', ''/x''] test_ctl_world)) = []"
    "cw_net (snd (rebootCmd test_ctl \<lparr>g_Endpoint = [], g_TLSDir = ''/d'', g_Output = []\<rparr> [] test_ctl_world)) = [Reboot]"
    by code_simp+
  ultimately show ?thesis by blast
qed

section \<open>Enrolling in the example\<close>

definition test_pin_fs :: fs where
  "test_pin_fs = \<lparr>fs_files = [(''/d/ca.crt'', \<lparr>f_data = ''C:ca'', f_time = 0\<rparr>), (''/d/server.crt'', \<lparr>f_data = ''C:srv'', f_time = 0\<rparr>)],
     fs_dirs = [''/'', ''/d''], fs_now = 0, fs_faults = []\<rparr>"

theorem bootstrap_pins_server_witness:
  "fst (ServerFingerprint (\<lambda>x. x) test_crypto ''/d'' test_pin_fs) = Inr (cert_fingerprint (\<lambda>x. x) ''srv'')
    \<and> \<not> (\<exists>y. fst (CAFingerprint (\<lambda>x. x) test_crypto ''/d'' test_pin_fs) = Inr y \<and> verifyFingerprint (\<lambda>x. x) y [''srv''] = None)"
proof -
  have r: "fst (ReadFile (path_join ''/d'' serverCertFile) test_pin_fs) = Inr ''C:srv''"
    "fst (ReadFile (path_join ''/d'' caFile) test_pin_fs) = Inr ''C:ca''"
    "pem_decode test_crypto ''C:srv'' = Some (''C'', ''srv'')" "pem_decode test_crypto ''C:ca'' = Some (''C'', ''ca'')"
    by code_simp+
  have "verifyFingerprint (\<lambda>x. x) (cert_fingerprint (\<lambda>x. x) ''srv'') [''srv''] = None" by (simp add: verifyFingerprint_iff)
  note ok = this
  have pin: "(verifyFingerprint (\<lambda>x. x) x [''srv''] = None \<longleftrightarrow> fst (ServerFingerprint (\<lambda>x. x) test_crypto ''/d'' test_pin_fs) = Inr x)
    \<and> ((\<exists>y. fst (CAFingerprint (\<lambda>x. x) test_crypto ''/d'' test_pin_fs) = Inr y \<and> verifyFingerprint (\<lambda>x. x) y [''srv''] = None) \<longleftrightarrow> ''ca'' = ''srv'')" for x
    by (rule bootstrap_pins_server[OF r(1,3,2,4)])
  have "''ca'' \<noteq> ''srv''" by simp
  with pin ok show ?thesis by blast
qed

definition test_token_fs :: fs where
  "test_token_fs = snd (WriteTokenHash (\<lambda>x. x) ''/d'' (hex_encode ''0123'') test_pki_fs)"

theorem gen_token_accepted_witness:
  "fst (Bootstrap (\<lambda>x. x) test_crypto (hex_encode ''0123'') ''R:x'' (NewManager ''/d'') test_token_fs)
     = Ret (Inr \<lparr>br_ca_cert = ''C:ca'', br_client_cert = ''CERTIFICATE:bootstrap-5''\<rparr>)
   \<and> fst (genTokenCmd test_ctl \<lparr>g_Endpoint = [], g_TLSDir = [], g_Output = []\<rparr> [] test_ctl_world) = Returned None"
proof -
  have env: "ct_random32 test_ctl = Inr ''0123''" "ct_sha256 test_ctl = (\<lambda>x. x)" by (simp_all add: test_ctl_def)
  have calm: "calm test_token_fs" by code_simp
  have "\<not> spent (NewManager ''/d'') test_token_fs" by code_simp
  moreover have "file_at test_token_fs (hash_path (NewManager ''/d'')) = Some (token_hash (\<lambda>x. x) (hex_encode ''0123'') @ [CHR 0x0A])"
    by code_simp
  moreover have ca: "file_at test_token_fs (path_join ''/d'' caFile) = Some ''C:ca''"
    "file_at test_token_fs (path_join ''/d'' caKeyFile) = Some ''K:7''"
    by code_simp+
  moreover have "fst (SignCSR test_crypto ''/d'' ''R:x'' test_token_fs) = Inr ''CERTIFICATE:bootstrap-5''"
    using load_ca_calm[OF calm ca, of test_crypto]
    by (simp add: SignCSR_def)
      (simp add: test_crypto_def client_template_def bootstrap_cn_def show_int_def cut_at_def test_show)
  moreover obtain c where "parse_cert test_crypto ''bootstrap-5'' = Inr c" using test_bs_cert by blast
  ultimately show ?thesis
    using gen_token_accepted[OF env(1) calm, of "''/d''" "''C:ca''" "''R:x''" test_crypto "''CERTIFICATE:bootstrap-5''"
        "''CERTIFICATE''" "''bootstrap-5''" c "\<lparr>g_Endpoint = [], g_TLSDir = [], g_Output = []\<rparr>" "[]" test_ctl_world] test_bs_parse
    unfolding env(2) by simp
qed

abbreviation test_enrol_args :: "string list" where
  "test_enrol_args \<equiv> [''--token'', ''T'', ''--ca-fingerprint'', ''f'', ''--output-dir'', ''/d/'']"


definition test_config :: config_message where
  "test_config = \<lparr>cf_Hostname = ''n1'', cf_KernelArgs = [''quiet'', ''x=<1>''], cf_DnsServers = [], cf_NtpServers = [''ntp''],
     cf_Network = Some [\<lparr>im_Name = ''eth0'', im_Dhcp = False, im_Addresses = [''10.0.0.2/24''], im_Gateway = ''10.0.0.1'', im_Mtu = 1500\<rparr>]\<rparr>"

theorem config_json_forms_witness:
  "unmarshal_config (json_indent 0 (JObj (config_members test_config)) @ [CHR 0x0A]) = Inr test_config
    \<and> unmarshal_config (json_indent 0 (config_json (Some test_config)) @ [CHR 0x0A]) = Inr empty_config"
proof -
  have "valid_message test_config" by code_simp
  from config_json_forms[OF this, of test_uc "NewApplier [] [] network_NewManager (kargs_NewManager test_uc)" test_pin_fs]
  show ?thesis by simp
qed

end
