(* ===== verification/Spec2Isabelle.thy ===== *)
theory Spec2Isabelle
  imports Validate Handler Bootstrap Machine_Config Health Bootc Journal Proc_Stats Agent_Config Oidc Cedar Machine_Api Agent_Live Agent_Example Hbctl_Props
begin

text \<open>
  A model of hbctl, the management of a node of an image-based operating system over gRPC, and of what makes it correct.
  The repository has two programs. The agent (\<open>cmd/hb-agent\<close>) runs on the node: it creates the node's certificates,
  authenticates and authorizes every call, and reads and changes units, journal, statistics, configuration and images.
  The client (\<open>cmd/hbctl\<close>) sends one request per command. All paths below are under \<open>src/\<close>.

  \<^bold>\<open>Conventions.\<close> A Go string is a HOL \<open>string\<close> of bytes; \<open>uint32\<close> and \<open>uint64\<close> are words of their width, \<open>int\<close> is
  \<open>int\<close> where the code cannot leave its range and is cut explicitly where it can. A result \<open>error\<close> is an
  \<open>error option\<close>, a pair \<open>(T, error)\<close> is \<open>error + T\<close> (or a pair where the code uses the value beside an error), a
  pointer or interface that may be nil is an \<open>option\<close>, an interface is a record of its operations, and a function that
  may panic has its result in \<open>'a go\<close> (\<open>Prelude\<close>). Errors keep the structure of the call that made them; \<open>Error_Text\<close>
  gives their text. State is passed explicitly: the files as \<open>fs\<close> (\<open>Files\<close>), with an oracle of faults, so that every
  write may fail or be cut short; the agent's state as \<open>world\<close> (files, the enrolment manager, the rest), the client's
  as \<open>ctl_world\<close>. Libraries and services outside the repository are parameters: cryptography and X.509 (\<open>crypto\<close>),
  HTTP, clock and signatures of OIDC (\<open>oidc_env\<close>), the Cedar engine (\<open>cedar_lib\<close>), D-Bus (\<open>systemd_bus\<close>), running
  commands (\<open>executor\<close>), Unicode tables (\<open>unicode\<close>), floats (\<open>floats\<close>), gRPC (the interceptor chain, the connection
  \<open>ct_dial\<close>). No theorem assumes more of them than its statement says.

  \<^bold>\<open>The theories and the code they model.\<close>
  \<^item> \<open>Prelude\<close>, \<open>Go_Strings\<close>, \<open>Regex\<close>, \<open>Scanner\<close>, \<open>Json\<close>, \<open>Files\<close>, \<open>Error_Text\<close>, \<open>Go_Flags\<close>: what the code uses of Go and
    its standard library: outcomes and errors, \<open>strings\<close>, UTF-8, quoting, hexadecimal, the anchored patterns of
    \<open>regexp\<close> by derivatives, \<open>bufio.Scanner\<close>, \<open>encoding/json\<close> in both directions, \<open>os\<close> and \<open>path/filepath\<close>, \<open>flag\<close>.
  \<^item> \<open>Validate\<close> (\<open>internal/validate\<close>): the checks of unit names, image references, addresses, interface and host names
    and kernel arguments.
  \<^item> \<open>Authn\<close>, \<open>Oidc\<close> (\<open>internal/authn\<close> with \<open>mtls\<close>, \<open>token\<close>, \<open>oidc\<close>): identities, registry, interceptors, the three providers,
    the verification of signed tokens with its cache of keys.
  \<^item> \<open>Authz\<close>, \<open>Cedar\<close> (\<open>internal/authz\<close> with \<open>cedar\<close>): resources, the resource map, registry, interceptors, the authorizers.
  \<^item> \<open>Audit_Log\<close> (\<open>internal/audit\<close>): the chained log, exclusion rules, rotation, restart, subscribers and \<open>VerifyLog\<close>.
  \<^item> \<open>Handler\<close> (\<open>internal/handler\<close>): the checks and the audit around every call, unary and streaming.
  \<^item> \<open>Pki\<close> (\<open>internal/pki\<close>) and \<open>Bootstrap\<close> (\<open>internal/bootstrap\<close>): the node's authority and certificates, signing requests, and
    the enrolment with a one-time token.
  \<^item> \<open>Systemd\<close>, \<open>Journal\<close>, \<open>Proc_Stats\<close>, \<open>Bootc\<close>, \<open>Kargs\<close>, \<open>Network\<close> (\<open>internal/system/*\<close>, \<open>internal/upgrade\<close>): the parts of the
    node. \<open>Config_Store\<close> is the interface of the two stores, \<open>Machine_Config\<close> (\<open>internal/machineconfig\<close>) applies and reads a
    configuration through it. \<open>Health\<close> (\<open>internal/health\<close>) aggregates probes.
  \<^item> \<open>Machine_Api\<close> (\<open>internal/api/v1alpha1\<close>): the calls, their messages and the enrolment call. \<open>Agent_Server\<close>
    (\<open>internal/agent\<close>): the server with its interceptors. \<open>Plugins\<close> (\<open>internal/plugin\<close>, \<open>plugins/*\<close>), \<open>Agent_Config\<close>
    (\<open>internal/config\<close>) and \<open>Hb_Agent\<close> (\<open>cmd/hb-agent\<close>): the agent's start, its dependencies and its health loop.
    \<open>Agent_Run\<close> has the program and the running agent as a transition system over calls, enrolments, health checks and
    the signal that ends it, on the frames of \<open>Frame\<close>; \<open>Agent_Live\<close> shows that it answers, and \<open>Agent_Example\<close>
    evaluates a run.
  \<^item> \<open>Cli\<close> (\<open>internal/cli\<close>), \<open>Output\<close> (\<open>internal/output\<close>), \<open>Client\<close> (\<open>internal/client\<close>), \<open>Hbctl\<close> and \<open>Hbctl_Props\<close> (\<open>cmd/hbctl\<close>): the
    command line, printing, connecting, the commands and the program.

  \<^bold>\<open>Interfaces.\<close> \<open>factory_registry\<close> (\<open>Authn\<close>) is the contract of the three registries, interpreted on each;
  \<open>Config_Store\<close> states what the applier needs of a store, interpreted on the network and the kernel-argument files;
  \<open>guarded\<close> (\<open>Handler\<close>), interpreted on unary and streaming handlers, splits a call into the checks \<open>gate\<close> and the
  part behind them;
  \<open>file_blind\<close> (\<open>Frame\<close>) is what an observation of the agent's memory must satisfy to survive every call, interpreted on
  the enrolment manager and on the rest beside the files.

  \<^bold>\<open>What is shown.\<close>
  \<^item> Access: no call has an effect without an identity and an explicit permission for its own action and resource
    (\<open>unary_fail_closed\<close>, \<open>api_authorized\<close>, \<open>stream_is_unary\<close>), from the configuration of the agent on
    (\<open>agent_end_to_end\<close>); what an accepted token must satisfy (\<open>oidc_token_sound\<close>, \<open>token_authenticate_iff\<close>); every policy is
    loaded (\<open>cedar_loads_every_policy\<close>).
  \<^item> Audit: every call is audited exactly once (\<open>audit_exactly_once\<close>, \<open>bootstrap_auth_audited\<close>), the log verifies and
    commits to what it signs (\<open>audit_log_verifies\<close>, \<open>audit_log_commits\<close>), and what rotation does (\<open>audit_rotation\<close>).
  \<^item> Enrolment: limits on guesses and on use (\<open>agent_lockout\<close> over all runs of an agent, from \<open>bootstrap_lockout\<close>'s
    reasoning about the manager, and \<open>bootstrap_enrols_once\<close>, by rule induction over runs with
    restarts), what an issued certificate is (\<open>sign_csr_issues_client_cert\<close>), and the client's side
    (\<open>bootstrap_pins_server\<close>, \<open>bootstrap_then_connect\<close>, \<open>gen_token_accepted\<close>).
  \<^item> Configuration: input that is not valid has no effect (\<open>api_rejects_bad_input\<close>, \<open>accepted_words_are_safe\<close>), no injection
    into the files (\<open>network_no_injection\<close>), frames (\<open>apply_touches_only\<close>), and round trips from the protocol to the files
    and back (\<open>api_config_read_back\<close>, \<open>network_roundtrip\<close>, \<open>kargs_roundtrip\<close>, \<open>config_json_forms\<close>).
  \<^item> Operation: \<open>health_check_spec\<close>, \<open>watchdog_spec\<close>, \<open>meminfo_exact\<close>, \<open>api_service_control\<close>, \<open>human_bytes_accurate\<close>.
  \<^item> The agent as a process: its start comes to an end (\<open>main_comes_to_an_end\<close>), it answers every call but the health call
    (\<open>calls_return\<close>), and an answer has the message of its method (\<open>answers_well_typed\<close>).
  \<^item> The client: one request per command, with the right credentials (\<open>commands_send_one_request\<close>, \<open>cli_dispatch\<close>), and, with
    the agent behind the connection, \<open>hbctl_needs_permission\<close> below.
  \<^item> Theorems about faults of the code, stated as the code behaves: \<open>apply_not_atomic\<close>, \<open>audit_rotation\<close>, \<open>errors_unreported\<close>,
    \<open>audit_unavailable_panics\<close>, \<open>health_call_panics\<close>, the second half of \<open>kargs_roundtrip\<close>, \<open>bootstrap_pins_server\<close> and
    \<open>config_json_forms\<close>.

  \<^bold>\<open>Bounds and fuel.\<close> Only the JSON parser takes fuel, twice the length of its text plus two; \<open>Json\<close> shows that more changes
  nothing, and its nesting limit is the decoder's own 10000. All other loops are structural or have a termination proof.
  Streams are finite lists of what was sent; a journal that is followed is seen up to its end. The health loop runs over a
  list of ready channels and may end inside it.

  \<^bold>\<open>Not modelled.\<close> Locks and goroutines (every operation is atomic; no two calls interleave), signals and the order of
  shutdown, log output (\<open>slog\<close>), the modes of files, symbolic links, the reflection service of gRPC, the usage texts of
  package \<open>flag\<close>, failing writes to the terminal, and the generated protocol code but for its messages and method names. What
  the parameters stand for is not modelled either: TLS, X.509, signatures, HTTP, Cedar policies, D-Bus, bootc,
  journalctl, floats.
\<close>

section \<open>The client with the agent behind the connection\<close>

text \<open>
  The network of the client is the state of one agent, \<open>None\<close> after a panic, which ends its process. \<open>ln_ctx\<close> is the
  context the agent makes of a connection with the given credentials; \<open>ln_sendL\<close> and \<open>ln_sendD\<close> send the messages of a
  stream, and \<open>ln_logs\<close> and \<open>ln_dmesg\<close> are the messages sent between two states. Calls end before their deadline.
\<close>

record 'x link =
  ln_ctx :: "security \<Rightarrow> rctx"
  ln_sendL :: "logs_response \<Rightarrow> 'x world \<Rightarrow> error option \<times> 'x world"
  ln_sendD :: "dmesg_response \<Rightarrow> 'x world \<Rightarrow> error option \<times> 'x world"
  ln_logs :: "'x world \<Rightarrow> 'x world \<Rightarrow> logs_response list"
  ln_dmesg :: "'x world \<Rightarrow> 'x world \<Rightarrow> dmesg_response list"

definition remote :: "('x world \<Rightarrow> ((error + 'r) \<times> 'x world) go) \<Rightarrow> 'x world option \<Rightarrow> (error + 'r) \<times> 'x world option" where
  "remote m n =
     (case n of
        None \<Rightarrow> (Inl (Ext ''unavailable''), None)
      | Some w \<Rightarrow> (case m w of Panic t \<Rightarrow> (Inl (Ext ''unavailable''), None) | Ret (r, w) \<Rightarrow> (r, Some w)))"

definition ask ::
    "('x, 'f) agent_server \<Rightarrow> 'x link \<Rightarrow> rctx \<Rightarrow> rpc \<Rightarrow> ('f response \<Rightarrow> 'r option) \<Rightarrow> 'x world option \<Rightarrow>
     (error + 'r) \<times> 'x world option" where
  "ask s lk c q pick =
     remote (\<lambda>w. go_bind (agent_call s (ln_sendL lk) (ln_sendD lk) c q w) (\<lambda>(x, w).
       Ret (res_bind x (\<lambda>resp. case pick resp of None \<Rightarrow> Inl (Ext ''nil message'') | Some r \<Rightarrow> Inr r), w)))"

definition ask_stream ::
    "('x, 'f) agent_server \<Rightarrow> 'x link \<Rightarrow> rctx \<Rightarrow> rpc \<Rightarrow> ('x world \<Rightarrow> 'x world \<Rightarrow> 'm list) \<Rightarrow> 'x world option \<Rightarrow>
     (error + ('m list \<times> error option)) \<times> 'x world option" where
  "ask_stream s lk c q sent =
     remote (\<lambda>w. go_bind (agent_call s (ln_sendL lk) (ln_sendD lk) c q w) (\<lambda>(x, w').
       Ret (Inr (sent w w', case x of Inl e \<Rightarrow> Some e | Inr _ \<Rightarrow> None), w')))"

definition agent_client ::
    "('x, 'k, 'p) api_env \<Rightarrow> ('x, 'f) agent_server \<Rightarrow> 'x link \<Rightarrow> rctx \<Rightarrow> ('x world option, 'f) machine_client" where
  "agent_client env s lk c =
     \<lparr>cl_Version = (\<lambda>t. ask s lk c Version (\<lambda>x. case x of VersionResponse r \<Rightarrow> r | _ \<Rightarrow> None)),
      cl_Health = (\<lambda>t. ask s lk c Health (\<lambda>x. case x of HealthResponse r \<Rightarrow> r | _ \<Rightarrow> None)),
      cl_Stats = (\<lambda>t. ask s lk c Stats (\<lambda>x. case x of StatsResponse r \<Rightarrow> map_option stats_reply_of r | _ \<Rightarrow> None)),
      cl_ServiceStatus = (\<lambda>t u. ask s lk c (ServiceStatus u) (\<lambda>x. case x of StatusResponse r \<Rightarrow> r | _ \<Rightarrow> None)),
      cl_GetConfig = (\<lambda>t. ask s lk c GetConfig (\<lambda>x. case x of ConfigResponse (Some m) \<Rightarrow> Some (Some m) | _ \<Rightarrow> None)),
      cl_ApplyConfig = (\<lambda>t m. ask s lk c (ApplyConfig m) (\<lambda>x. case x of ApplyResponse r \<Rightarrow> r | _ \<Rightarrow> None)),
      cl_Upgrade = (\<lambda>t i. ask s lk c (Upgrade i) (\<lambda>x. case x of UpgradeResponse r \<Rightarrow> r | _ \<Rightarrow> None)),
      cl_Rollback = (\<lambda>t. ask s lk c Rollback (\<lambda>x. case x of RollbackResponse r \<Rightarrow> r | _ \<Rightarrow> None)),
      cl_Reboot = (\<lambda>t n. (case ask s lk c Reboot (\<lambda>x. case x of RebootResponse r \<Rightarrow> r | _ \<Rightarrow> None) n of
          (Inl e, n) \<Rightarrow> (Some e, n) | (Inr _, n) \<Rightarrow> (None, n))),
      cl_Logs = (\<lambda>t q. ask_stream s lk c (Logs q) (ln_logs lk)),
      cl_Dmesg = (\<lambda>t q. ask_stream s lk c (Dmesg q) (ln_dmesg lk)),
      cl_BootstrapAuth = (\<lambda>t q. remote (agent_enrol env s c q))\<rparr>"

text \<open>The caller behind a connection is allowed a request; all that a request did is authentication and its audit event.\<close>

definition permitted :: "('x, 'f) agent_options \<Rightarrow> rctx \<Rightarrow> rpc \<Rightarrow> 'x world \<Rightarrow> bool" where
  "permitted opts c q w \<longleftrightarrow>
     (\<exists>a i v act z. op_Auth opts = Some a \<and> authenticate a c w = (Inr i, v) \<and> rpc_action q = Some act \<and> op_Authz opts = Some z
        \<and> authorize z (ctx.truncate (ContextWithIdentity c i)) i act (rpc_resource q) = Inr Allow)"

definition only_audited :: "('x, 'f) agent_options \<Rightarrow> rctx \<Rightarrow> rpc \<Rightarrow> 'x world \<Rightarrow> 'x world \<Rightarrow> bool" where
  "only_audited opts c q w w' \<longleftrightarrow>
     (let v = (case op_Auth opts of None \<Rightarrow> w | Some a \<Rightarrow> snd (authenticate a c w)) in
      w' = v \<or> (\<exists>act i res out. rpc_action q = Some act \<and> emitAudit (op_Audit opts) i act res out (peerAddr c) v = Ret w'))"

lemma peer_with_identity [simp]: "peerAddr (ContextWithIdentity c i) = peerAddr c"
  by (simp add: peerAddr_def ContextWithIdentity_def)

lemma call_permitted_or_audited:
  assumes "NewServer env opts = Ret s" "ctx_identity c = None" "agent_call s sendL sendD c q w = Ret (x, w')"
  shows "permitted opts c q w \<or> only_audited opts c q w w'"
proof -
  let ?m = "machine_server_of env (op_Deps opts) (op_Authz opts) (op_Audit opts)"
  have s: "ag_auth s = op_Auth opts" "ag_skip s (full_method q) = False" "ag_machine s = ?m"
    using assms(1) by (auto simp: new_server)
  have served: "permitted opts c q w \<or> only_audited opts c q w w'"
    if "serve ?m sendL sendD d q v = Ret ((y, e), w')" "v = (case op_Auth opts of None \<Rightarrow> w | Some a \<Rightarrow> snd (authenticate a c w))"
      "peerAddr d = peerAddr c" "\<And>i. IdentityFromContext d = Some i \<Longrightarrow>
          \<exists>a. op_Auth opts = Some a \<and> authenticate a c w = (Inr i, v) \<and> d = ContextWithIdentity c i" for d v y e
    using serve_cases[OF that(1)] that(2-4) unfolding permitted_def only_audited_def Let_def by metis
  show ?thesis
  proof (cases "op_Auth opts")
    case None
    then obtain y e where "serve ?m sendL sendD c q w = Ret ((y, e), w')"
      using assms(3)
      by (auto simp: agent_call_def unary_chain_def stream_chain_def s outcome_def outcome_simps Let_def
          split: if_splits prod.splits option.splits)
    then show ?thesis using None assms(2) by (intro served) (auto simp: IdentityFromContext_def)
  next
    case (Some a)
    obtain r v where r: "authenticate a c w = (r, v)" by fastforce
    show ?thesis
    proof (cases r)
      case (Inl e)
      then have "w' = v" using assms(3) Some r
        by (auto simp: agent_call_def unary_chain_def stream_chain_def UnaryInterceptor_def StreamInterceptor_def s Let_def
            outcome_simps split: if_splits)
      then show ?thesis using Some r by (simp add: only_audited_def)
    next
      case (Inr i)
      then obtain y e where "serve ?m sendL sendD (ContextWithIdentity c i) q v = Ret ((y, e), w')"
        using assms(3) Some r
        by (auto simp: agent_call_def unary_chain_def stream_chain_def UnaryInterceptor_def StreamInterceptor_def s
            outcome_def outcome_simps Let_def split: if_splits prod.splits option.splits)
      then show ?thesis
        by (rule served) (use Some r Inr in \<open>auto simp: IdentityFromContext_def ContextWithIdentity_def peerAddr_def\<close>)
    qed
  qed
qed

lemma remote_Some: "snd (remote m (Some w)) = Some w' \<longleftrightarrow> (\<exists>r. m w = Ret (r, w'))"
  by (auto simp: remote_def split: go.splits prod.splits)

lemma remote_pair: "remote m (Some w) = (x, Some w') \<longleftrightarrow> m w = Ret (x, w')"
  by (auto simp: remote_def split: go.splits prod.splits)

lemma agent_client_step:
  assumes "client_step (agent_client env s lk c) t q (Some w) = Some w'"
  shows "w' = w \<or> (\<exists>x. agent_call s (ln_sendL lk) (ln_sendD lk) c q w = Ret (x, w'))"
proof (cases q)
  case Reboot
  with assms show ?thesis
    by (auto simp: agent_client_def ask_def remote_pair outcome_simps split: prod.splits sum.splits)
qed (use assms in \<open>auto simp: agent_client_def ask_def ask_stream_def remote_Some outcome_simps split: prod.splits sum.splits\<close>)


section \<open>An example\<close>

definition test_audit :: "event list world audit_logger" where
  "test_audit = \<lparr>should_log = (\<lambda>i a r out. Ret True), log_event = (\<lambda>e w. Ret (w\<lparr>w_ext := w_ext w @ [e]\<rparr>))\<rparr>"

definition test_node_options :: "(event list, nat) agent_options" where
  "test_node_options = test_options\<lparr>op_Audit := Some test_audit\<rparr>"

definition test_link :: "event list link" where
  "test_link = \<lparr>ln_ctx = (\<lambda>s. test_cert_ctx), ln_sendL = (\<lambda>r w. (None, w)), ln_sendD = (\<lambda>r w. (None, w)),
     ln_logs = (\<lambda>w w'. []), ln_dmesg = (\<lambda>w w'. [])\<rparr>"

definition test_linked :: "(event list, nat) agent_server \<Rightarrow> (event list world option, nat, nat, nat) ctl_env" where
  "test_linked s =
     \<lparr>ct_dial = (\<lambda>e sec. Inr (agent_client test_api_env s test_link (ln_ctx test_link sec))), ct_key_pair = (\<lambda>c k. Inr c),
      ct_is_pool = (\<lambda>s. True), ct_crypto = test_crypto, ct_hostname = ''h'', ct_sha256 = (\<lambda>x. x),
      ct_random32 = Inr ''0123'', ct_fmt1 = (\<lambda>x. show_nat x), ct_fmt2 = (\<lambda>x. show_nat x),
      ct_json_float = (\<lambda>x. Some (show_nat x)), ct_float_zero = (\<lambda>x. x = 0), ct_order = rev\<rparr>"

definition test_linked_world :: "event list world option ctl_world" where
  "test_linked_world = \<lparr>cw_fs = cw_fs test_ctl_world, cw_out = [], cw_err = [], cw_stdin = Inl (Ext ''closed''),
     cw_net = Some (test_world test_node)\<rparr>"

lemma test_node_call:
  "\<exists>s x v. NewServer test_api_env test_node_options = Ret s \<and> w_ext v \<noteq> []
     \<and> agent_call s (\<lambda>r w. (None, w)) (\<lambda>r w. (None, w)) test_cert_ctx Version (test_world test_node) = Ret (Inr x, v)"
proof -
  obtain i where i: "mtls_authenticate test_cert_ctx = Inr i"
    by (simp add: mtls_authenticate_def test_cert_ctx_def)
  obtain s where s: "NewServer test_api_env test_node_options = Ret s" by (simp add: new_server)
  then have f: "ag_auth s = op_Auth test_options" "ag_skip s (full_method r) = False"
    "ag_machine s = machine_server_of test_api_env test_deps (Some AllowAll) (Some test_audit)" for r
    by (auto simp: new_server test_node_options_def test_options_def)
  have admit: "gate (ContextWithIdentity test_cert_ctx i) (Some AllowAll) ''core:GetVersion'' ThisNode = Admit i"
    by (simp add: gate_admit_iff IdentityFromContext_def ContextWithIdentity_def test_admitted(2))
  have "\<exists>x v. w_ext v \<noteq> [] \<and> agent_call s (\<lambda>r w. (None, w)) (\<lambda>r w. (None, w)) test_cert_ctx Version (test_world test_node) = Ret (Inr x, v)"
    by (simp add: agent_call_def f unary_chain_def UnaryInterceptor_def test_options_def i Let_def
        server_simps unary_handler.exec_gate admit version_fn_def test_deps_def responded_def outcome_def
        emitAudit_def test_audit_def)
  with s show ?thesis by blast
qed

lemma test_connect:
  "\<exists>tls. ctl_fs (Connect (ct_dial (test_linked s)) (ct_key_pair (test_linked s)) (ct_is_pool (test_linked s))
       \<lparr>cc_Endpoint = [], cc_TLSDir = ''/d''\<rparr>) test_linked_world =
     (Inr (agent_client test_api_env s test_link test_cert_ctx), test_linked_world)"
proof -
  let ?l = "loadClientTLS (\<lambda>c k. Inr c :: error + string) (\<lambda>s. True) ''/d'' (cw_fs test_ctl_world)"
  have "(case fst ?l of Inl e \<Rightarrow> False | Inr tls \<Rightarrow> True)" "snd ?l = cw_fs test_ctl_world" by code_simp+
  then obtain tls where "?l = (Inr tls, cw_fs test_ctl_world)" by (auto simp: prod_eq_iff split: sum.splits)
  then show ?thesis
    by (simp add: ctl_fs_def Connect_def test_linked_def test_linked_world_def test_link_def)
qed

inductive_cases version_request: "command_request ''version'' args q t"


end
